(* ===== verification/Go_Prelude.thy ===== *)
theory Go_Prelude
  imports Main "HOL-Library.Multiset" "HOL-Library.Char_ord" "HOL-Library.List_Lexorder"
begin

text \<open>
  The part of Go and of its standard library that every component of the mirror uses.

  \<^item> \<open>error\<close> and \<open>outcome\<close>: a Go function that returns \<open>(T, error)\<close> and that may
    panic is a HOL function into \<open>T outcome\<close>: a value, a non-nil error, or a panic.  An error
    built by \<open>fmt.Errorf(format, args)\<close> is kept as its format, its string arguments and the
    errors it wraps; the text it prints as is not rendered.
  \<^item> \<open>'s \<Rightarrow> 'a outcome \<times> 's\<close>: functions with side effects, threaded with \<open>go_bind\<close>.
  \<^item> package \<open>strings\<close> on byte strings (HOL \<open>string\<close>): \<open>Contains\<close>, \<open>Split\<close>,
    \<open>SplitN\<close>, \<open>Join\<close>, \<open>Replace\<close>, \<open>HasPrefix\<close>, \<open>TrimPrefix\<close>,
    \<open>TrimSuffix\<close>, \<open>LastIndex\<close>.
  \<^item> package \<open>strconv\<close>: decimal printing and reading of unsigned numbers.
  \<^item> slices indexed with a bounds check, Go maps as association lists.
\<close>

named_theorems go_simps \<open>unfolding rules for outcomes, state passing and Go string functions\<close>

section \<open>Errors, panics, outcomes\<close>

datatype error = Errorf (err_format: string) (err_args: "string list") (err_wraps: "error list")

datatype 'a outcome = Ok 'a | Err error | Panic string

abbreviation errorf :: "string \<Rightarrow> string list \<Rightarrow> error" where
  "errorf fmt args \<equiv> Errorf fmt args []"

fun is_ok :: "'a outcome \<Rightarrow> bool" where
  "is_ok (Ok _) = True"
| "is_ok _ = False"

fun is_err :: "'a outcome \<Rightarrow> bool" where
  "is_err (Err _) = True"
| "is_err _ = False"

fun is_panic :: "'a outcome \<Rightarrow> bool" where
  "is_panic (Panic _) = True"
| "is_panic _ = False"

fun ok_bind :: "'a outcome \<Rightarrow> ('a \<Rightarrow> 'b outcome) \<Rightarrow> 'b outcome" where
  "ok_bind (Ok a) f = f a"
| "ok_bind (Err e) f = Err e"
| "ok_bind (Panic p) f = Panic p"

fun ok_map :: "('a \<Rightarrow> 'b) \<Rightarrow> 'a outcome \<Rightarrow> 'b outcome" where
  "ok_map f (Ok a) = Ok (f a)"
| "ok_map f (Err e) = Err e"
| "ok_map f (Panic p) = Panic p"

fun map_err :: "(error \<Rightarrow> error) \<Rightarrow> 'a outcome \<Rightarrow> 'a outcome" where
  "map_err f (Ok a) = Ok a"
| "map_err f (Err e) = Err (f e)"
| "map_err f (Panic p) = Panic p"

text \<open>A loop that converts every element and stops at the first error.\<close>

fun ok_mapM :: "('a \<Rightarrow> 'b outcome) \<Rightarrow> 'a list \<Rightarrow> 'b list outcome" where
  "ok_mapM f [] = Ok []"
| "ok_mapM f (x # xs) = ok_bind (f x) (\<lambda>y. ok_bind (ok_mapM f xs) (\<lambda>ys. Ok (y # ys)))"

lemma ok_bind_eq_Ok: "ok_bind m f = Ok b \<longleftrightarrow> (\<exists>a. m = Ok a \<and> f a = Ok b)"
  by (cases m) auto

lemma map_err_eq_Ok [simp]: "map_err f m = Ok b \<longleftrightarrow> m = Ok b"
  by (cases m) auto

lemma ok_map_eq_Ok: "ok_map f m = Ok b \<longleftrightarrow> (\<exists>a. m = Ok a \<and> b = f a)"
  by (cases m) auto

lemma ok_mapM_Ok: "(\<And>x. x \<in> set xs \<Longrightarrow> f x = Ok (g x)) \<Longrightarrow> ok_mapM f xs = Ok (map g xs)"
  by (induction xs) auto

lemma ok_mapM_eq_Ok: "ok_mapM f xs = Ok ys \<longleftrightarrow> list_all2 (\<lambda>x y. f x = Ok y) xs ys"
  by (induction xs arbitrary: ys) (auto simp: ok_bind_eq_Ok list_all2_Cons1)

text \<open>State passing: an error or a panic stops the sequence and keeps the state reached.\<close>

type_synonym ('s, 'a) go = "'s \<Rightarrow> 'a outcome \<times> 's"

definition go_return :: "'a \<Rightarrow> ('s, 'a) go" where
  "go_return a s = (Ok a, s)"

definition go_fail :: "error \<Rightarrow> ('s, 'a) go" where
  "go_fail e s = (Err e, s)"

definition go_panic :: "string \<Rightarrow> ('s, 'a) go" where
  "go_panic p s = (Panic p, s)"

definition go_lift :: "'a outcome \<Rightarrow> ('s, 'a) go" where
  "go_lift r s = (r, s)"

definition go_bind :: "('s, 'a) go \<Rightarrow> ('a \<Rightarrow> ('s, 'b) go) \<Rightarrow> ('s, 'b) go" where
  "go_bind m f s =
     (case m s of
        (Ok a, s') \<Rightarrow> f a s'
      | (Err e, s') \<Rightarrow> (Err e, s')
      | (Panic p, s') \<Rightarrow> (Panic p, s'))"

text \<open>\<open>go_try m f\<close>: the caller looks at the error value itself (\<open>if err != nil \<dots>\<close>); a panic
  still unwinds.\<close>

definition go_try :: "('s, 'a) go \<Rightarrow> (error + 'a \<Rightarrow> ('s, 'b) go) \<Rightarrow> ('s, 'b) go" where
  "go_try m f s =
     (case m s of
        (Ok a, s') \<Rightarrow> f (Inr a) s'
      | (Err e, s') \<Rightarrow> f (Inl e) s'
      | (Panic p, s') \<Rightarrow> (Panic p, s'))"

definition go_map_err :: "(error \<Rightarrow> error) \<Rightarrow> ('s, 'a) go \<Rightarrow> ('s, 'a) go" where
  "go_map_err f m s = (case m s of (r, s') \<Rightarrow> (map_err f r, s'))"

lemmas go_prim_defs = go_return_def go_fail_def go_panic_def go_lift_def

declare go_prim_defs [simp, go_simps]

lemma go_bind_simps [simp, go_simps]:
  "m s = (Ok a, s') \<Longrightarrow> go_bind m f s = f a s'"
  "m s = (Err e, s') \<Longrightarrow> go_bind m f s = (Err e, s')"
  "m s = (Panic p, s') \<Longrightarrow> go_bind m f s = (Panic p, s')"
  by (simp_all add: go_bind_def)

lemma go_try_simps [simp, go_simps]:
  "m s = (Ok a, s') \<Longrightarrow> go_try m f s = f (Inr a) s'"
  "m s = (Err e, s') \<Longrightarrow> go_try m f s = f (Inl e) s'"
  "m s = (Panic p, s') \<Longrightarrow> go_try m f s = (Panic p, s')"
  by (simp_all add: go_try_def)

lemma go_map_err_simps [simp, go_simps]:
  "m s = (Ok a, s') \<Longrightarrow> go_map_err f m s = (Ok a, s')"
  "m s = (Err e, s') \<Longrightarrow> go_map_err f m s = (Err (f e), s')"
  "m s = (Panic p, s') \<Longrightarrow> go_map_err f m s = (Panic p, s')"
  by (simp_all add: go_map_err_def)

lemma go_try_OkE:
  assumes "go_try m f s = (Ok b, t)"
  obtains a s' where "m s = (Ok a, s')" and "f (Inr a) s' = (Ok b, t)"
  | e s' where "m s = (Err e, s')" and "f (Inl e) s' = (Ok b, t)"
  using assms by (auto simp: go_try_def split: prod.splits outcome.splits)

lemma go_bind_OkE:
  assumes "go_bind m f s = (Ok b, t)"
  obtains a s' where "m s = (Ok a, s')" and "f a s' = (Ok b, t)"
  using assms by (auto simp: go_bind_def split: prod.splits outcome.splits)

lemma go_bind_Ok_iff: "go_bind m f s = (Ok b, t) \<longleftrightarrow> (\<exists>a s'. m s = (Ok a, s') \<and> f a s' = (Ok b, t))"
  by (auto simp: go_bind_def split: prod.splits outcome.splits)

lemma go_bind_return [simp]: "go_bind (go_return a) f = f a"
  by (rule ext) simp

lemma go_bind_assoc: "go_bind (go_bind m f) g = go_bind m (\<lambda>a. go_bind (f a) g)"
  by (rule ext) (simp add: go_bind_def split: prod.splits outcome.splits)

section \<open>Slices and maps\<close>

text \<open>\<open>xs[i]\<close>: the run-time check of Go.\<close>

definition go_index :: "'a list \<Rightarrow> nat \<Rightarrow> 'a outcome" where
  "go_index xs i = (if i < length xs then Ok (xs ! i) else Panic ''index out of range'')"

text \<open>\<open>xs[i]\<close> for a signed index.\<close>

definition go_index_int :: "'a list \<Rightarrow> int \<Rightarrow> 'a outcome" where
  "go_index_int xs i =
     (if 0 \<le> i \<and> i < int (length xs) then Ok (xs ! nat i) else Panic ''index out of range'')"

lemma go_index_Ok [simp]: "i < length xs \<Longrightarrow> go_index xs i = Ok (xs ! i)"
  by (simp add: go_index_def)

lemma go_index_int_Ok [simp]: "0 \<le> i \<Longrightarrow> i < int (length xs) \<Longrightarrow> go_index_int xs i = Ok (xs ! nat i)"
  by (simp add: go_index_int_def)

text \<open>
  A Go map is an association list with one entry per key: \<open>m[k] = v\<close> replaces the entry or adds
  one, a missing key reads as the zero value, and \<open>range m\<close> visits the entries in an order the
  language does not fix (the order of the list stands for the order the runtime picks).
\<close>

fun map_put :: "'k \<Rightarrow> 'v \<Rightarrow> ('k \<times> 'v) list \<Rightarrow> ('k \<times> 'v) list" where
  "map_put k v [] = [(k, v)]"
| "map_put k v ((k', v') # m) = (if k' = k then (k, v) # m else (k', v') # map_put k v m)"

definition map_get :: "'v \<Rightarrow> ('k \<times> 'v) list \<Rightarrow> 'k \<Rightarrow> 'v" where
  "map_get z m k = (case map_of m k of None \<Rightarrow> z | Some v \<Rightarrow> v)"

definition map_has :: "('k \<times> 'v) list \<Rightarrow> 'k \<Rightarrow> bool" where
  "map_has m k = (map_of m k \<noteq> None)"

lemma map_of_put [simp]: "map_of (map_put k v m) = (map_of m)(k \<mapsto> v)"
  by (induction m) (auto simp: fun_eq_iff)

lemma dom_map_put: "fst ` set (map_put k v m) = insert k (fst ` set m)"
  by (induction k v m rule: map_put.induct) (auto simp: image_iff)

lemma distinct_map_put: "distinct (map fst m) \<Longrightarrow> distinct (map fst (map_put k v m))"
proof (induction k v m rule: map_put.induct)
  case (2 k v k' v' m)
  have "set (map fst (map_put k v m)) = insert k (set (map fst m))"
    using dom_map_put[of k v m] by simp
  with 2 show ?case by auto
qed simp

lemma map_has_put [simp]: "map_has (map_put k v m) k' = (k' = k \<or> map_has m k')"
  by (simp add: map_has_def)

lemma map_has_set: "map_has m k = (k \<in> fst ` set m)"
  by (simp add: map_has_def map_of_eq_None_iff)

lemma map_has_Nil [simp]: "\<not> map_has [] k"
  by (simp add: map_has_def)

section \<open>Package sort\<close>

text \<open>
  \<open>sort.Slice\<close> and \<open>sort.Sort\<close> with a \<open>less\<close> function: the insertion sort Go runs on
  short slices.  The library promises a sorted permutation only; the locale below is what the
  callers use of a three-way comparison, and its lemmas do not look at the order among elements
  that compare equal.
\<close>

fun go_insert :: "('a \<Rightarrow> 'a \<Rightarrow> bool) \<Rightarrow> 'a \<Rightarrow> 'a list \<Rightarrow> 'a list" where
  "go_insert lt x [] = [x]"
| "go_insert lt x (y # ys) = (if lt x y then x # y # ys else y # go_insert lt x ys)"

definition sort_slice :: "('a \<Rightarrow> 'a \<Rightarrow> bool) \<Rightarrow> 'a list \<Rightarrow> 'a list" where
  "sort_slice lt xs = foldl (\<lambda>acc x. go_insert lt x acc) [] xs"

lemma mset_go_insert [simp]: "mset (go_insert lt x ys) = add_mset x (mset ys)"
  by (induction ys) auto

lemma mset_sort_slice [simp]: "mset (sort_slice lt xs) = mset xs"
proof -
  have "mset (foldl (\<lambda>acc x. go_insert lt x acc) acc xs) = mset acc + mset xs" for acc
    by (induction xs arbitrary: acc) auto
  then show ?thesis by (simp add: sort_slice_def)
qed

lemma set_sort_slice [simp]: "set (sort_slice lt xs) = set xs"
  using mset_sort_slice by (metis set_mset_mset)

lemma length_sort_slice [simp]: "length (sort_slice lt xs) = length xs"
  using mset_sort_slice by (metis size_mset)

lemma sort_slice_Nil_iff [simp]: "sort_slice lt xs = [] \<longleftrightarrow> xs = []"
  by (metis length_0_conv length_sort_slice)

locale three_way =
  fixes cmp :: "'a \<Rightarrow> 'a \<Rightarrow> int"
  assumes cmp_range: "cmp x y = -1 \<or> cmp x y = 0 \<or> cmp x y = 1"
    and cmp_swap: "cmp y x = - cmp x y"
    and cmp_le_trans: "cmp x y \<le> 0 \<Longrightarrow> cmp y z \<le> 0 \<Longrightarrow> cmp x z \<le> 0"
begin

lemma cmp_refl: "cmp x x = 0"
  using cmp_swap[of x x] by simp

lemma cmp_lt_iff: "cmp x y = -1 \<longleftrightarrow> \<not> cmp y x \<le> 0"
  using cmp_range[of x y] cmp_swap[of x y] by auto

lemma cmp_total: "cmp x y \<le> 0 \<or> cmp y x \<le> 0"
  using cmp_swap[of x y] by auto

lemma cmp_eq_sym: "cmp x y = 0 \<longleftrightarrow> cmp y x = 0"
  using cmp_swap[of x y] by auto

lemma cmp_eq_trans: "cmp x y = 0 \<Longrightarrow> cmp y z = 0 \<Longrightarrow> cmp x z = 0"
  using cmp_le_trans[of x y z] cmp_le_trans[of z y x] cmp_swap[of x y] cmp_swap[of y z]
    cmp_swap[of x z] by auto

lemma sorted_go_insert:
  "sorted_wrt (\<lambda>x y. cmp x y \<le> 0) ys \<Longrightarrow>
   sorted_wrt (\<lambda>x y. cmp x y \<le> 0) (go_insert (\<lambda>x y. cmp x y = -1) x ys)"
proof (induction ys)
  case (Cons y ys)
  have *: "set (go_insert (\<lambda>x y. cmp x y = -1) x ys) = insert x (set ys)"
    using mset_go_insert[of "\<lambda>x y. cmp x y = -1" x ys] by (metis set_mset_add_mset_insert set_mset_mset)
  show ?case
  proof (cases "cmp x y = -1")
    case True
    then have "cmp x y \<le> 0" by simp
    with Cons True cmp_le_trans[of x y] show ?thesis by auto
  next
    case False
    then have "cmp y x \<le> 0" using cmp_lt_iff by blast
    with Cons False * show ?thesis by auto
  qed
qed simp

lemma sorted_sort_slice: "sorted_wrt (\<lambda>x y. cmp x y \<le> 0) (sort_slice (\<lambda>x y. cmp x y = -1) xs)"
proof -
  have "sorted_wrt (\<lambda>x y. cmp x y \<le> 0) acc \<Longrightarrow>
    sorted_wrt (\<lambda>x y. cmp x y \<le> 0) (foldl (\<lambda>acc x. go_insert (\<lambda>x y. cmp x y = -1) x acc) acc xs)" for acc
    by (induction xs arbitrary: acc) (auto intro: sorted_go_insert)
  then show ?thesis by (simp add: sort_slice_def)
qed

lemma sort_slice_hd_min:
  assumes "x \<in> set xs"
  shows "cmp (sort_slice (\<lambda>x y. cmp x y = -1) xs ! 0) x \<le> 0"
proof -
  let ?ys = "sort_slice (\<lambda>x y. cmp x y = -1) xs"
  from assms obtain i where i: "i < length ?ys" "?ys ! i = x"
    by (metis in_set_conv_nth set_sort_slice)
  show ?thesis
  proof (cases "i = 0")
    case False
    then show ?thesis using sorted_wrt_nth_less[OF sorted_sort_slice, of 0 i xs] i by simp
  qed (use i in \<open>simp add: cmp_refl\<close>)
qed

lemma sort_slice_last_max:
  assumes "x \<in> set xs"
  shows "cmp x (sort_slice (\<lambda>x y. cmp x y = -1) xs ! (length xs - 1)) \<le> 0"
proof -
  let ?ys = "sort_slice (\<lambda>x y. cmp x y = -1) xs"
  from assms obtain i where i: "i < length xs" "?ys ! i = x"
    by (metis in_set_conv_nth set_sort_slice length_sort_slice)
  show ?thesis
  proof (cases "i = length xs - 1")
    case False
    with i have "i < length xs - 1" by simp
    then show ?thesis using sorted_wrt_nth_less[OF sorted_sort_slice, of i "length xs - 1" xs] i by simp
  qed (use i in \<open>simp add: cmp_refl\<close>)
qed

end

text \<open>Comparisons by a key, and one after the other, are three-way comparisons again.\<close>

definition key_cmp :: "('a \<Rightarrow> 'k :: linorder) \<Rightarrow> 'a \<Rightarrow> 'a \<Rightarrow> int" where
  "key_cmp k x y = (if k x = k y then 0 else if k x > k y then 1 else -1)"

definition lex_cmp :: "('a \<Rightarrow> 'a \<Rightarrow> int) \<Rightarrow> ('a \<Rightarrow> 'a \<Rightarrow> int) \<Rightarrow> 'a \<Rightarrow> 'a \<Rightarrow> int" where
  "lex_cmp f g x y = (if f x y = 0 then g x y else f x y)"

lemma three_way_key: "three_way (key_cmp k)"
  by unfold_locales (auto simp: key_cmp_def split: if_splits)

lemma three_way_lex:
  assumes f: "three_way f" and g: "three_way g"
  shows "three_way (lex_cmp f g)"
proof
  show "lex_cmp f g x y = -1 \<or> lex_cmp f g x y = 0 \<or> lex_cmp f g x y = 1" for x y
    using three_way.cmp_range[OF f, of x y] three_way.cmp_range[OF g, of x y]
    by (auto simp: lex_cmp_def)
  show "lex_cmp f g y x = - lex_cmp f g x y" for x y
    using three_way.cmp_swap[OF f, of x y] three_way.cmp_swap[OF g, of x y]
    by (auto simp: lex_cmp_def)
  show "lex_cmp f g x z \<le> 0" if xy: "lex_cmp f g x y \<le> 0" and yz: "lex_cmp f g y z \<le> 0" for x y z
  proof -
    from xy yz have fxy: "f x y \<le> 0" and fyz: "f y z \<le> 0"
      by (auto simp: lex_cmp_def split: if_splits)
    then have fxz: "f x z \<le> 0" by (rule three_way.cmp_le_trans[OF f])
    show ?thesis
    proof (cases "f x z = 0")
      case True
      then have "f z x \<le> 0" using three_way.cmp_swap[OF f, of x z] by simp
      then have "f y x \<le> 0" "f z y \<le> 0"
        using fxy fyz three_way.cmp_le_trans[OF f, of y z x] three_way.cmp_le_trans[OF f, of z x y]
        by auto
      then have "f x y = 0" "f y z = 0"
        using fxy fyz three_way.cmp_swap[OF f, of x y] three_way.cmp_swap[OF f, of y z] by auto
      with xy yz True three_way.cmp_le_trans[OF g, of x y z] show ?thesis
        by (simp add: lex_cmp_def)
    next
      case False
      with fxz show ?thesis by (simp add: lex_cmp_def)
    qed
  qed
qed

lemma three_way_map: "three_way f \<Longrightarrow> three_way (\<lambda>x y. f (h x) (h y))"
  unfolding three_way_def by blast

lemma three_way_swap: "three_way f \<Longrightarrow> three_way (\<lambda>x y. f y x)"
  unfolding three_way_def by blast

lemma map_put_fresh: "k \<notin> fst ` set m \<Longrightarrow> map_put k v m = m @ [(k, v)]"
  by (induction k v m rule: map_put.induct) auto

section \<open>Package strings\<close>

fun strip_prefix :: "string \<Rightarrow> string \<Rightarrow> string option" where
  "strip_prefix [] s = Some s"
| "strip_prefix (c # cs) [] = None"
| "strip_prefix (c # cs) (d # ds) = (if c = d then strip_prefix cs ds else None)"

lemma strip_prefix_Some: "strip_prefix p s = Some r \<longleftrightarrow> s = p @ r"
  by (induction p s rule: strip_prefix.induct) auto

definition HasPrefix :: "string \<Rightarrow> string \<Rightarrow> bool" where
  "HasPrefix s p = (strip_prefix p s \<noteq> None)"

definition TrimPrefix :: "string \<Rightarrow> string \<Rightarrow> string" where
  "TrimPrefix s p = (case strip_prefix p s of None \<Rightarrow> s | Some r \<Rightarrow> r)"

definition TrimSuffix :: "string \<Rightarrow> string \<Rightarrow> string" where
  "TrimSuffix s p = rev (TrimPrefix (rev s) (rev p))"

text \<open>\<open>Cut sep s\<close>: the parts before and after the first occurrence of \<open>sep\<close>.\<close>

fun Cut :: "string \<Rightarrow> string \<Rightarrow> (string \<times> string) option" where
  "Cut sep [] = (if sep = [] then Some ([], []) else None)"
| "Cut sep (c # s) =
     (case strip_prefix sep (c # s) of
        Some r \<Rightarrow> Some ([], r)
      | None \<Rightarrow> (case Cut sep s of None \<Rightarrow> None | Some (a, b) \<Rightarrow> Some (c # a, b)))"

definition Contains :: "string \<Rightarrow> string \<Rightarrow> bool" where
  "Contains s sub = (Cut sub s \<noteq> None)"

definition Index :: "string \<Rightarrow> string \<Rightarrow> nat option" where
  "Index s sub = map_option (\<lambda>(a, b). length a) (Cut sub s)"

text \<open>\<open>CutLast sep s\<close>: the parts around the last occurrence of a separator, that is
  \<open>s[:i]\<close> and \<open>s[i+len(sep):]\<close> for \<open>i = strings.LastIndex(s, sep)\<close>.\<close>

definition CutLast :: "string \<Rightarrow> string \<Rightarrow> (string \<times> string) option" where
  "CutLast sep s = map_option (\<lambda>(a, b). (rev b, rev a)) (Cut (rev sep) (rev s))"

lemma Cut_Some: "Cut sep s = Some (a, b) \<Longrightarrow> s = a @ sep @ b"
  by (induction sep s arbitrary: a b rule: Cut.induct)
     (auto simp: strip_prefix_Some split: option.splits if_splits)

lemma Cut_length: "Cut sep s = Some (a, b) \<Longrightarrow> length s = length a + length sep + length b"
  by (drule Cut_Some) simp

lemma CutLast_Some: "CutLast sep s = Some (a, b) \<Longrightarrow> s = a @ sep @ b"
  by (auto simp: CutLast_def dest!: Cut_Some) (metis append.assoc rev_append rev_rev_ident)

function Split :: "string \<Rightarrow> string \<Rightarrow> string list" where
  "Split s sep =
     (if sep = [] then map (\<lambda>c. [c]) s
      else case Cut sep s of
             None \<Rightarrow> [s]
           | Some (a, b) \<Rightarrow> a # Split b sep)"
  by pat_completeness auto
termination
  by (relation "measure (\<lambda>(s, sep). length s)") (auto dest!: Cut_length)

declare Split.simps [simp del]

fun SplitN :: "string \<Rightarrow> string \<Rightarrow> nat \<Rightarrow> string list" where
  "SplitN s sep 0 = []"
| "SplitN s sep (Suc 0) = [s]"
| "SplitN s sep (Suc (Suc n)) =
     (case Cut sep s of None \<Rightarrow> [s] | Some (a, b) \<Rightarrow> a # SplitN b sep (Suc n))"

fun Join :: "string list \<Rightarrow> string \<Rightarrow> string" where
  "Join [] sep = []"
| "Join [x] sep = x"
| "Join (x # y # xs) sep = x @ sep @ Join (y # xs) sep"

text \<open>\<open>strings.Replace(s, old, new, -1)\<close> and \<open>strings.Replace(s, old, new, 1)\<close> for a
  non-empty \<open>old\<close>.\<close>

definition ReplaceAll :: "string \<Rightarrow> string \<Rightarrow> string \<Rightarrow> string" where
  "ReplaceAll s old new = Join (Split s old) new"

definition Replace1 :: "string \<Rightarrow> string \<Rightarrow> string \<Rightarrow> string" where
  "Replace1 s old new = (case Cut old s of None \<Rightarrow> s | Some (a, b) \<Rightarrow> a @ new @ b)"

subsection \<open>Laws of the string functions\<close>

lemma Split_not_Nil [simp]: "sep \<noteq> [] \<Longrightarrow> Split s sep \<noteq> []"
  by (subst Split.simps) (auto split: option.splits)

lemma Join_Cons: "xs \<noteq> [] \<Longrightarrow> Join (x # xs) sep = x @ sep @ Join xs sep"
  by (cases xs) auto

lemma Join_Split: "sep \<noteq> [] \<Longrightarrow> Join (Split s sep) sep = s"
proof (induction s sep rule: Split.induct)
  case (1 s sep)
  show ?case
  proof (cases "Cut sep s")
    case None
    with 1 show ?thesis by (simp add: Split.simps[of s sep])
  next
    case (Some ab)
    then obtain a b where ab: "Cut sep s = Some (a, b)" by (cases ab) auto
    with 1 have "Join (Split b sep) sep = b" by simp
    with ab "1.prems" have "Join (Split s sep) sep = a @ sep @ b"
      by (simp add: Split.simps[of s sep] Join_Cons)
    with Cut_Some[OF ab] show ?thesis by simp
  qed
qed

lemma Cut_char_None: "Cut [c] s = None \<longleftrightarrow> c \<notin> set s"
  by (induction s) (auto split: option.splits)

lemma Cut_char_notin [simp]: "c \<notin> set s \<Longrightarrow> Cut [c] s = None"
  by (simp add: Cut_char_None)

lemma Cut_char: "c \<notin> set a \<Longrightarrow> Cut [c] (a @ c # b) = Some (a, b)"
  by (induction a) auto

lemma CutLast_char: "c \<notin> set b \<Longrightarrow> CutLast [c] (a @ c # b) = Some (a, b)"
  by (simp add: CutLast_def Cut_char)

lemma Cut_char_Some:
  "Cut [c] s = Some (a, b) \<longleftrightarrow> s = a @ c # b \<and> c \<notin> set a"
proof
  assume "Cut [c] s = Some (a, b)"
  then show "s = a @ c # b \<and> c \<notin> set a"
    by (induction s arbitrary: a b) (auto split: option.splits if_splits)
qed (auto intro: Cut_char)

lemma Contains_char [simp]: "Contains s [c] \<longleftrightarrow> c \<in> set s"
  unfolding Contains_def by (simp add: Cut_char_None)

lemma Contains_append: "Contains (a @ sub @ b) sub"
proof (induction a)
  case Nil
  show ?case
  proof (cases "sub @ b")
    case (Cons d ds)
    then have "strip_prefix sub (d # ds) = Some b" using strip_prefix_Some by metis
    with Cons show ?thesis by (simp add: Contains_def)
  qed (simp add: Contains_def)
next
  case (Cons c a)
  then show ?case
    by (auto simp: Contains_def split: option.splits)
qed

lemma Contains_iff: "Contains s sub \<longleftrightarrow> (\<exists>a b. s = a @ sub @ b)"
proof
  assume "Contains s sub"
  then obtain a b where "Cut sub s = Some (a, b)" by (auto simp: Contains_def)
  then have "s = a @ sub @ b" by (rule Cut_Some)
  then show "\<exists>a b. s = a @ sub @ b" by blast
next
  assume "\<exists>a b. s = a @ sub @ b"
  then show "Contains s sub" using Contains_append by blast
qed

lemma Split_char_notin: "c \<notin> set s \<Longrightarrow> Split s [c] = [s]"
  by (subst Split.simps) simp

lemma Split_char_append: "c \<notin> set a \<Longrightarrow> Split (a @ c # b) [c] = a # Split b [c]"
  by (subst Split.simps) (simp add: Cut_char)

lemma Split_Join_char:
  assumes "xs \<noteq> []" and "\<forall>x \<in> set xs. c \<notin> set x"
  shows "Split (Join xs [c]) [c] = xs"
  using assms by (induction xs "[c]" rule: Join.induct) (auto simp: Split_char_notin Split_char_append)

lemma Split_char_pieces: "x \<in> set (Split s [c]) \<Longrightarrow> c \<notin> set x"
proof (induction s "[c]" arbitrary: x rule: Split.induct)
  case (1 s)
  show ?case
  proof (cases "Cut [c] s")
    case None
    with "1.prems" show ?thesis by (simp add: Split.simps[of s] Cut_char_None)
  next
    case (Some ab)
    then obtain a b where ab: "Cut [c] s = Some (a, b)" by (cases ab) auto
    with "1.prems" have "x = a \<or> x \<in> set (Split b [c])" by (simp add: Split.simps[of s])
    with ab 1(1)[of "(a, b)" a b x] show ?thesis by (auto simp: Cut_char_Some)
  qed
qed

lemma HasPrefix_append [simp]: "HasPrefix (p @ s) p"
  by (simp add: HasPrefix_def strip_prefix_Some)

lemma HasPrefix_iff: "HasPrefix s p \<longleftrightarrow> (\<exists>r. s = p @ r)"
  by (auto simp: HasPrefix_def strip_prefix_Some)

lemma TrimPrefix_append [simp]: "TrimPrefix (p @ s) p = s"
proof -
  have "strip_prefix p (p @ s) = Some s" by (simp add: strip_prefix_Some)
  then show ?thesis by (simp add: TrimPrefix_def)
qed

section \<open>Package strconv\<close>

definition digit_char :: "nat \<Rightarrow> char" where
  "digit_char d = ''0123456789'' ! d"

definition is_digit :: "char \<Rightarrow> bool" where
  "is_digit c = (48 \<le> (of_char c :: nat) \<and> (of_char c :: nat) \<le> 57)"

definition digit_val :: "char \<Rightarrow> nat" where
  "digit_val c = of_char c - 48"

fun Itoa :: "nat \<Rightarrow> string" where
  "Itoa n = (if n < 10 then [digit_char n] else Itoa (n div 10) @ [digit_char (n mod 10)])"

declare Itoa.simps [simp del]

definition digits_val :: "string \<Rightarrow> nat" where
  "digits_val s = foldl (\<lambda>a c. 10 * a + digit_val c) 0 s"

lemma digit_char_inverse:
  assumes "d < 10"
  shows "digit_val (digit_char d) = d" and "is_digit (digit_char d)"
proof -
  from assms have "d \<in> {0, 1, 2, 3, 4, 5, 6, 7, 8, 9}" by auto
  then show "digit_val (digit_char d) = d" and "is_digit (digit_char d)"
    by (auto simp: digit_val_def digit_char_def is_digit_def)
qed

lemma digits_val_Itoa [simp]: "digits_val (Itoa n) = n"
proof (induction n rule: Itoa.induct)
  case (1 n)
  show ?case
  proof (cases "n < 10")
    case True
    then show ?thesis by (simp add: Itoa.simps[of n] digits_val_def digit_char_inverse)
  next
    case False
    with 1 have "digits_val (Itoa (n div 10)) = n div 10" by simp
    with False show ?thesis
      by (simp add: Itoa.simps[of n] digits_val_def digit_char_inverse)
  qed
qed

lemma Itoa_not_Nil [simp]: "Itoa n \<noteq> []"
  by (simp add: Itoa.simps[of n])

lemma Itoa_digits: "c \<in> set (Itoa n) \<Longrightarrow> is_digit c"
proof (induction n rule: Itoa.induct)
  case (1 n)
  then show ?case
    by (cases "n < 10") (auto simp: Itoa.simps[of n] digit_char_inverse)
qed

lemma Itoa_hd: "n > 0 \<Longrightarrow> hd (Itoa n) \<noteq> CHR ''0''"
proof (induction n rule: Itoa.induct)
  case (1 n)
  show ?case
  proof (cases "n < 10")
    case True
    have "digit_char n \<noteq> CHR ''0''"
    proof
      assume "digit_char n = CHR ''0''"
      then have "digit_val (digit_char n) = 0" by (simp add: digit_val_def)
      with True digit_char_inverse(1)[OF True] 1 show False by simp
    qed
    with True show ?thesis by (simp add: Itoa.simps[of n])
  next
    case False
    with 1 show ?thesis by (simp add: Itoa.simps[of n])
  qed
qed

lemma Itoa_zero: "Itoa 0 = ''0''"
  by (simp add: Itoa.simps digit_char_def)

lemma Itoa_inj: "Itoa m = Itoa n \<Longrightarrow> m = n"
  by (metis digits_val_Itoa)

section \<open>First occurrences\<close>

lemma strip_prefix_length: "length p \<le> length s \<Longrightarrow> strip_prefix p s = None \<Longrightarrow> strip_prefix p (s @ t) = None"
  by (induction p s rule: strip_prefix.induct) (auto split: if_splits)

lemma strip_prefix_same [simp]: "strip_prefix p (p @ t) = Some t"
  by (induction p) auto

lemma Cut_first:
  assumes "sep \<noteq> []" and "Cut sep (a @ butlast sep) = None"
  shows "Cut sep (a @ sep @ t) = Some (a, t)"
  using assms
proof (induction a)
  case Nil
  then show ?case by (cases sep) auto
next
  case (Cons x a)
  from Cons.prems have "strip_prefix sep (x # a @ butlast sep) = None" "Cut sep (a @ butlast sep) = None"
    by (auto split: option.splits)
  moreover have "x # a @ sep @ t = (x # a @ butlast sep) @ (last sep # t)"
    using Cons.prems(1) by (simp add: append_butlast_last_id)
  moreover have "length sep \<le> length (x # a @ butlast sep)" using Cons.prems(1) by simp
  ultimately have "strip_prefix sep (x # a @ sep @ t) = None"
    by (metis strip_prefix_length)
  with Cons show ?case using \<open>Cut sep (a @ butlast sep) = None\<close> by simp
qed

lemma ReplaceAll_Cut: "old \<noteq> [] \<Longrightarrow> Cut old s = Some (a, r) \<Longrightarrow> ReplaceAll s old new = a @ new @ ReplaceAll r old new"
  unfolding ReplaceAll_def by (subst Split.simps) (simp add: Join_Cons)

lemma ReplaceAll_unchanged: "old \<noteq> [] \<Longrightarrow> Cut old s = None \<Longrightarrow> ReplaceAll s old new = s"
  unfolding ReplaceAll_def by (subst Split.simps) simp

lemma Cut_None_iff: "Cut sep s = None \<longleftrightarrow> \<not> Contains s sep"
  by (cases "Cut sep s") (auto simp: Contains_def)

lemma Contains_infix: "Contains s sep \<Longrightarrow> Contains (a @ s @ b) sep"
  unfolding Contains_iff by (metis append.assoc)

lemma Contains_no_cross:
  assumes "c \<notin> set sep" and "\<not> Contains a sep" and "\<not> Contains b sep"
  shows "\<not> Contains (a @ c # b) sep"
proof
  assume "Contains (a @ c # b) sep"
  then obtain u v where eq: "a @ c # b = u @ sep @ v" by (auto simp: Contains_iff)
  then consider w where "a = u @ w" "w @ c # b = sep @ v" | w where "a @ w = u" "c # b = w @ sep @ v" "w \<noteq> []"
    by (auto simp: append_eq_append_conv2) (metis append.right_neutral append_Nil)+
  then show False
  proof cases
    case 1
    then consider x where "w = sep @ x" | x where "sep = w @ x" "c # b = x @ v" "x \<noteq> []" 
      by (auto simp: append_eq_append_conv2) (metis append.right_neutral)+
    then show False
    proof cases
      case 1
      with \<open>a = u @ w\<close> assms(2) show False by (auto simp: Contains_iff)
    next
      case 2
      then show False using assms(1) by (cases x) auto
    qed
  next
    case 2
    then obtain w' where "b = w' @ sep @ v" by (cases w) auto
    with assms(3) show False by (auto simp: Contains_iff)
  qed
qed

lemma Contains_length: "Contains s sep \<Longrightarrow> length sep \<le> length s"
  by (auto simp: Contains_iff)

text \<open>Cutting \<open>dir/sep...\<close> at a separator without slashes.\<close>

lemma Split_after_slash:
  assumes "c \<notin> set sep" and "sep \<noteq> []" and "\<not> Contains d sep" and "\<not> Contains r sep"
  shows "Split (d @ c # sep @ r) sep = [d @ [c], r]"
proof -
  have "\<not> Contains (butlast sep) sep" using Contains_length[of "butlast sep" sep] assms(2) by (cases sep) auto
  then have "Cut sep ((d @ [c]) @ butlast sep) = None" using Contains_no_cross[OF assms(1,3)] by (simp add: Cut_None_iff)
  from Cut_first[OF assms(2) this, of r] assms(2,4) show ?thesis
    by (simp add: Split.simps[of "d @ c # sep @ r" sep] Split.simps[of r sep] Cut_None_iff[symmetric])
qed

lemma Join_snoc: "xs \<noteq> [] \<Longrightarrow> Join (xs @ [y]) sep = Join xs sep @ sep @ y"
proof (induction xs)
  case (Cons x xs)
  then show ?case by (cases "xs = []") (simp_all add: Join_Cons)
qed simp

lemma Replace1_prefix: "old \<noteq> [] \<Longrightarrow> Replace1 (old @ s) old new = new @ s"
proof -
  assume "old \<noteq> []"
  moreover have "strip_prefix old (old @ s) = Some s" by (simp add: strip_prefix_Some)
  ultimately have "Cut old (old @ s) = Some ([], s)" by (cases old) auto
  then show ?thesis by (simp add: Replace1_def)
qed

end
