(* ===== verification/Go_FS.thy ===== *)
theory Go_FS
  imports Go_Prelude "HOL-Library.Sublist"
begin

text \<open>
  The file system behind packages \<open>os\<close> and \<open>path/filepath\<close>.

  A path is the list of its components after cleaning; the first component of an absolute path is
  \<open>/\<close>.  The file system is a list of nodes by path together with \<open>fs_fault\<close>, the failures the
  operating system may raise (permissions, a full disk) for an operation at a path.  The operations are
  those the program calls: \<open>Stat\<close>, \<open>MkdirAll\<close>, \<open>ReadFile\<close>, \<open>WriteFile\<close>,
  \<open>Create\<close>, \<open>ReadDir\<close>, \<open>RemoveAll\<close>, \<open>Walk\<close>.  There are no symbolic links.

  The locale \<open>dir_cache\<close> states what the collectors rely on when they use directories as a cache
  of the images already copied: a created key is present, and present keys stay.  The loop
  \<open>collect\<close>, which every collector runs in some form, is proved once from these laws: it emits at
  most one item for every key, only for keys that were absent, and nothing on a second run.  The
  interpretation \<open>fsc\<close> discharges the laws for \<open>Stat\<close> and \<open>MkdirAll\<close>.
\<close>

section \<open>Paths\<close>

type_synonym path = "string list"

definition up_path :: "path \<Rightarrow> path" where
  "up_path p =
     (if p = [] \<or> last p = ''..'' then p @ [''..'']
      else if p = [''/''] then p
      else butlast p)"

definition add_component :: "path \<Rightarrow> string \<Rightarrow> path" where
  "add_component p c = (if c = [] \<or> c = ''.'' then p else if c = ''..'' then up_path p else p @ [c])"

definition path_of :: "string \<Rightarrow> path" where
  "path_of s = foldl add_component (if HasPrefix s ''/'' then [''/''] else []) (Split s ''/'')"

text \<open>\<open>filepath.Clean\<close>, \<open>filepath.Dir\<close> and \<open>filepath.Base\<close> on a cleaned path.\<close>

definition path_str :: "path \<Rightarrow> string" where
  "path_str p =
     (case p of
        [] \<Rightarrow> ''.''
      | c # cs \<Rightarrow> if c = ''/'' then c @ Join cs ''/'' else Join p ''/'')"

definition dir_of :: "path \<Rightarrow> string" where
  "dir_of p = path_str (if p = [''/''] then p else butlast p)"

definition base_of :: "path \<Rightarrow> string" where
  "base_of p = (if p = [] then ''.'' else last p)"

definition is_root :: "path \<Rightarrow> bool" where
  "is_root p = (p = [] \<or> p = [''/''])"

section \<open>Nodes\<close>

datatype fnode = Dir | File string

datatype fault = EACCES | EIO | ENOSPC | EROFS

record fs =
  fs_nodes :: "(path \<times> fnode) list"
  fs_fault :: "string \<Rightarrow> path \<Rightarrow> fault option"

definition fault_error :: "fault \<Rightarrow> path \<Rightarrow> error" where
  "fault_error f p =
     errorf (case f of EACCES \<Rightarrow> ''permission denied'' | EIO \<Rightarrow> ''input/output error''
             | ENOSPC \<Rightarrow> ''no space left on device'' | EROFS \<Rightarrow> ''read-only file system'') [path_str p]"

definition not_exist :: "path \<Rightarrow> error" where
  "not_exist p = errorf ''no such file or directory'' [path_str p]"

definition not_dir :: "path \<Rightarrow> error" where
  "not_dir p = errorf ''not a directory'' [path_str p]"

definition is_dir :: "path \<Rightarrow> error" where
  "is_dir p = errorf ''is a directory'' [path_str p]"

text \<open>\<open>errors.Is(err, os.ErrNotExist)\<close>\<close>

definition IsNotExist :: "error \<Rightarrow> bool" where
  "IsNotExist e = (err_format e = ''no such file or directory'')"

lemma IsNotExist_simps [simp]:
  "IsNotExist (not_exist p)" "\<not> IsNotExist (not_dir p)" "\<not> IsNotExist (is_dir p)" "\<not> IsNotExist (fault_error f p)"
  by (simp_all add: IsNotExist_def not_exist_def not_dir_def is_dir_def fault_error_def split: fault.split)

definition node_at :: "fs \<Rightarrow> path \<Rightarrow> fnode option" where
  "node_at s p = (if is_root p then Some Dir else map_of (fs_nodes s) p)"

definition is_file :: "fnode option \<Rightarrow> bool" where
  "is_file n = (case n of Some (File _) \<Rightarrow> True | _ \<Rightarrow> False)"

text \<open>Resolving a path: a component on the way that is a file is an error of its own.\<close>

definition below_file :: "fs \<Rightarrow> path \<Rightarrow> bool" where
  "below_file s p = list_ex (\<lambda>i. is_file (node_at s (take i p))) [0..<length p]"

definition lookup :: "fs \<Rightarrow> path \<Rightarrow> fnode outcome" where
  "lookup s p =
     (if below_file s p then Err (not_dir p)
      else case node_at s p of None \<Rightarrow> Err (not_exist p) | Some n \<Rightarrow> Ok n)"

definition put_node :: "path \<Rightarrow> fnode \<Rightarrow> fs \<Rightarrow> fs" where
  "put_node p n s = s\<lparr>fs_nodes := map_put p n (fs_nodes s)\<rparr>"

lemma node_at_put_node [simp]:
  "node_at (put_node p n s) q = (if is_root q then Some Dir else if q = p then Some n else node_at s q)"
  by (simp add: node_at_def put_node_def)

lemma fs_fault_put_node [simp]: "fs_fault (put_node p n s) = fs_fault s"
  by (simp add: put_node_def)

section \<open>Operations of package os\<close>

definition fs_guard :: "string \<Rightarrow> string \<Rightarrow> (fs \<Rightarrow> path \<Rightarrow> 'a outcome) \<Rightarrow> fs \<Rightarrow> 'a outcome" where
  "fs_guard op name f s =
     (if name = [] then Err (not_exist [])
      else case fs_fault s op (path_of name) of
             Some e \<Rightarrow> Err (fault_error e (path_of name))
           | None \<Rightarrow> f s (path_of name))"

definition Stat :: "string \<Rightarrow> fs \<Rightarrow> fnode outcome" where
  "Stat name = fs_guard ''stat'' name lookup"

text \<open>\<open>if _, err := os.Stat(name); errors.Is(err, os.ErrNotExist)\<close>\<close>

definition absent :: "string \<Rightarrow> fs \<Rightarrow> bool" where
  "absent name s = (case Stat name s of Err e \<Rightarrow> IsNotExist e | _ \<Rightarrow> False)"

definition mkdir_step :: "path \<Rightarrow> fs \<Rightarrow> unit outcome \<times> fs" where
  "mkdir_step p s =
     (case lookup s p of
        Ok Dir \<Rightarrow> (Ok (), s)
      | Ok (File _) \<Rightarrow> (Err (not_dir p), s)
      | Panic m \<Rightarrow> (Panic m, s)
      | Err e \<Rightarrow>
          if IsNotExist e then
            (case fs_fault s ''mkdir'' p of
               Some f \<Rightarrow> (Err (fault_error f p), s)
             | None \<Rightarrow> (Ok (), put_node p Dir s))
          else (Err e, s))"

fun mkdirs :: "path list \<Rightarrow> (fs, unit) go" where
  "mkdirs [] = go_return ()"
| "mkdirs (p # ps) = go_bind (mkdir_step p) (\<lambda>_. mkdirs ps)"

definition prefixes_of :: "path \<Rightarrow> path list" where
  "prefixes_of p = map (\<lambda>i. take i p) [1..<Suc (length p)]"

definition MkdirAll :: "string \<Rightarrow> (fs, unit) go" where
  "MkdirAll name =
     (if name = [] then go_fail (not_exist []) else mkdirs (prefixes_of (path_of name)))"

definition ReadFile :: "string \<Rightarrow> fs \<Rightarrow> string outcome" where
  "ReadFile name = fs_guard ''read'' name (\<lambda>s p.
     ok_bind (lookup s p) (\<lambda>n. case n of File c \<Rightarrow> Ok c | Dir \<Rightarrow> Err (is_dir p)))"

text \<open>Opening a file for writing truncates it and creates it in an existing directory.\<close>

definition can_write :: "fs \<Rightarrow> path \<Rightarrow> unit outcome" where
  "can_write s p =
     (if is_root p then Err (is_dir p)
      else ok_bind (lookup s (butlast p)) (\<lambda>d.
        case d of File _ \<Rightarrow> Err (not_dir p)
        | Dir \<Rightarrow> if node_at s p = Some Dir then Err (is_dir p) else Ok ()))"

definition WriteFile :: "string \<Rightarrow> string \<Rightarrow> (fs, unit) go" where
  "WriteFile name content = (\<lambda>s.
     case fs_guard ''write'' name can_write s of
       Ok _ \<Rightarrow> (Ok (), put_node (path_of name) (File content) s)
     | Err e \<Rightarrow> (Err e, s)
     | Panic m \<Rightarrow> (Panic m, s))"

definition Create :: "string \<Rightarrow> (fs, unit) go" where
  "Create name = WriteFile name []"

definition RemoveAll :: "string \<Rightarrow> (fs, unit) go" where
  "RemoveAll name = (\<lambda>s.
     if name = [] then (Ok (), s)
     else case fs_fault s ''remove'' (path_of name) of
       Some f \<Rightarrow> (Err (fault_error f (path_of name)), s)
     | None \<Rightarrow> (Ok (), s\<lparr>fs_nodes := filter (\<lambda>(p, _). \<not> prefix (path_of name) p) (fs_nodes s)\<rparr>))"

definition children :: "fs \<Rightarrow> path \<Rightarrow> string list" where
  "children s d = sort (remdups (map (last \<circ> fst) (filter (\<lambda>(p, _). p \<noteq> [] \<and> p \<noteq> d \<and> butlast p = d) (fs_nodes s))))"

definition ReadDir :: "string \<Rightarrow> fs \<Rightarrow> string list outcome" where
  "ReadDir name = fs_guard ''readdir'' name (\<lambda>s p.
     ok_bind (lookup s p) (\<lambda>n. case n of File _ \<Rightarrow> Err (not_dir p) | Dir \<Rightarrow> Ok (children s p)))"

section \<open>filepath.Walk\<close>

text \<open>
  The calls \<open>Walk\<close> makes: every node under the root once, in lexical order, a directory before its
  content.  A node whose information cannot be read and a directory whose names cannot be read are
  reported with the error, and what is below them is skipped.  A root that does not exist is reported with the
  error alone.
\<close>

definition walk_fault :: "fs \<Rightarrow> path \<Rightarrow> fault option" where
  "walk_fault s p =
     (case fs_fault s ''stat'' p of
        Some f \<Rightarrow> Some f
      | None \<Rightarrow> if node_at s p = Some Dir then fs_fault s ''readdir'' p else None)"

definition walk_paths :: "path \<Rightarrow> fs \<Rightarrow> path list" where
  "walk_paths root s =
     filter (\<lambda>p. list_all (\<lambda>i. i < length root \<or> walk_fault s (take i p) = None) [0..<length p])
       (sort (remdups (root # map fst (filter (\<lambda>(p, _). prefix root p) (fs_nodes s)))))"

definition walk_calls :: "string \<Rightarrow> fs \<Rightarrow> (path \<times> error option) list" where
  "walk_calls root s =
     (case Stat root s of
        Ok _ \<Rightarrow> map (\<lambda>p. (p, map_option (\<lambda>f. fault_error f p) (walk_fault s p))) (walk_paths (path_of root) s)
      | Err e \<Rightarrow> [(path_of root, Some e)]
      | Panic m \<Rightarrow> [])"

text \<open>The walk itself: the function is called in this order until it returns an error.\<close>

fun walk_with :: "(path \<Rightarrow> error option \<Rightarrow> 'a \<Rightarrow> 'a outcome) \<Rightarrow> (path \<times> error option) list \<Rightarrow> 'a \<Rightarrow> 'a outcome \<times> 'a" where
  "walk_with f [] acc = (Ok acc, acc)"
| "walk_with f ((p, e) # cs) acc =
     (case f p e acc of
        Ok acc' \<Rightarrow> walk_with f cs acc'
      | Err x \<Rightarrow> (Err x, acc)
      | Panic m \<Rightarrow> (Panic m, acc))"

definition Walk :: "string \<Rightarrow> (path \<Rightarrow> error option \<Rightarrow> 'a \<Rightarrow> 'a outcome) \<Rightarrow> 'a \<Rightarrow> fs \<Rightarrow> 'a outcome \<times> 'a" where
  "Walk root f acc s = walk_with f (walk_calls root s) acc"

section \<open>The machine\<close>

text \<open>What a command acts on: the file system, and the rest of the world (network, registries) of an
  arbitrary type.\<close>

record 'w machine =
  mc_fs :: fs
  mc_world :: 'w

definition on_fs :: "(fs, 'a) go \<Rightarrow> ('w machine, 'a) go" where
  "on_fs m s = (case m (mc_fs s) of (r, f) \<Rightarrow> (r, s\<lparr>mc_fs := f\<rparr>))"

definition ask_fs :: "(fs \<Rightarrow> 'a outcome) \<Rightarrow> ('w machine, 'a) go" where
  "ask_fs q s = (q (mc_fs s), s)"

definition on_world :: "('w, 'a) go \<Rightarrow> ('w machine, 'a) go" where
  "on_world m s = (case m (mc_world s) of (r, w) \<Rightarrow> (r, s\<lparr>mc_world := w\<rparr>))"

section \<open>Laws of directory creation\<close>

text \<open>\<open>grows s s'\<close>: \<open>s'\<close> has the nodes of \<open>s\<close>, and besides them only directories.\<close>

definition grows :: "fs \<Rightarrow> fs \<Rightarrow> bool" where
  "grows s s' \<longleftrightarrow>
     fs_fault s' = fs_fault s \<and>
     (\<forall>p. node_at s p \<noteq> None \<longrightarrow> node_at s' p = node_at s p) \<and>
     (\<forall>p. is_file (node_at s' p) \<longrightarrow> is_file (node_at s p))"

lemma node_at_root [simp]: "is_root p \<Longrightarrow> node_at s p = Some Dir"
  by (simp add: node_at_def)

lemma grows_refl [simp]: "grows s s"
  by (simp add: grows_def)

lemma grows_trans: "grows s t \<Longrightarrow> grows t u \<Longrightarrow> grows s u"
  unfolding grows_def by metis

lemma is_file_simps [simp]: "\<not> is_file None" "\<not> is_file (Some Dir)" "is_file (Some (File c))"
  by (simp_all add: is_file_def)

lemma is_fileE:
  assumes "is_file n"
  obtains c where "n = Some (File c)"
  using assms by (auto simp: is_file_def split: option.splits fnode.splits)

lemma grows_is_file:
  assumes "grows s s'"
  shows "is_file (node_at s' p) \<longleftrightarrow> is_file (node_at s p)"
  using assms by (auto simp: grows_def elim!: is_fileE)

lemma grows_below_file: "grows s s' \<Longrightarrow> below_file s' p = below_file s p"
  by (simp add: below_file_def grows_is_file)

lemma grows_put_dir: "node_at s p = None \<Longrightarrow> grows s (put_node p Dir s)"
  by (auto simp: grows_def split: if_splits)

lemma lookup_not_exist:
  "lookup s p = Err e \<Longrightarrow> IsNotExist e \<Longrightarrow> node_at s p = None \<and> \<not> below_file s p"
  by (auto simp: lookup_def split: if_splits option.splits)

lemma mkdir_step_cases:
  assumes "mkdir_step p s = (r, s')"
  shows "s' = s \<or> s' = put_node p Dir s \<and> node_at s p = None \<and> \<not> below_file s p"
    and "r = Ok () \<Longrightarrow> node_at s' p = Some Dir"
proof -
  show "s' = s \<or> s' = put_node p Dir s \<and> node_at s p = None \<and> \<not> below_file s p"
    using assms lookup_not_exist[of s p]
    by (auto simp: mkdir_step_def split: outcome.splits fnode.splits if_splits option.splits)
  show "r = Ok () \<Longrightarrow> node_at s' p = Some Dir"
    using assms by (cases "node_at s p")
      (auto simp: mkdir_step_def lookup_def split: fnode.splits if_splits option.splits)
qed

lemma mkdir_step_grows: "mkdir_step p s = (r, s') \<Longrightarrow> grows s s'"
  using mkdir_step_cases(1)[of p s r s'] grows_put_dir[of s p] by auto

lemma mkdirs_grows: "mkdirs ps s = (r, s') \<Longrightarrow> grows s s'"
proof (induction ps arbitrary: s)
  case (Cons p ps)
  obtain q t where q: "mkdir_step p s = (q, t)" by fastforce
  from Cons.prems q have "s' = t \<or> mkdirs ps t = (r, s')"
    by (cases q) auto
  with Cons.IH mkdir_step_grows[OF q] show ?case by (auto intro: grows_trans)
qed simp

lemma mkdirs_new:
  "mkdirs ps s = (r, s') \<Longrightarrow> node_at s p = None \<Longrightarrow> node_at s' p \<noteq> None \<Longrightarrow> p \<in> set ps"
proof (induction ps arbitrary: s)
  case (Cons q ps)
  obtain a t where a: "mkdir_step q s = (a, t)" by fastforce
  from Cons.prems(1) a have "s' = t \<or> mkdirs ps t = (r, s')" by (cases a) auto
  moreover have "node_at t p = None \<or> p = q"
    using mkdir_step_cases(1)[OF a] Cons.prems(2) by auto
  ultimately show ?case using Cons by auto
qed simp

lemma mkdirs_Ok:
  assumes "mkdirs ps s = (Ok (), s')" and "p \<in> set ps"
  shows "node_at s' p = Some Dir"
  using assms
proof (induction ps arbitrary: s)
  case (Cons q ps)
  from Cons.prems(1) obtain t where t: "mkdir_step q s = (Ok (), t)" and r: "mkdirs ps t = (Ok (), s')"
    by (auto elim!: go_bind_OkE)
  show ?case
  proof (cases "p \<in> set ps")
    case True
    with Cons.IH r show ?thesis by blast
  next
    case False
    with Cons.prems(2) have "node_at t p = Some Dir" using mkdir_step_cases(2)[OF t] by simp
    with mkdirs_grows[OF r] show ?thesis by (simp add: grows_def)
  qed
qed simp

lemma absent_iff:
  "absent name s \<longleftrightarrow>
     name = [] \<or>
     fs_fault s ''stat'' (path_of name) = None \<and> \<not> below_file s (path_of name) \<and> node_at s (path_of name) = None"
  by (simp add: absent_def Stat_def fs_guard_def lookup_def split: option.split)

lemma absent_grows: "grows s s' \<Longrightarrow> absent name s' \<Longrightarrow> absent name s"
  by (auto simp: absent_iff grows_below_file) (auto simp: grows_def)

lemma MkdirAll_grows: "MkdirAll name s = (r, s') \<Longrightarrow> grows s s'"
  by (auto simp: MkdirAll_def mkdirs_grows split: if_splits)

lemma prefixes_of_last: "p = [] \<or> p \<in> set (prefixes_of p)"
  by (cases "p = []") (auto simp: prefixes_of_def Suc_le_eq intro!: image_eqI[of _ _ "length p"])

lemma prefixes_of_prefix: "q \<in> set (prefixes_of p) \<Longrightarrow> prefix q p"
  by (auto simp: prefixes_of_def take_is_prefix)

lemma MkdirAll_Ok:
  assumes "MkdirAll name s = (Ok (), s')"
  shows "name \<noteq> [] \<and> node_at s' (path_of name) = Some Dir"
proof -
  from assms have ne: "name \<noteq> []" and m: "mkdirs (prefixes_of (path_of name)) s = (Ok (), s')"
    by (auto simp: MkdirAll_def split: if_splits)
  show ?thesis
  proof (cases "path_of name = []")
    case True
    with ne show ?thesis by (simp add: node_at_def is_root_def)
  next
    case False
    with ne mkdirs_Ok[OF m] prefixes_of_last show ?thesis by blast
  qed
qed

lemma MkdirAll_new:
  assumes "MkdirAll name s = (r, s')" and "absent other s" and "\<not> absent other s'"
  shows "prefix (path_of other) (path_of name)"
proof -
  have g: "grows s s'" by (rule MkdirAll_grows[OF assms(1)])
  have "node_at s' (path_of other) \<noteq> None" and "node_at s (path_of other) = None"
    using assms(2,3) by (auto simp: absent_iff grows_below_file[OF g]) (use g in \<open>auto simp: grows_def\<close>)
  then show ?thesis
    using assms(1) mkdirs_new prefixes_of_prefix by (auto simp: MkdirAll_def split: if_splits)
qed

section \<open>Directories as a cache\<close>

text \<open>
  The loop of the collectors: for every item whose key is missing, create the key and emit the item.
  Keys are computed per item and may fail.
\<close>

fun collect_new ::
  "('k \<Rightarrow> 's \<Rightarrow> bool) \<Rightarrow> ('k \<Rightarrow> ('s, unit) go) \<Rightarrow> ('a \<Rightarrow> 'k outcome) \<Rightarrow> 'a list \<Rightarrow> ('s, ('k \<times> 'a) list) go" where
  "collect_new missing create key [] = go_return []"
| "collect_new missing create key (x # xs) =
     go_bind (go_lift (key x)) (\<lambda>k s.
       if missing k s then
         go_bind (create k) (\<lambda>_. go_bind (collect_new missing create key xs) (\<lambda>ys. go_return ((k, x) # ys))) s
       else collect_new missing create key xs s)"

lemma collect_new_Cons_Ok:
  assumes "collect_new missing create key (x # xs) s = (Ok ys, s')"
  obtains (skip) k where "key x = Ok k" "\<not> missing k s" "collect_new missing create key xs s = (Ok ys, s')"
  | (emit) k t zs where "key x = Ok k" "missing k s" "create k s = (Ok (), t)" "ys = (k, x) # zs"
      "collect_new missing create key xs t = (Ok zs, s')"
proof -
  from assms obtain k where k: "key x = Ok k" by (cases "key x") auto
  show thesis
  proof (cases "missing k s")
    case True
    with assms k emit show ?thesis by (fastforce elim!: go_bind_OkE)
  next
    case False
    with assms k skip show ?thesis by fastforce
  qed
qed

locale dir_cache =
  fixes missing :: "'k \<Rightarrow> 's \<Rightarrow> bool" and create :: "'k \<Rightarrow> ('s, unit) go"
  assumes create_present: "create k s = (Ok (), s') \<Longrightarrow> \<not> missing k s'"
    and create_keeps: "create k s = (r, s') \<Longrightarrow> \<not> missing j s \<Longrightarrow> \<not> missing j s'"
begin

abbreviation "collect \<equiv> collect_new missing create"

lemma collect_keeps: "collect key xs s = (Ok ys, s') \<Longrightarrow> \<not> missing j s \<Longrightarrow> \<not> missing j s'"
proof (induction xs arbitrary: s ys)
  case (Cons x xs)
  from Cons.prems(1) show ?case
    by (cases rule: collect_new_Cons_Ok) (use Cons create_keeps in blast)+
qed simp

lemma collect_present:
  assumes "collect key xs s = (Ok ys, s')" and "x \<in> set xs"
  shows "\<exists>k. key x = Ok k \<and> \<not> missing k s'"
  using assms
proof (induction xs arbitrary: s ys)
  case (Cons a xs)
  from Cons.prems(1) show ?case
  proof (cases rule: collect_new_Cons_Ok)
    case (skip k)
    with Cons collect_keeps[OF skip(3)] show ?thesis by auto
  next
    case (emit k t zs)
    with Cons collect_keeps[OF emit(5)] create_present[OF emit(3)] show ?thesis by auto
  qed
qed simp

lemma collect_emitted:
  assumes "collect key xs s = (Ok ys, s')" and "(k, x) \<in> set ys"
  shows "x \<in> set xs \<and> key x = Ok k \<and> missing k s \<and> \<not> missing k s'"
  using assms
proof (induction xs arbitrary: s ys)
  case (Cons a xs)
  from Cons.prems(1) show ?case
  proof (cases rule: collect_new_Cons_Ok)
    case (skip k)
    with Cons show ?thesis by auto
  next
    case (emit k' t zs)
    show ?thesis
    proof (cases "(k, x) \<in> set zs")
      case True
      with Cons.IH[OF emit(5)] create_keeps[OF emit(3), of k] show ?thesis by auto
    next
      case False
      with Cons.prems(2) emit have "k = k'" "x = a" by auto
      with emit collect_keeps[OF emit(5)] create_present[OF emit(3)] show ?thesis by auto
    qed
  qed
qed simp

lemma collect_distinct: "collect key xs s = (Ok ys, s') \<Longrightarrow> distinct (map fst ys)"
proof (induction xs arbitrary: s ys)
  case (Cons a xs)
  from Cons.prems show ?case
  proof (cases rule: collect_new_Cons_Ok)
    case (skip k)
    with Cons show ?thesis by auto
  next
    case (emit k t zs)
    have "k \<notin> fst ` set zs" using collect_emitted[OF emit(5)] create_present[OF emit(3)] by auto
    with emit Cons.IH[OF emit(5)] show ?thesis by simp
  qed
qed simp

lemma collect_none:
  assumes "\<And>x. x \<in> set xs \<Longrightarrow> \<exists>k. key x = Ok k \<and> \<not> missing k s"
  shows "collect key xs s = (Ok [], s)"
  using assms by (induction xs) force+

lemma collect_again: "collect key xs s = (Ok ys, s') \<Longrightarrow> collect key xs s' = (Ok [], s')"
  using collect_present collect_none by meson

end

text \<open>When creating a key makes only keys present that it covers, every item is emitted or covered
  by an emitted one.\<close>

locale dir_cache_cover = dir_cache +
  fixes covers :: "'a \<Rightarrow> 'a \<Rightarrow> bool"
  assumes create_covers: "create k s = (r, s') \<Longrightarrow> missing j s \<Longrightarrow> \<not> missing j s' \<Longrightarrow> covers k j"
begin

lemma collect_covered:
  assumes "collect key xs s = (Ok ys, s')" and "x \<in> set xs" and "key x = Ok k" and "missing k s"
  shows "\<exists>j \<in> fst ` set ys. covers j k"
  using assms(1,2,4)
proof (induction xs arbitrary: s ys)
  case (Cons a xs)
  from Cons.prems(1) show ?case
  proof (cases rule: collect_new_Cons_Ok)
    case (skip k')
    with Cons assms(3) show ?thesis by fastforce
  next
    case (emit k' t zs)
    show ?thesis
    proof (cases "missing k t")
      case True
      with Cons emit assms(3) create_present[OF emit(3)] have "x \<in> set xs" by auto
      with Cons.IH[OF emit(5) _ True] emit show ?thesis by auto
    next
      case False
      with create_covers[OF emit(3) Cons.prems(3)] emit show ?thesis by auto
    qed
  qed
qed simp

end

definition path_covers :: "string \<Rightarrow> string \<Rightarrow> bool" where
  "path_covers name other = prefix (path_of other) (path_of name)"

interpretation fsc: dir_cache_cover absent MkdirAll path_covers
proof unfold_locales
  fix k s s'
  assume "MkdirAll k s = (Ok (), s')"
  then show "\<not> absent k s'" using MkdirAll_Ok by (simp add: absent_iff)
next
  fix k j s r s'
  assume "MkdirAll k s = (r, s')" and "\<not> absent j s"
  then show "\<not> absent j s'" using absent_grows MkdirAll_grows by blast
next
  fix k j s r s'
  assume "MkdirAll k s = (r, s')" and "absent j s" and "\<not> absent j s'"
  then show "path_covers k j" unfolding path_covers_def by (rule MkdirAll_new)
qed

section \<open>Laws of files\<close>

lemma below_file_butlast:
  "p \<noteq> [] \<Longrightarrow> below_file s p \<longleftrightarrow> below_file s (butlast p) \<or> is_file (node_at s (butlast p))"
proof -
  assume "p \<noteq> []"
  then have n: "[0..<length p] = [0..<length p - 1] @ [length p - 1]"
    by (metis length_greater_0_conv Suc_pred' upt_Suc_append le0)
  show ?thesis
    unfolding below_file_def n by (auto simp: list_ex_iff take_butlast butlast_conv_take)
qed

lemma below_file_put_node: "below_file (put_node p n s) p = below_file s p"
  unfolding below_file_def by (rule list_ex_cong) (auto dest: arg_cong[of _ _ length])

lemma can_write_Ok:
  assumes "can_write s p = Ok ()"
  shows "\<not> is_root p" and "\<not> below_file s p"
proof -
  show nr: "\<not> is_root p" using assms by (auto simp: can_write_def split: if_splits)
  then have "p \<noteq> []" by (auto simp: is_root_def)
  with nr assms show "\<not> below_file s p"
    by (auto simp: can_write_def lookup_def ok_bind_eq_Ok below_file_butlast is_file_def
        split: if_splits option.splits fnode.splits)
qed

lemma WriteFile_Ok:
  "WriteFile name c s = (Ok (), s') \<Longrightarrow>
   can_write s (path_of name) = Ok () \<and> s' = put_node (path_of name) (File c) s \<and> name \<noteq> []"
  by (auto simp: WriteFile_def fs_guard_def split: outcome.splits if_splits option.splits)

lemma ReadFile_WriteFile:
  assumes "WriteFile name c s = (Ok (), s')" and "fs_fault s ''read'' (path_of name) = None"
  shows "ReadFile name s' = Ok c"
  using WriteFile_Ok[OF assms(1)] assms(2) can_write_Ok[of s "path_of name"]
  by (auto simp: ReadFile_def fs_guard_def lookup_def below_file_put_node)

lemma WriteFile_any_content:
  "fst (WriteFile name c s) = Ok () \<Longrightarrow> WriteFile name d s = (Ok (), put_node (path_of name) (File d) s)"
  by (auto simp: WriteFile_def split: outcome.splits)

lemma lookup_no_panic [simp]: "lookup s p \<noteq> Panic m"
  by (simp add: lookup_def split: option.split)

lemma mkdirs_no_panic: "mkdirs ps s \<noteq> (Panic m, s')"
proof (induction ps arbitrary: s)
  case (Cons p ps)
  then show ?case
    by (auto simp: mkdir_step_def go_bind_def split: outcome.splits fnode.splits option.splits if_splits)
qed (simp add: go_return_def)

lemma MkdirAll_no_panic [simp]: "MkdirAll name s \<noteq> (Panic m, s')"
  by (simp add: MkdirAll_def go_fail_def mkdirs_no_panic)

lemma WriteFile_no_panic [simp]: "WriteFile name c s \<noteq> (Panic m, s')"
proof -
  have "can_write s p \<noteq> Panic m" for p m
    by (cases "lookup s (butlast p)") (auto simp: can_write_def split: fnode.splits)
  then show ?thesis by (auto simp: WriteFile_def fs_guard_def split: outcome.splits option.splits if_splits)
qed

lemma WriteFile_not_absent: "WriteFile name c s = (Ok (), s') \<Longrightarrow> \<not> absent name s'"
  using WriteFile_Ok[of name c s s'] can_write_Ok[of s "path_of name"]
  by (auto simp: absent_iff below_file_put_node)

lemma map_of_filter_keys: "map_of (filter (\<lambda>(k, _). P k) m) k = (if P k then map_of m k else None)"
  by (induction m) auto

lemma RemoveAll_absent:
  assumes "RemoveAll name s = (Ok (), s')" and "\<not> is_root (path_of name)" and "fs_fault s ''stat'' (path_of name) = None"
    and "\<not> below_file s (path_of name)"
  shows "absent name s'"
proof -
  have "node_at s' q = (if is_root q \<or> \<not> prefix (path_of name) q then node_at s q else None)" if "name \<noteq> []" for q
    using assms(1) that
    by (auto simp: RemoveAll_def node_at_def map_of_filter_keys split: option.splits if_splits)
  moreover have "\<not> prefix (path_of name) (take i (path_of name))" if "i < length (path_of name)" for i
    using that by (auto dest: prefix_length_le)
  ultimately show ?thesis
    using assms by (auto simp: absent_iff below_file_def list_ex_iff RemoveAll_def split: option.splits if_splits)
qed

section \<open>Other paths\<close>

lemma Split_char_mid: "Split (a @ c # b) [c] = Split a [c] @ Split b [c]"
proof (induction a "[c]" rule: Split.induct)
  case (1 s)
  show ?case
  proof (cases "Cut [c] s")
    case None
    then show ?thesis by (simp add: Cut_char_None Split_char_append Split_char_notin)
  next
    case (Some ab)
    then obtain x y where xy: "Cut [c] s = Some (x, y)" by (cases ab) auto
    then have s: "s = x @ c # y" "c \<notin> set x" by (auto simp: Cut_char_Some)
    from "1.hyps"[OF _ xy refl] s show ?thesis by (simp add: Split_char_append)
  qed
qed

lemma Split_char_snoc: "c \<notin> set b \<Longrightarrow> Split (a @ c # b) [c] = Split a [c] @ [b]"
  by (simp add: Split_char_mid Split_char_notin)

lemma path_of_snoc:
  assumes "dir \<noteq> []" and "CHR ''/'' \<notin> set name" and "name \<noteq> []" and "name \<noteq> ''.''" and "name \<noteq> ''..''"
  shows "path_of (dir @ ''/'' @ name) = path_of dir @ [name]"
proof -
  have "HasPrefix (dir @ ''/'' @ name) ''/'' = HasPrefix dir ''/''" using assms(1) by (cases dir) (auto simp: HasPrefix_iff)
  then show ?thesis using assms(2-) by (simp add: path_of_def Split_char_snoc add_component_def)
qed

lemma lookup_put_other:
  assumes "\<not> prefix p q"
  shows "lookup (put_node p n s) q = lookup s q"
proof -
  have "r \<noteq> p" if "prefix r q" for r using assms that by auto
  then have n: "node_at (put_node p n s) r = node_at s r" if "prefix r q" for r
    using that by (cases "is_root r") simp_all
  have "below_file (put_node p n s) q = below_file s q" unfolding below_file_def by (simp only: n take_is_prefix)
  with n[of q] show ?thesis by (simp add: lookup_def)
qed

lemma ReadFile_WriteFile_other:
  assumes "WriteFile name c s = (Ok (), s')" and "\<not> prefix (path_of name) (path_of other)"
  shows "ReadFile other s' = ReadFile other s"
  using WriteFile_Ok[OF assms(1)] lookup_put_other[OF assms(2)] by (simp add: ReadFile_def fs_guard_def split: option.split)

lemma WriteFile_fault: "WriteFile name c s = (r, s') \<Longrightarrow> fs_fault s' = fs_fault s"
  by (auto simp: WriteFile_def split: outcome.splits)


section \<open>Cleaned paths\<close>

text \<open>\<open>filepath.Clean\<close> is idempotent: a cleaned path is a root, leading \<open>..\<close> components when there
  is no root, and then names.\<close>

definition name_ok :: "string \<Rightarrow> bool" where
  "name_ok c = (c \<noteq> [] \<and> c \<noteq> ''.'' \<and> c \<noteq> ''..'' \<and> CHR ''/'' \<notin> set c)"

definition clean_path :: "path \<Rightarrow> bool" where
  "clean_path p = (\<exists>ups names. list_all name_ok names \<and> list_all (\<lambda>c. c = ''..'') ups \<and>
     (p = ups @ names \<or> p = ''/'' # names))"

lemma clean_path_up: "clean_path p \<Longrightarrow> clean_path (up_path p)"
proof -
  assume "clean_path p"
  then obtain ups names where n: "list_all name_ok names" and u: "list_all (\<lambda>c. c = ''..'') ups"
    and p: "p = ups @ names \<or> p = ''/'' # names" by (auto simp: clean_path_def)
  have last: "names \<noteq> [] \<Longrightarrow> last names \<noteq> ''..''" using n by (auto simp: list_all_iff name_ok_def)
  have bl: "list_all name_ok (butlast names)" using n by (auto simp: list_all_iff dest: in_set_butlastD)
  from p show ?thesis
  proof
    assume p: "p = ups @ names"
    show ?thesis
    proof (cases "names = []")
      case True
      have lu: "ups \<noteq> [] \<Longrightarrow> last ups = ''..''" using u by (simp add: list_all_iff)
      then have "up_path p = ups @ [''..'']" using p True by (auto simp: up_path_def)
      with u show ?thesis unfolding clean_path_def by (intro exI[of _ "ups @ [''..'']"] exI[of _ "[]"]) simp
    next
      case False
      then have "p \<noteq> [''/'']" using p n u by (cases ups) (auto simp: name_ok_def)
      then have "up_path p = ups @ butlast names" using p False last by (simp add: up_path_def butlast_append)
      with u bl show ?thesis unfolding clean_path_def by blast
    qed
  next
    assume p: "p = ''/'' # names"
    then have "up_path p = ''/'' # butlast names" using last by (simp add: up_path_def)
    with u bl show ?thesis unfolding clean_path_def by blast
  qed
qed

lemma clean_path_name: "clean_path p \<Longrightarrow> name_ok c \<Longrightarrow> clean_path (p @ [c])"
proof -
  assume "clean_path p" and c: "name_ok c"
  then obtain ups names where "list_all name_ok names" and "list_all (\<lambda>c. c = ''..'') ups"
    and "p = ups @ names \<or> p = ''/'' # names" by (auto simp: clean_path_def)
  with c show ?thesis unfolding clean_path_def by (intro exI[of _ ups] exI[of _ "names @ [c]"]) simp
qed

lemma clean_path_of: "clean_path (path_of s)"
proof -
  have "clean_path (foldl add_component p cs)" if "clean_path p" and "list_all (\<lambda>c. CHR ''/'' \<notin> set c) cs" for p cs
    using that by (induction cs arbitrary: p) (auto simp: add_component_def clean_path_up clean_path_name name_ok_def)
  moreover have "clean_path []" "clean_path [''/'']"
    unfolding clean_path_def by (intro exI[of _ "[]"]; simp)+
  ultimately show ?thesis unfolding path_of_def by (simp add: list_all_iff Split_char_pieces)
qed

lemma foldl_add_names: "list_all name_ok names \<Longrightarrow> foldl add_component p names = p @ names"
  by (induction names arbitrary: p) (auto simp: add_component_def name_ok_def)

lemma foldl_add_ups: "list_all (\<lambda>c. c = ''..'') p \<Longrightarrow> list_all (\<lambda>c. c = ''..'') ups \<Longrightarrow> foldl add_component p ups = p @ ups"
proof (induction ups arbitrary: p)
  case (Cons c ups)
  have "p = [] \<or> last p = ''..''" using Cons.prems(1) by (cases "p = []") (auto simp: list_all_iff)
  then have "add_component p ''..'' = p @ [''..'']" by (simp add: add_component_def up_path_def)
  with Cons show ?case by simp
qed simp

lemma clean_no_slash:
  assumes "list_all name_ok names" and "list_all (\<lambda>c. c = ''..'') ups" and "x \<in> set (ups @ names)"
  shows "CHR ''/'' \<notin> set x" and "x \<noteq> []" and "x \<noteq> ''/''"
proof -
  from assms(3) consider "x \<in> set ups" | "x \<in> set names" by auto
  then have "x = ''..'' \<or> name_ok x" using assms(1,2) by cases (simp_all add: list_all_iff)
  then show "CHR ''/'' \<notin> set x" and "x \<noteq> []" and "x \<noteq> ''/''" by (auto simp: name_ok_def)
qed

lemma path_of_relative:
  assumes n: "list_all name_ok names" and u: "list_all (\<lambda>c. c = ''..'') ups"
  shows "path_of (path_str (ups @ names)) = ups @ names"
proof (cases "ups @ names")
  case Nil
  then show ?thesis by (simp add: path_str_def) code_simp
next
  case (Cons c cs)
  let ?p = "ups @ names"
  note x = clean_no_slash[OF n u]
  have c: "c \<in> set ?p" using Cons by simp
  have "\<not> HasPrefix (Join ?p ''/'') ''/''"
    using x(1,2)[OF c] Cons by (cases c; cases cs) (auto simp: HasPrefix_iff)
  moreover have "Split (Join ?p ''/'') ''/'' = ?p" using x(1) Cons by (intro Split_Join_char) auto
  moreover have "path_str ?p = Join ?p ''/''" using Cons x(3)[OF c] by (simp add: path_str_def)
  ultimately show ?thesis using foldl_add_ups[OF _ u, of "[]"] foldl_add_names[OF n, of ups] by (simp add: path_of_def)
qed

lemma path_of_rooted:
  assumes n: "list_all name_ok names"
  shows "path_of (path_str (''/'' # names)) = ''/'' # names"
proof -
  have x: "CHR ''/'' \<notin> set x" if "x \<in> set names" for x using clean_no_slash(1)[OF n, of "[]" x] that by simp
  have "Split (''/'' @ Join names ''/'') ''/'' = [] # (if names = [] then [[]] else names)"
    using x Split_Join_char[of names "CHR ''/''"] Split_char_append[of "CHR ''/''" "[]" "Join names ''/''"]
    by (cases "names = []") (auto simp: Split_char_notin)
  then show ?thesis using foldl_add_names[OF n, of "[''/'']"]
    by (simp add: path_of_def path_str_def HasPrefix_iff add_component_def)
qed

lemma path_of_path_str_clean: "clean_path p \<Longrightarrow> path_of (path_str p) = p"
  unfolding clean_path_def using path_of_relative path_of_rooted by blast

lemma path_of_clean [simp]: "path_of (path_str (path_of s)) = path_of s"
  by (rule path_of_path_str_clean[OF clean_path_of])

lemma path_str_not_empty [simp]: "path_str (path_of s) \<noteq> []"
proof
  assume e: "path_str (path_of s) = []"
  have "path_of [] = []" by code_simp
  with path_of_clean[of s] e have "path_of s = []" by simp
  with e show False by (simp add: path_str_def)
qed

lemma fs_guard_clean: "name \<noteq> [] \<Longrightarrow> fs_guard op (path_str (path_of name)) f s = fs_guard op name f s"
  by (simp add: fs_guard_def split: option.split)

lemma ReadFile_clean: "name \<noteq> [] \<Longrightarrow> ReadFile (path_str (path_of name)) s = ReadFile name s"
  by (simp add: ReadFile_def fs_guard_clean)

lemma path_str_snoc:
  assumes "p \<noteq> []" and "p \<noteq> [''/'']"
  shows "path_str (p @ [c]) = path_str p @ ''/'' @ c"
proof (cases p)
  case (Cons x xs)
  then show ?thesis using assms Join_snoc[of xs c "''/''"] Join_snoc[of p c "''/''"]
    by (cases "x = ''/''") (auto simp: path_str_def)
qed (use assms in simp)

end
