(* ===== verification/Testutils.thy ===== *)
theory Testutils
  imports Go_FS
begin

text \<open>
  The test helpers: \<open>internal/testutils/testutils.go\<close>.

  \<open>LocalMirrorFromFiles\<close> copies a directory with symbolic links, so this theory has a file system of its
  own, with links and with the resolution of paths through them; \<open>filepath.Walk\<close> is run with the
  changing file system, since its function writes, and its argument \<open>frames\<close> bounds the depth of the
  recursion (a destination below the source makes it endless).  \<open>RegistryFromFiles\<close> is the handler
  with the headers it sets before it hands the request to the file server, and \<open>WriteTestImage\<close> the
  sequence of calls of go-containerregistry; the file server and that library are parameters.
\<close>

section \<open>A file system with links\<close>

datatype lnode = LDir | LFile string | LLink string

record lfs =
  lf_nodes :: "(path \<times> lnode) list"
  lf_fault :: "string \<Rightarrow> path \<Rightarrow> fault option"

definition lnode_at :: "lfs \<Rightarrow> path \<Rightarrow> lnode option" where
  "lnode_at s p = (if is_root p then Some LDir else map_of (lf_nodes s) p)"

definition lput :: "path \<Rightarrow> lnode \<Rightarrow> lfs \<Rightarrow> lfs" where
  "lput p n s = s\<lparr>lf_nodes := map_put p n (lf_nodes s)\<rparr>"

definition too_many_links :: "path \<Rightarrow> error" where
  "too_many_links p = errorf ''too many levels of symbolic links'' [path_str p]"

definition file_exists :: "path \<Rightarrow> error" where
  "file_exists p = errorf ''file exists'' [path_str p]"

definition invalid_argument :: "path \<Rightarrow> error" where
  "invalid_argument p = errorf ''invalid argument'' [path_str p]"

text \<open>The path a name leads to from the directory \<open>d\<close>: links on the way are followed, a link at the end only
  if \<open>follow\<close> says so, at most \<open>n\<close> of them.  The last component need not exist.\<close>

function (sequential) resolve :: "lfs \<Rightarrow> bool \<Rightarrow> nat \<Rightarrow> path \<Rightarrow> string list \<Rightarrow> path outcome" where
  "resolve s follow n d [] = Ok d"
| "resolve s follow n d (c # cs) =
     (if c = [] \<or> c = ''.'' then resolve s follow n d cs
      else if c = ''..'' then resolve s follow n (up_path d) cs
      else case lnode_at s (d @ [c]) of
             None \<Rightarrow> if cs = [] then Ok (d @ [c]) else Err (not_exist (d @ [c]))
           | Some LDir \<Rightarrow> resolve s follow n (d @ [c]) cs
           | Some (LFile _) \<Rightarrow> if cs = [] then Ok (d @ [c]) else Err (not_dir (d @ [c]))
           | Some (LLink t) \<Rightarrow>
               if cs = [] \<and> \<not> follow then Ok (d @ [c])
               else if n = 0 then Err (too_many_links (d @ [c]))
               else resolve s follow (n - 1) (if HasPrefix t ''/'' then [''/''] else d) (Split t ''/'' @ cs))"
  by pat_completeness auto
termination
  by (relation "measures [\<lambda>(s, follow, n, d, cs). n, \<lambda>(s, follow, n, d, cs). length cs]") auto

declare resolve.simps [simp del]

definition locate :: "string \<Rightarrow> bool \<Rightarrow> string \<Rightarrow> lfs \<Rightarrow> path outcome" where
  "locate op follow name s =
     (if name = [] then Err (not_exist [])
      else ok_bind (resolve s follow 40 (if HasPrefix name ''/'' then [''/''] else []) (Split name ''/'')) (\<lambda>p.
        case lf_fault s op p of Some f \<Rightarrow> Err (fault_error f p) | None \<Rightarrow> Ok p))"

definition Lstat :: "string \<Rightarrow> lfs \<Rightarrow> lnode outcome" where
  "Lstat name s = ok_bind (locate ''lstat'' False name s) (\<lambda>p.
     case lnode_at s p of None \<Rightarrow> Err (not_exist p) | Some n \<Rightarrow> Ok n)"

definition Readlink :: "string \<Rightarrow> lfs \<Rightarrow> string outcome" where
  "Readlink name s = ok_bind (locate ''readlink'' False name s) (\<lambda>p.
     case lnode_at s p of None \<Rightarrow> Err (not_exist p) | Some (LLink t) \<Rightarrow> Ok t | Some _ \<Rightarrow> Err (invalid_argument p))"

definition readDirNames :: "string \<Rightarrow> lfs \<Rightarrow> string list outcome" where
  "readDirNames name s = ok_bind (locate ''readdir'' True name s) (\<lambda>p.
     case lnode_at s p of
       None \<Rightarrow> Err (not_exist p)
     | Some LDir \<Rightarrow> Ok (sort (remdups (map (last \<circ> fst) (filter (\<lambda>(q, _). q \<noteq> [] \<and> q \<noteq> p \<and> butlast q = p) (lf_nodes s)))))
     | Some _ \<Rightarrow> Err (not_dir p))"

definition link_ReadFile :: "string \<Rightarrow> lfs \<Rightarrow> string outcome" where
  "link_ReadFile name s = ok_bind (locate ''read'' True name s) (\<lambda>p.
     case lnode_at s p of
       None \<Rightarrow> Err (not_exist p) | Some (LFile c) \<Rightarrow> Ok c | Some LDir \<Rightarrow> Err (is_dir p) | Some (LLink _) \<Rightarrow> Err (too_many_links p))"

definition link_WriteFile :: "string \<Rightarrow> string \<Rightarrow> (lfs, unit) go" where
  "link_WriteFile name content = (\<lambda>s.
     case ok_bind (locate ''write'' True name s) (\<lambda>p. if lnode_at s p = Some LDir then Err (is_dir p) else Ok p) of
       Ok p \<Rightarrow> (Ok (), lput p (LFile content) s)
     | Err e \<Rightarrow> (Err e, s)
     | Panic m \<Rightarrow> (Panic m, s))"

text \<open>\<open>os.Mkdir\<close> and \<open>os.Symlink\<close>.\<close>

definition make_node :: "string \<Rightarrow> lnode \<Rightarrow> string \<Rightarrow> (lfs, unit) go" where
  "make_node op n name = (\<lambda>s.
     case ok_bind (locate op False name s) (\<lambda>p. if lnode_at s p \<noteq> None then Err (file_exists p) else Ok p) of
       Ok p \<Rightarrow> (Ok (), lput p n s)
     | Err e \<Rightarrow> (Err e, s)
     | Panic m \<Rightarrow> (Panic m, s))"

definition Mkdir :: "string \<Rightarrow> (lfs, unit) go" where
  "Mkdir name = make_node ''mkdir'' LDir name"

definition Symlink :: "string \<Rightarrow> string \<Rightarrow> (lfs, unit) go" where
  "Symlink old name = make_node ''symlink'' (LLink old) name"

section \<open>Package path/filepath\<close>

definition filepath_Join :: "string \<Rightarrow> string \<Rightarrow> string" where
  "filepath_Join a b =
     (if a = [] \<and> b = [] then [] else path_str (path_of (if a = [] then b else if b = [] then a else a @ ''/'' @ b)))"

definition filepath_Base :: "string \<Rightarrow> string" where
  "filepath_Base name =
     (if name = [] then ''.''
      else case rev (dropWhile (\<lambda>c. c = CHR ''/'') (rev name)) of
             [] \<Rightarrow> ''/''
           | n \<Rightarrow> last (Split n ''/''))"

text \<open>\<open>filepath.Walk\<close>: the names of a directory are read before the function is called on it.  A path whose
  information cannot be read is reported with none.\<close>

type_synonym walk_fn = "string \<Rightarrow> lnode option \<Rightarrow> error option \<Rightarrow> (lfs, unit) go"

fun walk_names :: "(string \<Rightarrow> lnode \<Rightarrow> (lfs, unit) go) \<Rightarrow> walk_fn \<Rightarrow> string \<Rightarrow> string list \<Rightarrow> (lfs, unit) go" where
  "walk_names walk fn path [] = go_return ()"
| "walk_names walk fn path (name # names) =
     (let filename = filepath_Join path name
      in go_bind (\<lambda>s. case Lstat filename s of
                        Ok info \<Rightarrow> walk filename info s
                      | Err e \<Rightarrow> fn filename None (Some e) s
                      | Panic m \<Rightarrow> (Panic m, s)) (\<lambda>_. walk_names walk fn path names))"

fun walk_dir :: "nat \<Rightarrow> walk_fn \<Rightarrow> string \<Rightarrow> lnode \<Rightarrow> (lfs, unit) go" where
  "walk_dir 0 fn path info = go_panic ''stack overflow''"
| "walk_dir (Suc frames) fn path info =
     (if info \<noteq> LDir then fn path (Some info) None
      else (\<lambda>s. case readDirNames path s of
                  Ok names \<Rightarrow> go_bind (fn path (Some info) None) (\<lambda>_. walk_names (walk_dir frames fn) fn path names) s
                | Err e \<Rightarrow> fn path (Some info) (Some e) s
                | Panic m \<Rightarrow> (Panic m, s)))"

definition link_Walk :: "nat \<Rightarrow> string \<Rightarrow> walk_fn \<Rightarrow> (lfs, unit) go" where
  "link_Walk frames root fn = (\<lambda>s.
     case Lstat root s of
       Ok info \<Rightarrow> walk_dir frames fn root info s
     | Err e \<Rightarrow> fn root None (Some e) s
     | Panic m \<Rightarrow> (Panic m, s))"

section \<open>LocalMirrorFromFiles\<close>

text \<open>The error the walk reports is not looked at; the information is used all the same.\<close>

definition mirror_visit :: "string \<Rightarrow> string \<Rightarrow> walk_fn" where
  "mirror_visit source destination path info err =
     (let relPath = Replace1 path source [] in
      if relPath = [] then go_return ()
      else case info of
             None \<Rightarrow> go_panic ''invalid memory address or nil pointer dereference''
           | Some (LLink _) \<Rightarrow>
               go_bind (\<lambda>s. (Readlink path s, s)) (\<lambda>dst. Symlink (filepath_Base dst) (filepath_Join destination relPath))
           | Some LDir \<Rightarrow> Mkdir (filepath_Join destination relPath)
           | Some (LFile _) \<Rightarrow>
               go_bind (\<lambda>s. (link_ReadFile (path_str (path_of (filepath_Join source relPath))) s, s)) (\<lambda>data.
                 link_WriteFile (path_str (path_of (filepath_Join destination relPath))) data))"

definition LocalMirrorFromFiles :: "nat \<Rightarrow> string \<Rightarrow> string \<Rightarrow> (lfs, unit) go" where
  "LocalMirrorFromFiles frames source destination = link_Walk frames source (mirror_visit source destination)"

section \<open>RegistryFromFiles\<close>

text \<open>\<open>Header().Set\<close> on a name of letters and hyphens: the letter at the start and after a hyphen is a capital,
  the others are not.\<close>

fun canonical :: "bool \<Rightarrow> string \<Rightarrow> string" where
  "canonical upper [] = []"
| "canonical upper (c # cs) =
     (let n = of_char c :: nat
      in (if upper \<and> 97 \<le> n \<and> n \<le> 122 then char_of (n - 32) else if \<not> upper \<and> 65 \<le> n \<and> n \<le> 90 then char_of (n + 32) else c)
           # canonical (c = CHR ''-'') cs)"

definition Header_Set :: "string \<Rightarrow> string \<Rightarrow> (string \<times> string) list \<Rightarrow> (string \<times> string) list" where
  "Header_Set key value h = map_put (canonical True key) value h"

record http_request =
  rq_Method :: string
  rq_Path :: string

definition base_of_dir :: "string \<Rightarrow> string" where
  "base_of_dir p = base_of (path_of (case CutLast ''/'' p of None \<Rightarrow> [] | Some (a, _) \<Rightarrow> a @ ''/''))"

text \<open>The file of a request below \<open>http.Dir(source)\<close>.\<close>

definition http_Dir_file :: "string \<Rightarrow> string \<Rightarrow> string" where
  "http_Dir_file source name = filepath_Join (if source = [] then ''.'' else source) (path_str (path_of (''/'' @ name)))"

definition RegistryFromFiles ::
  "(string \<Rightarrow> string outcome) \<Rightarrow> ((string \<times> string) list \<Rightarrow> http_request \<Rightarrow> lfs \<Rightarrow> 'r) \<Rightarrow> string \<Rightarrow> http_request \<Rightarrow> lfs \<Rightarrow> 'r" where
  "RegistryFromFiles mediaType serve source req s =
     (let h = (if rq_Method req = ''GET'' \<and> rq_Path req = ''/v2/'' then Header_Set ''Docker-Distribution-API-Version'' ''2.0'' [] else []);
          h = (if rq_Method req = ''GET'' then
                 if base_of_dir (rq_Path req) = ''blobs'' then Header_Set ''Content-Type'' ''application/octet-stream'' h
                 else if base_of_dir (rq_Path req) = ''manifests'' then
                   (case ok_bind (link_ReadFile (http_Dir_file source (rq_Path req)) s) mediaType of
                      Ok m \<Rightarrow> Header_Set ''Content-Type'' m h
                    | _ \<Rightarrow> h)
                 else h
               else h)
      in serve h req s)"

section \<open>WriteTestImage\<close>

text \<open>The calls of go-containerregistry; \<open>tl_image\<close> has no error, since the code drops it.\<close>

record ('i, 'x, 'w) testlib =
  tl_host :: "string \<Rightarrow> string outcome"
  tl_NewTag :: "string \<Rightarrow> string outcome"
  tl_image :: "(string \<times> string) list \<Rightarrow> 'i"
  tl_Push :: "'i \<Rightarrow> string \<Rightarrow> ('w, unit) go"
  tl_layout :: "string \<Rightarrow> ('w, unit) go"
  tl_AppendImage :: "string \<Rightarrow> 'i \<Rightarrow> ('w, unit) go"
  tl_ImageIndex :: "string \<Rightarrow> ('w, 'x) go"
  tl_WriteIndex :: "string \<Rightarrow> 'x \<Rightarrow> ('w, unit) go"

definition WriteTestImage :: "('i, 'x, 'w) testlib \<Rightarrow> string \<Rightarrow> string \<Rightarrow> ('w, string) go" where
  "WriteTestImage lib serverURL dir =
     go_bind (go_lift (tl_host lib serverURL)) (\<lambda>host.
       let c = [(''/testfile'', ''test contents contents'')]; targetRef = host @ ''/bar:foo''
       in go_bind (go_lift (tl_NewTag lib targetRef)) (\<lambda>tag.
          let i = tl_image lib c
          in go_bind (tl_Push lib i tag) (\<lambda>_.
             go_bind
               (if dir \<noteq> [] then
                  go_bind (tl_layout lib dir) (\<lambda>_.
                  go_bind (tl_AppendImage lib dir i) (\<lambda>_.
                  go_bind (tl_ImageIndex lib dir) (\<lambda>idx. tl_WriteIndex lib tag idx)))
                else go_return ()) (\<lambda>_. go_return targetRef))))"


section \<open>Laws of paths\<close>

text \<open>Paths of names, from the root or not, with at least one name.\<close>

definition plain :: "path \<Rightarrow> bool" where
  "plain p = (p \<noteq> [] \<and> (list_all name_ok p \<or> hd p = ''/'' \<and> tl p \<noteq> [] \<and> list_all name_ok (tl p)))"

lemma plain_cases:
  assumes "plain p"
  obtains (relative) "p \<noteq> []" "list_all name_ok p" | (rooted) names where "p = ''/'' # names" "names \<noteq> []" "list_all name_ok names"
  using assms by (cases p) (auto simp: plain_def)

lemma not_name_ok [simp]: "\<not> name_ok ''/''" "\<not> name_ok []"
  by (simp_all add: name_ok_def)

lemma plain_clean: "plain p \<Longrightarrow> clean_path p"
  unfolding clean_path_def by (erule plain_cases) (intro exI[of _ "[]"] exI, auto)+

lemma plain_append: "plain p \<Longrightarrow> list_all name_ok r \<Longrightarrow> plain (p @ r)"
  by (erule plain_cases) (auto simp: plain_def)

lemma plain_not_root: "plain p \<Longrightarrow> \<not> is_root p"
  by (erule plain_cases) (auto simp: is_root_def)

lemma below_not_root: "plain p \<Longrightarrow> \<not> is_root (p @ r)"
  by (erule plain_cases) (cases p; auto simp: is_root_def)+

lemma path_of_plain: "plain p \<Longrightarrow> path_of (path_str p) = p"
  by (simp add: plain_clean path_of_path_str_clean)

lemma plain_not_empty: "plain p \<Longrightarrow> path_str p \<noteq> []"
  using path_str_not_empty[of "path_str p"] by (simp add: path_of_plain)

lemma names_no_slash: "list_all name_ok names \<Longrightarrow> x \<in> set names \<Longrightarrow> CHR ''/'' \<notin> set x"
  by (auto simp: list_all_iff name_ok_def)

lemma Split_names: "list_all name_ok names \<Longrightarrow> names \<noteq> [] \<Longrightarrow> Split (Join names ''/'') ''/'' = names"
  by (intro Split_Join_char) (auto dest: names_no_slash)

lemma path_str_below: "plain p \<Longrightarrow> list_all name_ok r \<Longrightarrow> r \<noteq> [] \<Longrightarrow> path_str (p @ r) = path_str p @ ''/'' @ Join r ''/''"
proof (induction r rule: rev_induct)
  case (snoc c r)
  have "plain (p @ r)" using snoc.prems by (intro plain_append) auto
  then have "p @ r \<noteq> []" "p @ r \<noteq> [''/'']" using plain_not_root[of "p @ r"] by (auto simp: is_root_def)
  from path_str_snoc[OF this, of c] snoc show ?case by (cases "r = []") (simp_all add: Join_snoc)
qed simp

lemma Join_name: "plain p \<Longrightarrow> name_ok c \<Longrightarrow> filepath_Join (path_str p) c = path_str (p @ [c])"
proof -
  assume p: "plain p" and c: "name_ok c"
  have ne: "path_str p \<noteq> []" by (rule plain_not_empty[OF p])
  have "path_of (path_str p @ ''/'' @ c) = p @ [c]"
    using path_of_snoc[OF ne, of c] c by (simp add: path_of_plain[OF p] name_ok_def)
  with ne c show ?thesis by (auto simp: filepath_Join_def name_ok_def)
qed

lemma Join_rel:
  assumes p: "plain p" and r: "list_all name_ok r" "r \<noteq> []"
  shows "filepath_Join (path_str p) (''/'' @ Join r ''/'') = path_str (p @ r)"
proof -
  have ne: "path_str p \<noteq> []" by (rule plain_not_empty[OF p])
  have hp: "HasPrefix (path_str p @ ''/'' @ ''/'' @ Join r ''/'') ''/'' = HasPrefix (path_str p) ''/''"
    using ne by (cases "path_str p") (auto simp: HasPrefix_iff)
  have "Split (path_str p @ ''/'' @ ''/'' @ Join r ''/'') ''/'' = Split (path_str p) ''/'' @ [] # r"
    using Split_char_mid[of "path_str p" "CHR ''/''" "''/'' @ Join r ''/''"] Split_char_append[of "CHR ''/''" "[]" "Join r ''/''"]
      Split_names[OF r] by simp
  then have "path_of (path_str p @ ''/'' @ ''/'' @ Join r ''/'') = foldl add_component (path_of (path_str p)) ([] # r)"
    unfolding path_of_def hp by simp
  also have "\<dots> = p @ r" using foldl_add_names[OF r(1), of p] by (simp add: path_of_plain[OF p] add_component_def)
  finally show ?thesis using ne by (simp add: filepath_Join_def)
qed

section \<open>Resolution of plain paths\<close>

text \<open>Every directory on the way to \<open>p\<close> is there, and is no link.\<close>

definition dirs_to :: "lfs \<Rightarrow> path \<Rightarrow> bool" where
  "dirs_to s p = (\<forall>q. strict_prefix q p \<longrightarrow> lnode_at s q = Some LDir)"

definition is_link :: "lnode option \<Rightarrow> bool" where
  "is_link n = (case n of Some (LLink _) \<Rightarrow> True | _ \<Rightarrow> False)"

lemma resolve_names:
  assumes "cs \<noteq> []" and "list_all name_ok cs" and "dirs_to s (d @ cs)" and "follow \<Longrightarrow> \<not> is_link (lnode_at s (d @ cs))"
  shows "resolve s follow n d cs = Ok (d @ cs)"
  using assms
proof (induction cs arbitrary: d)
  case (Cons c cs)
  have c: "c \<noteq> []" "c \<noteq> ''.''" "c \<noteq> ''..''" using Cons.prems(2) by (auto simp: name_ok_def)
  show ?case
  proof (cases "cs = []")
    case True
    with c Cons.prems(4) show ?thesis
      by (simp add: resolve.simps is_link_def split: option.split lnode.split) (auto simp: is_link_def)
  next
    case False
    then have "strict_prefix (d @ [c]) (d @ c # cs)" by (auto simp: strict_prefix_def)
    with Cons.prems(3) have "lnode_at s (d @ [c]) = Some LDir" by (simp add: dirs_to_def)
    with c False Cons.prems Cons.IH[of "d @ [c]"] show ?thesis by (simp add: resolve.simps)
  qed
qed simp

lemma plain_components:
  assumes "plain p"
  obtains d cs where "(if HasPrefix (path_str p) ''/'' then [''/''] else []) = d" "p = d @ cs" "cs \<noteq> []" "list_all name_ok cs"
    "Split (path_str p) ''/'' = cs \<or> Split (path_str p) ''/'' = [] # cs"
  using assms
proof (cases rule: plain_cases)
  case relative
  then obtain c cs where p: "p = c # cs" by (cases p) auto
  with relative have "c \<noteq> []" "CHR ''/'' \<notin> set c" by (auto simp: name_ok_def)
  then have "\<not> HasPrefix (Join p ''/'') ''/''" using p by (cases c; cases cs) (auto simp: HasPrefix_iff)
  moreover have "path_str p = Join p ''/''" using p \<open>CHR ''/'' \<notin> set c\<close> by (auto simp: path_str_def)
  ultimately show thesis using that[of "[]" p] relative Split_names[of p] by simp
next
  case (rooted names)
  then have "path_str p = ''/'' @ Join names ''/''" by (simp add: path_str_def)
  moreover have "Split (''/'' @ Join names ''/'') ''/'' = [] # names"
    using Split_char_append[of "CHR ''/''" "[]" "Join names ''/''"] Split_names rooted by simp
  ultimately show thesis using that[of "[''/'']" names] rooted by (simp add: HasPrefix_iff)
qed

lemma locate_plain:
  assumes p: "plain p" and s: "dirs_to s p" "follow \<Longrightarrow> \<not> is_link (lnode_at s p)" "lf_fault s op p = None"
  shows "locate op follow (path_str p) s = Ok p"
proof -
  have ne: "path_str p \<noteq> []" by (rule plain_not_empty[OF p])
  from p obtain d cs where d: "(if HasPrefix (path_str p) ''/'' then [''/''] else []) = d" and c: "p = d @ cs" "cs \<noteq> []"
    "list_all name_ok cs" and split: "Split (path_str p) ''/'' = cs \<or> Split (path_str p) ''/'' = [] # cs"
    by (rule plain_components)
  have "resolve s follow 40 d cs = Ok p" using resolve_names[of cs s d follow 40] c s by simp
  with split have "resolve s follow 40 d (Split (path_str p) ''/'') = Ok p" by (auto simp: resolve.simps)
  with ne d s(3) show ?thesis by (simp add: locate_def)
qed

section \<open>One call of the walk\<close>

lemma lnode_at_lput [simp]: "lnode_at (lput p n s) q = (if is_root q then Some LDir else if q = p then Some n else lnode_at s q)"
  by (simp add: lnode_at_def lput_def)

lemma lf_fault_lput [simp]: "lf_fault (lput p n s) = lf_fault s"
  by (simp add: lput_def)

fun mirror_node :: "lnode \<Rightarrow> lnode" where
  "mirror_node LDir = LDir"
| "mirror_node (LFile c) = LFile c"
| "mirror_node (LLink t) = LLink (filepath_Base t)"

lemma mirror_visit_copies:
  assumes S: "plain S" and D: "plain D" and r: "list_all name_ok r" "r \<noteq> []"
    and f: "\<And>op p. lf_fault s op p = None"
    and n: "lnode_at s (S @ r) = Some n" "dirs_to s (S @ r)"
    and new: "lnode_at s (D @ r) = None" "dirs_to s (D @ r)"
  shows "mirror_visit (path_str S) (path_str D) (path_str (S @ r)) (Some n) e s = (Ok (), lput (D @ r) (mirror_node n) s)"
proof -
  have rel: "Replace1 (path_str (S @ r)) (path_str S) [] = ''/'' @ Join r ''/''"
    by (simp add: path_str_below[OF S r] Replace1_prefix plain_not_empty[OF S])
  have pS: "plain (S @ r)" and pD: "plain (D @ r)" using S D r plain_append by blast+
  have lS: "locate op follow (path_str (S @ r)) s = Ok (S @ r)" if "follow \<Longrightarrow> \<not> is_link (Some n)" for op follow
    using locate_plain[OF pS n(2)] that f n(1) by simp
  have lD: "locate op follow (path_str (D @ r)) s = Ok (D @ r)" for op follow
    using locate_plain[OF pD new(2)] f new(1) by (simp add: is_link_def)
  note j = Join_rel[OF S r] Join_rel[OF D r]
  show ?thesis
  proof (cases n)
    case LDir
    then show ?thesis using rel j new(1) lD by (simp add: mirror_visit_def Let_def Mkdir_def make_node_def)
  next
    case (LFile c)
    then have "\<not> is_link (Some n)" by (simp add: is_link_def)
    from lS[OF this, of _ True] LFile show ?thesis using rel j new(1) lD n(1)
      by (simp add: mirror_visit_def Let_def link_ReadFile_def link_WriteFile_def path_of_plain[OF pS] path_of_plain[OF pD])
  next
    case (LLink t)
    then show ?thesis using rel j new(1) lD n(1) lS[of False]
      by (simp add: mirror_visit_def Let_def Readlink_def Symlink_def make_node_def)
  qed
qed

section \<open>The walk\<close>

text \<open>What the copy relies on: source and destination are directories apart from each other, named by paths
  without . and .. (\<open>plain\<close>) and reached without links, the
  destination is empty, what is below the source hangs on directories, at most \<open>depth\<close> levels deep.\<close>

definition mirrorable :: "nat \<Rightarrow> path \<Rightarrow> path \<Rightarrow> lfs \<Rightarrow> bool" where
  "mirrorable depth S D s =
     (plain S \<and> plain D \<and> \<not> prefix S D \<and> \<not> prefix D S \<and>
      list_all (\<lambda>q. lnode_at s q = Some LDir) (prefixes S @ prefixes D) \<and>
      list_all (\<lambda>(p, _). \<not> strict_prefix D p \<and>
        (strict_prefix S p \<longrightarrow> list_all name_ok (drop (length S) p) \<and> length p \<le> length S + depth \<and>
           list_all (\<lambda>q. q = p \<or> lnode_at s q = Some LDir) (prefixes p))) (lf_nodes s))"

lemma lnode_atD: "lnode_at s p = Some n \<Longrightarrow> \<not> is_root p \<Longrightarrow> (p, n) \<in> set (lf_nodes s)"
  by (simp add: lnode_at_def map_of_SomeD)

lemma mirrorable_below:
  assumes "mirrorable depth S D s" and "lnode_at s (S @ r) = Some n"
  shows "list_all name_ok r" "length r \<le> depth" "dirs_to s (S @ r)"
proof -
  have S: "plain S" "dirs_to s S" using assms(1) by (auto simp: mirrorable_def dirs_to_def list_all_iff)
  have "list_all name_ok r \<and> length r \<le> depth \<and> dirs_to s (S @ r)"
  proof (cases "r = []")
    case False
    have "\<not> is_root (S @ r)" using S(1) by (rule below_not_root)
    then have "(S @ r, n) \<in> set (lf_nodes s)" using assms(2) lnode_atD by blast
    moreover have "strict_prefix S (S @ r)" using False by (simp add: strict_prefix_def)
    ultimately have "list_all name_ok r \<and> length (S @ r) \<le> length S + depth \<and>
        (\<forall>q. prefix q (S @ r) \<longrightarrow> q = S @ r \<or> lnode_at s q = Some LDir)"
      using assms(1) unfolding mirrorable_def list_all_iff by fastforce
    then show ?thesis by (auto simp: dirs_to_def strict_prefix_def)
  qed (use S in simp)
  then show "list_all name_ok r" "length r \<le> depth" "dirs_to s (S @ r)" by auto
qed

lemma mirrorable_empty:
  assumes "mirrorable depth S D s" and "r \<noteq> []"
  shows "lnode_at s (D @ r) = None"
proof (rule ccontr)
  assume "lnode_at s (D @ r) \<noteq> None"
  then obtain n where n: "lnode_at s (D @ r) = Some n" by blast
  have "\<not> is_root (D @ r)" using assms(1) by (simp add: mirrorable_def below_not_root)
  with n have "(D @ r, n) \<in> set (lf_nodes s)" by (rule lnode_atD)
  with assms show False by (auto simp: mirrorable_def list_all_iff strict_prefix_def)
qed

text \<open>The state after the relative paths \<open>A\<close> have been mirrored.\<close>

definition mirrored :: "path \<Rightarrow> path \<Rightarrow> lfs \<Rightarrow> path set \<Rightarrow> lfs \<Rightarrow> bool" where
  "mirrored S D s0 A s \<longleftrightarrow>
     lf_fault s = lf_fault s0 \<and>
     (\<forall>p. \<not> strict_prefix D p \<longrightarrow> lnode_at s p = lnode_at s0 p) \<and>
     (\<forall>r. r \<noteq> [] \<longrightarrow> lnode_at s (D @ r) = (if r \<in> A then map_option mirror_node (lnode_at s0 (S @ r)) else None))"

text \<open>The relative paths below \<open>r\<close>, with \<open>r\<close> itself unless it is the source.\<close>

definition tree :: "path \<Rightarrow> lfs \<Rightarrow> path \<Rightarrow> path set" where
  "tree S s0 r = {q. prefix r q \<and> q \<noteq> [] \<and> lnode_at s0 (S @ q) \<noteq> None}"

lemma mirrored_source:
  assumes "mirrorable depth S D s0" and "mirrored S D s0 A s"
  shows "lnode_at s (S @ r) = lnode_at s0 (S @ r)" and "dirs_to s0 (S @ r) \<Longrightarrow> dirs_to s (S @ r)"
proof -
  have apart: "\<not> strict_prefix D q" if "prefix q (S @ r)" for q
    using assms(1) that prefix_same_cases[of S "S @ r" D]
    by (auto simp: mirrorable_def strict_prefix_def dest: prefix_order.trans)
  then show "lnode_at s (S @ r) = lnode_at s0 (S @ r)" using assms(2) by (simp add: mirrored_def)
  show "dirs_to s0 (S @ r) \<Longrightarrow> dirs_to s (S @ r)"
    using assms(2) apart by (simp add: mirrored_def dirs_to_def strict_prefix_def)
qed

lemma mirrored_dirs_to:
  assumes m: "mirrorable depth S D s0" and c: "mirrored S D s0 A s" and r: "dirs_to s0 (S @ r)"
    and A: "\<And>q. strict_prefix q r \<Longrightarrow> q \<noteq> [] \<Longrightarrow> q \<in> A"
  shows "dirs_to s (D @ r)"
  unfolding dirs_to_def
proof (intro allI impI)
  fix q assume q: "strict_prefix q (D @ r)"
  show "lnode_at s q = Some LDir"
  proof (cases "strict_prefix D q")
    case True
    then obtain t where t: "q = D @ t" "t \<noteq> []" by (auto simp: strict_prefix_def prefix_def)
    with q have "strict_prefix t r" by (auto simp: strict_prefix_def)
    with t A c r show ?thesis by (auto simp: mirrored_def dirs_to_def strict_prefix_def)
  next
    case False
    with q have "prefix q D" using prefix_same_cases[of q "D @ r" D] by (auto simp: strict_prefix_def)
    with m c False show ?thesis by (auto simp: mirrored_def mirrorable_def list_all_iff)
  qed
qed

lemma mirrored_visit:
  assumes m: "mirrorable depth S D s0" and f: "\<And>op p. lf_fault s0 op p = None" and c: "mirrored S D s0 A s"
    and r: "lnode_at s0 (S @ r) = Some n" "r \<noteq> []" "r \<notin> A" and A: "\<And>q. strict_prefix q r \<Longrightarrow> q \<noteq> [] \<Longrightarrow> q \<in> A"
  obtains s' where "mirror_visit (path_str S) (path_str D) (path_str (S @ r)) (Some n) e s = (Ok (), s')"
    "mirrored S D s0 (insert r A) s'"
proof
  note b = mirrorable_below[OF m r(1)]
  have p: "plain S" "plain D" using m by (simp_all add: mirrorable_def)
  have f': "lf_fault s op p = None" for op p using f c by (simp add: mirrored_def)
  have new: "lnode_at s (D @ r) = None" using c r by (simp add: mirrored_def)
  show "mirror_visit (path_str S) (path_str D) (path_str (S @ r)) (Some n) e s = (Ok (), lput (D @ r) (mirror_node n) s)"
    using mirror_visit_copies[OF p b(1) r(2) f' _ _ new mirrored_dirs_to[OF m c b(3) A]] mirrored_source[OF m c] r b by simp
  have root: "\<not> is_root (D @ q)" for q using p(2) by (rule below_not_root)
  have "is_root q \<Longrightarrow> lnode_at s0 q = Some LDir" for q by (simp add: lnode_at_def)
  moreover have "strict_prefix D (D @ r)" using r(2) by (simp add: strict_prefix_def)
  ultimately show "mirrored S D s0 (insert r A) (lput (D @ r) (mirror_node n) s)"
    using c r root by (auto simp: mirrored_def)
qed

lemma source_names:
  assumes m: "mirrorable depth S D s0" and f: "\<And>op p. lf_fault s0 op p = None" and c: "mirrored S D s0 A s"
    and r: "lnode_at s0 (S @ r) = Some LDir"
  obtains names where "readDirNames (path_str (S @ r)) s = Ok names" "distinct names"
    "set names = {c. lnode_at s0 (S @ r @ [c]) \<noteq> None}"
proof -
  let ?P = "\<lambda>(q, n). q \<noteq> [] \<and> q \<noteq> S @ r \<and> butlast q = S @ r"
  let ?names = "sort (remdups (map (last \<circ> fst) (filter ?P (lf_nodes s))))"
  note b = mirrorable_below[OF m r]
  have p: "plain S" "plain (S @ r)" using m b plain_append by (simp_all add: mirrorable_def)
  note src = mirrored_source[OF m c]
  have "locate ''readdir'' True (path_str (S @ r)) s = Ok (S @ r)"
    using locate_plain[OF p(2) src(2)[OF b(3)]] src(1) r f c by (simp add: is_link_def mirrored_def)
  then have "readDirNames (path_str (S @ r)) s = Ok ?names" using src(1) r by (simp add: readDirNames_def)
  moreover have "x \<in> set ?names \<longleftrightarrow> lnode_at s0 (S @ r @ [x]) \<noteq> None" for x
  proof -
    have "x \<in> set ?names \<longleftrightarrow> S @ r @ [x] \<in> fst ` set (lf_nodes s)"
    proof
      assume "x \<in> set ?names"
      then obtain q n where q: "(q, n) \<in> set (lf_nodes s)" "q \<noteq> []" "butlast q = S @ r" "x = last q" by auto
      then have "q = S @ r @ [x]" using append_butlast_last_id[OF q(2)] by simp
      with q(1) show "S @ r @ [x] \<in> fst ` set (lf_nodes s)" by force
    next
      assume "S @ r @ [x] \<in> fst ` set (lf_nodes s)"
      then obtain n where "(S @ r @ [x], n) \<in> set (lf_nodes s)" by auto
      then have "(S @ r @ [x], n) \<in> set (filter ?P (lf_nodes s))" by (simp add: butlast_append)
      from imageI[OF this, of "last \<circ> fst"] show "x \<in> set ?names" by simp
    qed
    also have "\<dots> \<longleftrightarrow> lnode_at s (S @ r @ [x]) \<noteq> None"
      using below_not_root[OF p(1), of "r @ [x]"] by (simp add: lnode_at_def map_of_eq_None_iff)
    finally show ?thesis using src(1)[of "r @ [x]"] by simp
  qed
  then have "set ?names = {c. lnode_at s0 (S @ r @ [c]) \<noteq> None}" by (intro set_eqI) (simp only: mem_Collect_eq)
  moreover have "distinct ?names" by simp
  ultimately show thesis by (intro that)
qed

lemma tree_file:
  assumes m: "mirrorable depth S D s0" and r: "lnode_at s0 (S @ r) = Some n" "n \<noteq> LDir"
  shows "tree S s0 r = {r}"
proof -
  have "q = r" if "prefix r q" "lnode_at s0 (S @ q) = Some k" for q k
  proof (rule ccontr)
    assume "q \<noteq> r"
    with that(1) have "strict_prefix (S @ r) (S @ q)" by (auto simp: strict_prefix_def)
    with mirrorable_below(3)[OF m that(2)] r show False by (simp add: dirs_to_def)
  qed
  moreover have "r \<noteq> []" using m r by (auto simp: mirrorable_def list_all_iff)
  ultimately show ?thesis using r by (auto simp: tree_def)
qed

lemma tree_dir:
  assumes m: "mirrorable depth S D s0" and r: "lnode_at s0 (S @ r) = Some LDir"
  shows "tree S s0 r = ({r} - {[]}) \<union> (\<Union>c \<in> {c. lnode_at s0 (S @ r @ [c]) \<noteq> None}. tree S s0 (r @ [c]))"
proof -
  have "\<exists>c. prefix (r @ [c]) q \<and> lnode_at s0 (S @ r @ [c]) \<noteq> None"
    if "prefix r q" "q \<noteq> r" "lnode_at s0 (S @ q) = Some k" for q k
  proof -
    from that(1,2) obtain zs where "q = r @ zs" "zs \<noteq> []" by (auto simp: prefix_def)
    then obtain c cs where q: "q = r @ c # cs" by (cases zs) auto
    show ?thesis
    proof (cases "cs = []")
      case False
      with q have "strict_prefix (S @ r @ [c]) (S @ q)" by (auto simp: strict_prefix_def)
      with mirrorable_below(3)[OF m that(3)] q show ?thesis by (auto simp: dirs_to_def)
    qed (use q that in auto)
  qed
  then show ?thesis using r by (auto simp: tree_def dest: append_prefixD)
qed

text \<open>A step that copies the subtree of \<open>r\<close>, in a state that has none of it yet.\<close>

definition copies :: "path \<Rightarrow> path \<Rightarrow> lfs \<Rightarrow> path \<Rightarrow> (lfs, unit) go \<Rightarrow> bool" where
  "copies S D s0 r step \<longleftrightarrow> (\<forall>A s. mirrored S D s0 A s \<longrightarrow> A \<inter> tree S s0 r = {} \<longrightarrow>
     (\<forall>q. strict_prefix q r \<longrightarrow> q \<noteq> [] \<longrightarrow> q \<in> A) \<longrightarrow>
     (\<exists>s'. step s = (Ok (), s') \<and> mirrored S D s0 (A \<union> tree S s0 r) s'))"

lemma copiesE:
  assumes "copies S D s0 r step" and "mirrored S D s0 A s" and "A \<inter> tree S s0 r = {}"
    and "\<And>q. strict_prefix q r \<Longrightarrow> q \<noteq> [] \<Longrightarrow> q \<in> A"
  obtains s' where "step s = (Ok (), s')" "mirrored S D s0 (A \<union> tree S s0 r) s'"
  using assms unfolding copies_def by blast

lemma tree_apart: "c \<noteq> d \<Longrightarrow> tree S s0 (r @ [c]) \<inter> tree S s0 (r @ [d]) = {}"
  by (auto simp: tree_def prefix_def)

lemma walk_names_copies:
  assumes m: "mirrorable depth S D s0" and f: "\<And>op p. lf_fault s0 op p = None"
    and walk: "\<And>c n. c \<in> set names \<Longrightarrow> lnode_at s0 (S @ r @ [c]) = Some n \<Longrightarrow> copies S D s0 (r @ [c]) (walk (path_str (S @ r @ [c])) n)"
    and names: "distinct names" "\<And>c. c \<in> set names \<Longrightarrow> lnode_at s0 (S @ r @ [c]) \<noteq> None"
    and c: "mirrored S D s0 A s" "\<And>c. c \<in> set names \<Longrightarrow> A \<inter> tree S s0 (r @ [c]) = {}"
    and A: "\<And>q. prefix q r \<Longrightarrow> q \<noteq> [] \<Longrightarrow> q \<in> A"
  shows "\<exists>s'. walk_names walk fn (path_str (S @ r)) names s = (Ok (), s') \<and>
           mirrored S D s0 (A \<union> (\<Union>c \<in> set names. tree S s0 (r @ [c]))) s'"
  using walk names c A
proof (induction names arbitrary: A s)
  case (Cons x names)
  obtain n where n: "lnode_at s0 (S @ r @ [x]) = Some n" using Cons.prems(3)[of x] by auto
  note b = mirrorable_below[OF m, of "r @ [x]" n, simplified, OF n]
  have p: "plain (S @ r)" "plain (S @ r @ [x])" "name_ok x" using m b plain_append by (simp_all add: mirrorable_def)
  note src = mirrored_source[OF m Cons.prems(4), of "r @ [x]"]
  have "Lstat (path_str (S @ r @ [x])) s = Ok n"
    using locate_plain[OF p(2), of s False "''lstat''"] src b(3) n f Cons.prems(4) by (simp add: Lstat_def mirrored_def)
  moreover have "strict_prefix q (r @ [x]) \<Longrightarrow> q \<noteq> [] \<Longrightarrow> q \<in> A" for q
    using Cons.prems(6) by (auto simp: strict_prefix_def)
  then obtain s1 where "walk (path_str (S @ r @ [x])) n s = (Ok (), s1)" and s1: "mirrored S D s0 (A \<union> tree S s0 (r @ [x])) s1"
    using copiesE[OF Cons.prems(1)[OF _ n] Cons.prems(4,5)] by auto
  moreover have "\<exists>s'. walk_names walk fn (path_str (S @ r)) names s1 = (Ok (), s') \<and>
      mirrored S D s0 (A \<union> tree S s0 (r @ [x]) \<union> (\<Union>c \<in> set names. tree S s0 (r @ [c]))) s'"
  proof (rule Cons.IH[OF _ _ _ s1])
    fix d assume "d \<in> set names"
    then show "(A \<union> tree S s0 (r @ [x])) \<inter> tree S s0 (r @ [d]) = {}"
      using Cons.prems(2,5) tree_apart[of x d S s0 r] by auto
  qed (use Cons.prems in auto)
  ultimately show ?case using Join_name[OF p(1,3)] by (auto simp: Let_def Un_assoc)
qed auto

lemma walk_dir_copies:
  assumes m: "mirrorable depth S D s0" and f: "\<And>op p. lf_fault s0 op p = None"
  shows "lnode_at s0 (S @ r) = Some n \<Longrightarrow> depth < frames + length r \<Longrightarrow>
    copies S D s0 r (walk_dir frames (mirror_visit (path_str S) (path_str D)) (path_str (S @ r)) n)"
proof (induction frames arbitrary: r n)
  case 0
  with mirrorable_below(2)[OF m 0(1)] show ?case by simp
next
  case (Suc frames)
  let ?visit = "mirror_visit (path_str S) (path_str D)"
  show ?case unfolding copies_def
  proof (intro allI impI)
    fix A s assume c: "mirrored S D s0 A s" and new: "A \<inter> tree S s0 r = {}" and A: "\<forall>q. strict_prefix q r \<longrightarrow> q \<noteq> [] \<longrightarrow> q \<in> A"
    let ?A = "A \<union> ({r} - {[]})"
    have visit: "\<exists>s'. ?visit (path_str (S @ r)) (Some n) None s = (Ok (), s') \<and> mirrored S D s0 ?A s'"
    proof (cases "r = []")
      case True
      have "Replace1 (path_str S) (path_str S) [] = []"
        using Replace1_prefix[of "path_str S" "[]" "[]"] m by (simp add: mirrorable_def plain_not_empty)
      with True c show ?thesis by (simp add: mirror_visit_def)
    next
      case False
      with new Suc.prems(1) have "r \<notin> A" by (auto simp: tree_def)
      with mirrored_visit[OF m f c Suc.prems(1) False, of None] A obtain s' where
        "?visit (path_str (S @ r)) (Some n) None s = (Ok (), s')" "mirrored S D s0 (insert r A) s'" by blast
      with False show ?thesis by simp
    qed
    then obtain s1 where v: "?visit (path_str (S @ r)) (Some n) None s = (Ok (), s1)" and s1: "mirrored S D s0 ?A s1" by blast
    show "\<exists>s'. walk_dir (Suc frames) ?visit (path_str (S @ r)) n s = (Ok (), s') \<and> mirrored S D s0 (A \<union> tree S s0 r) s'"
    proof (cases "n = LDir")
      case False
      with tree_file[OF m Suc.prems(1)] have t: "tree S s0 r = {r}" by simp
      then have "r \<noteq> []" by (auto simp: tree_def)
      with False v s1 t show ?thesis by simp
    next
      case True
      with Suc.prems(1) have r: "lnode_at s0 (S @ r) = Some LDir" by simp
      obtain names where names: "readDirNames (path_str (S @ r)) s = Ok names" "distinct names"
        "set names = {c. lnode_at s0 (S @ r @ [c]) \<noteq> None}"
        using source_names[OF m f c r] by blast
      have "\<exists>s'. walk_names (walk_dir frames ?visit) ?visit (path_str (S @ r)) names s1 = (Ok (), s') \<and>
          mirrored S D s0 (?A \<union> (\<Union>c \<in> set names. tree S s0 (r @ [c]))) s'"
      proof (rule walk_names_copies[OF m f _ names(2) _ s1])
        fix d k assume "lnode_at s0 (S @ r @ [d]) = Some k"
        then show "copies S D s0 (r @ [d]) (walk_dir frames ?visit (path_str (S @ r @ [d])) k)"
          using Suc.IH[of "r @ [d]"] Suc.prems(2) by simp
      next
        fix d assume "d \<in> set names"
        have "r \<notin> tree S s0 (r @ [d])" by (auto simp: tree_def prefix_def)
        moreover have "tree S s0 (r @ [d]) \<subseteq> tree S s0 r" by (auto simp: tree_def dest: append_prefixD)
        ultimately show "?A \<inter> tree S s0 (r @ [d]) = {}" using new by auto
      qed (use A names(3) in \<open>auto simp: strict_prefix_def\<close>)
      with True v names(1,3) tree_dir[OF m r] show ?thesis by (auto simp: Un_assoc)
    qed
  qed
qed

section \<open>The copy\<close>

lemma LocalMirrorFromFiles_mirrored:
  assumes "mirrorable depth S D s" and "\<And>op p. lf_fault s op p = None" and "depth < frames"
  shows "\<exists>s'. LocalMirrorFromFiles frames (path_str S) (path_str D) s = (Ok (), s') \<and> mirrored S D s (tree S s []) s'"
proof -
  have S: "lnode_at s S = Some LDir" "plain S" "dirs_to s S" using assms(1) by (auto simp: mirrorable_def dirs_to_def list_all_iff)
  then have "Lstat (path_str S) s = Ok LDir" using locate_plain[OF S(2,3)] assms(2) by (simp add: Lstat_def)
  moreover have "mirrored S D s {} s" using mirrorable_empty[OF assms(1)] by (simp add: mirrored_def)
  moreover have "copies S D s [] (walk_dir frames (mirror_visit (path_str S) (path_str D)) (path_str S) LDir)"
    using walk_dir_copies[OF assms(1,2), of "[]" LDir frames] S(1) assms(3) by simp
  ultimately show ?thesis
    by (auto simp: LocalMirrorFromFiles_def link_Walk_def elim: copiesE)
qed

text \<open>C29: when source and destination are paths made of one or more names, from the root or not (so neither . nor
  / nor a path with ..), of directories apart from each other that are reached through directories only, the
  destination is empty, what is below the source hangs on directories and is at most depth levels deep, and the file system
  raises no error, LocalMirrorFromFiles returns no error and every directory and
  file below the source is below the destination with the same content, every link as a link to the base of its
  target in the same directory; there is nothing more below the destination, and nothing else has changed.
  The frames bound the depth of the recursion only: more than the depth of the tree are enough.\<close>

theorem LocalMirrorFromFiles_copies:
  assumes "mirrorable depth S D s" and "\<And>op p. lf_fault s op p = None" and "depth < frames"
  shows "\<exists>s'. LocalMirrorFromFiles frames (path_str S) (path_str D) s = (Ok (), s') \<and>
    (\<forall>r. r \<noteq> [] \<longrightarrow> lnode_at s' (D @ r) = map_option mirror_node (lnode_at s (S @ r))) \<and>
    (\<forall>p. \<not> strict_prefix D p \<longrightarrow> lnode_at s' p = lnode_at s p)"
  using LocalMirrorFromFiles_mirrored[OF assms] by (auto simp: mirrored_def tree_def)

definition v2_files :: lfs where
  "v2_files = \<lparr>lf_nodes =
     [([''v2''], LDir), ([''v2'', ''blobs''], LDir), ([''v2'', ''blobs'', ''data''], LFile ''layer''),
      ([''v2'', ''manifests''], LDir), ([''v2'', ''manifests'', ''latest''], LLink ''../manifests/sha256:abc''),
      ([''v2'', ''manifests'', ''sha256:abc''], LFile ''{}''), ([''out''], LDir)],
     lf_fault = \<lambda>_ _. None\<rparr>"

theorem LocalMirrorFromFiles_copies_witness:
  "\<exists>s'. LocalMirrorFromFiles 3 ''v2'' ''out'' v2_files = (Ok (), s') \<and>
     lnode_at s' [''out'', ''blobs'', ''data''] = Some (LFile ''layer'') \<and>
     lnode_at s' [''out'', ''manifests'', ''latest''] = Some (LLink ''sha256:abc'') \<and>
     lnode_at s' [''out'', ''manifests'', ''other''] = None"
proof -
  have "mirrorable 2 [''v2''] [''out''] v2_files" by code_simp
  moreover have "lf_fault v2_files op p = None" for op p by (simp add: v2_files_def)
  moreover have "path_str [''v2''] = ''v2''" "path_str [''out''] = ''out''" by code_simp+
  ultimately obtain s' where s': "LocalMirrorFromFiles 3 ''v2'' ''out'' v2_files = (Ok (), s')"
    "\<And>r. r \<noteq> [] \<Longrightarrow> lnode_at s' ([''out''] @ r) = map_option mirror_node (lnode_at v2_files ([''v2''] @ r))"
    using LocalMirrorFromFiles_copies[of 2 "[''v2'']" "[''out'']" v2_files 3] by fastforce
  have "map_option mirror_node (lnode_at v2_files ([''v2''] @ [''blobs'', ''data''])) = Some (LFile ''layer'')"
    "map_option mirror_node (lnode_at v2_files ([''v2''] @ [''manifests'', ''latest''])) = Some (LLink ''sha256:abc'')"
    "map_option mirror_node (lnode_at v2_files ([''v2''] @ [''manifests'', ''other''])) = None"
    by code_simp+
  with s'(1) s'(2)[of "[''blobs'', ''data'']"] s'(2)[of "[''manifests'', ''latest'']"] s'(2)[of "[''manifests'', ''other'']"]
  show ?thesis by simp
qed

text \<open>The error of the walk is dropped: a source that is not there and one that cannot be read copy nothing, and
  no error is returned.\<close>

lemma Replace1_self: "Replace1 x x [] = []"
  using Replace1_prefix[of x "[]" "[]"] by (cases "x = []") (auto simp: Replace1_def)

lemma missing_source_ignored: "Lstat source s = Err e \<Longrightarrow> LocalMirrorFromFiles frames source destination s = (Ok (), s)"
  by (simp add: LocalMirrorFromFiles_def link_Walk_def mirror_visit_def Replace1_self)

lemma unreadable_source_ignored:
  assumes "Lstat source s = Ok LDir" and "readDirNames source s = Err e"
  shows "LocalMirrorFromFiles (Suc frames) source destination s = (Ok (), s)"
  using assms by (simp add: LocalMirrorFromFiles_def link_Walk_def mirror_visit_def Replace1_self)

text \<open>A file whose information cannot be read is reported without it, and the function uses it.\<close>

lemma unreadable_child_panics:
  "fst (LocalMirrorFromFiles 3 ''v2'' ''out'' (v2_files\<lparr>lf_fault := \<lambda>op p. if op = ''lstat'' \<and> p = [''v2'', ''blobs''] then Some EACCES else None\<rparr>))
     = Panic ''invalid memory address or nil pointer dereference''"
  by code_simp

text \<open>The walk cleans the paths below its root, and the prefix of a source that is not clean is not found in
  them.\<close>

lemma dot_source_fails:
  "fst (LocalMirrorFromFiles 3 ''.'' ''/out'' \<lparr>lf_nodes = [([''/'', ''out''], LDir), ([''a.txt''], LFile ''x'')], lf_fault = \<lambda>_ _. None\<rparr>)
     = Err (not_exist [''atxt''])"
  by code_simp

lemma unclean_source_fails:
  "fst (LocalMirrorFromFiles 3 ''./v2'' ''out'' v2_files) = Err (not_exist [''out'', ''v2''])"
  by code_simp

section \<open>The registry of the copy\<close>

text \<open>What the handler sets before the file server answers: the version of the API at its root, a media type for a
  blob, and for a manifest the media type its file names, if it can be read.\<close>

lemma canonical_keys [simp]:
  "canonical True ''Content-Type'' = ''Content-Type''"
  "canonical True ''Docker-Distribution-API-Version'' = ''Docker-Distribution-Api-Version''"
  by code_simp+

lemma registry_root:
  "RegistryFromFiles mediaType serve source \<lparr>rq_Method = ''GET'', rq_Path = ''/v2/''\<rparr> s =
     serve [(''Docker-Distribution-Api-Version'', ''2.0'')] \<lparr>rq_Method = ''GET'', rq_Path = ''/v2/''\<rparr> s"
proof -
  have "base_of_dir ''/v2/'' = ''v2''" by code_simp
  then show ?thesis by (simp add: RegistryFromFiles_def Header_Set_def del: canonical.simps)
qed

lemma registry_other_methods: "rq_Method req \<noteq> ''GET'' \<Longrightarrow> RegistryFromFiles mediaType serve source req s = serve [] req s"
  by (simp add: RegistryFromFiles_def)

lemma Split_rooted: "list_all name_ok r \<Longrightarrow> r \<noteq> [] \<Longrightarrow> Split (''/'' @ Join r ''/'') ''/'' = [] # r"
  using Split_char_append[of "CHR ''/''" "[]" "Join r ''/''"] Split_names[of r] by simp

lemma base_of_dir_names:
  assumes "list_all name_ok (ds @ [d, x])"
  shows "base_of_dir (''/'' @ Join (ds @ [d, x]) ''/'') = d" and "''/'' @ Join (ds @ [d, x]) ''/'' \<noteq> ''/v2/''"
proof -
  let ?a = "''/'' @ Join (ds @ [d]) ''/''"
  have d: "list_all name_ok (ds @ [d])" and x: "CHR ''/'' \<notin> set x" using assms by (auto simp: name_ok_def)
  have "''/'' @ Join (ds @ [d, x]) ''/'' = ?a @ CHR ''/'' # x" using Join_snoc[of "ds @ [d]" x] by simp
  with x have cut: "CutLast ''/'' (''/'' @ Join (ds @ [d, x]) ''/'') = Some (?a, x)" using CutLast_char by metis
  have "Split (?a @ ''/'') ''/'' = ([] # ds @ [d]) @ [[]]"
    using Split_rooted[OF d] Split_char_snoc[of "CHR ''/''" "[]" ?a] by simp
  then have "path_of (?a @ ''/'') = ''/'' # ds @ [d]"
    using foldl_add_names[OF d, of "[''/'']"] by (simp add: path_of_def HasPrefix_iff add_component_def)
  with cut show "base_of_dir (''/'' @ Join (ds @ [d, x]) ''/'') = d" by (simp add: base_of_dir_def base_of_def)
  show "''/'' @ Join (ds @ [d, x]) ''/'' \<noteq> ''/v2/''"
  proof
    assume "''/'' @ Join (ds @ [d, x]) ''/'' = ''/v2/''"
    then have "[] # ds @ [d, x] = Split ''/v2/'' ''/''" using Split_rooted[OF assms] by simp
    also have "\<dots> = [[], ''v2'', []]" by code_simp
    finally have "x = []" by (cases ds) auto
    with assms show False by simp
  qed
qed

lemma registry_blob:
  assumes "list_all name_ok (ds @ [''blobs'', x])" and "rq_Method req = ''GET''" and "rq_Path req = ''/'' @ Join (ds @ [''blobs'', x]) ''/''"
  shows "RegistryFromFiles mediaType serve source req s = serve [(''Content-Type'', ''application/octet-stream'')] req s"
  using base_of_dir_names[OF assms(1)] assms(2,3) by (simp add: RegistryFromFiles_def Header_Set_def del: canonical.simps)

lemma http_Dir_file_names:
  assumes S: "plain S" and r: "list_all name_ok r" "r \<noteq> []"
  shows "http_Dir_file (path_str S) (''/'' @ Join r ''/'') = path_str (S @ r)"
proof -
  have "Split (''/'' @ ''/'' @ Join r ''/'') ''/'' = [] # [] # r"
    using Split_char_append[of "CHR ''/''" "[]" "''/'' @ Join r ''/''"] Split_rooted[OF r] by simp
  then have "path_of (''/'' @ ''/'' @ Join r ''/'') = ''/'' # r"
    using foldl_add_names[OF r(1), of "[''/'']"] by (simp add: path_of_def HasPrefix_iff add_component_def)
  then show ?thesis using plain_not_empty[OF S] Join_rel[OF S r] by (simp add: http_Dir_file_def path_str_def)
qed

lemma registry_manifest:
  assumes S: "plain S" and r: "list_all name_ok (ds @ [''manifests'', x])"
    and req: "rq_Method req = ''GET''" "rq_Path req = ''/'' @ Join (ds @ [''manifests'', x]) ''/''"
    and read: "link_ReadFile (path_str (S @ ds @ [''manifests'', x])) s = Ok data"
  shows "RegistryFromFiles mediaType serve (path_str S) req s =
     serve (case mediaType data of Ok m \<Rightarrow> [(''Content-Type'', m)] | _ \<Rightarrow> []) req s"
  using base_of_dir_names[OF r] req read http_Dir_file_names[OF S r]
  by (simp add: RegistryFromFiles_def Header_Set_def del: canonical.simps split: outcome.split)

text \<open>A manifest of the copy is announced with the media type of the original.\<close>

lemma mirrored_registry:
  assumes m: "mirrorable depth S D s" "\<And>op p. lf_fault s op p = None" "depth < frames"
    and copy: "LocalMirrorFromFiles frames (path_str S) (path_str D) s = (Ok (), s')"
    and n: "lnode_at s (S @ ds @ [''manifests'', x]) = Some (LFile data)"
    and req: "rq_Method req = ''GET''" "rq_Path req = ''/'' @ Join (ds @ [''manifests'', x]) ''/''"
  shows "RegistryFromFiles mediaType serve (path_str D) req s' =
    serve (case mediaType data of Ok m \<Rightarrow> [(''Content-Type'', m)] | _ \<Rightarrow> []) req s'"
proof -
  let ?r = "ds @ [''manifests'', x]"
  have c: "mirrored S D s (tree S s []) s'" using LocalMirrorFromFiles_mirrored[OF m] copy by auto
  note b = mirrorable_below[OF m(1) n]
  have p: "plain D" "plain (D @ ?r)" using m(1) plain_append b by (simp_all add: mirrorable_def)
  have "lnode_at s' (D @ ?r) = Some (LFile data)" using c n by (simp add: mirrored_def tree_def)
  moreover have "q \<in> tree S s []" if "strict_prefix q ?r" "q \<noteq> []" for q
    using that b(3) by (auto simp: tree_def dirs_to_def strict_prefix_def)
  then have "dirs_to s' (D @ ?r)" using mirrored_dirs_to[OF m(1) c b(3)] by blast
  moreover have "lf_fault s' op p = None" for op p using c m(2) by (simp add: mirrored_def)
  ultimately have "link_ReadFile (path_str (D @ ?r)) s' = Ok data"
    using locate_plain[OF p(2), of s' True] by (simp add: link_ReadFile_def is_link_def)
  then show ?thesis by (rule registry_manifest[OF p(1) b(1) req])
qed

section \<open>The test image\<close>

text \<open>The reference that is returned names the server, and the image has been pushed under it.\<close>

lemma WriteTestImage_Ok:
  assumes "WriteTestImage lib serverURL dir w = (Ok ref, w')"
  shows "\<exists>host tag w1. tl_host lib serverURL = Ok host \<and> ref = host @ ''/bar:foo'' \<and> tl_NewTag lib ref = Ok tag \<and>
    tl_Push lib (tl_image lib [(''/testfile'', ''test contents contents'')]) tag w = (Ok (), w1) \<and> (dir = [] \<longrightarrow> w' = w1)"
  using assms by (auto simp: WriteTestImage_def Let_def go_bind_Ok_iff go_lift_def go_return_def)

end
