(* ===== verification/Semver.thy ===== *)
theory Semver
  imports Go_Prelude "HOL-Library.Word"
begin

text \<open>
  Package \<open>github.com/blang/semver/v4\<close>, the version arithmetic the release, catalog and range
  computations rest on: versions and pre-release identifiers (\<open>semver.go\<close>), their comparison,
  printing and parsing, sorting (\<open>sort.go\<close>), and version ranges (\<open>range.go\<close>).  The three
  numbers of a version are unsigned 64-bit words, as in the source.

  Results: comparison satisfies the contract of locale \<open>three_way\<close> (interpretation
  \<open>sv\<close>), so sorting finds the least and the greatest version; a parsed version is well formed;
  printing and parsing a well-formed version is the identity; the ranges \<open>>=v\<close> and \<open><=v\<close>
  that the release code builds from printed versions denote the comparison with \<open>v\<close>.
\<close>

section \<open>Versions\<close>

type_synonym u64 = "64 word"

record PRVersion =
  VersionStr :: string
  VersionNum :: u64
  IsNum :: bool

record version =
  Major :: u64
  Minor :: u64
  Patch :: u64
  Pre :: "PRVersion list"
  Build :: "string list"

definition zero_version :: version where
  "zero_version = \<lparr>Major = 0, Minor = 0, Patch = 0, Pre = [], Build = []\<rparr>"

section \<open>Comparison\<close>

definition PRVersion_Compare :: "PRVersion \<Rightarrow> PRVersion \<Rightarrow> int" where
  "PRVersion_Compare v w =
     (if IsNum v \<and> \<not> IsNum w then -1
      else if \<not> IsNum v \<and> IsNum w then 1
      else if IsNum v \<and> IsNum w then
        (if VersionNum v = VersionNum w then 0
         else if VersionNum v > VersionNum w then 1 else -1)
      else
        (if VersionStr v = VersionStr w then 0
         else if VersionStr v > VersionStr w then 1 else -1))"

text \<open>The loop over the pre-release identifiers and the length test after it.\<close>

fun Pre_Compare :: "PRVersion list \<Rightarrow> PRVersion list \<Rightarrow> int" where
  "Pre_Compare [] [] = 0"
| "Pre_Compare [] (_ # _) = -1"
| "Pre_Compare (_ # _) [] = 1"
| "Pre_Compare (v # vs) (w # ws) =
     (let comp = PRVersion_Compare v w
      in if comp = 0 then Pre_Compare vs ws else if comp = 1 then 1 else -1)"

definition Compare :: "version \<Rightarrow> version \<Rightarrow> int" where
  "Compare v w =
     (if Major v \<noteq> Major w then (if Major v > Major w then 1 else -1)
      else if Minor v \<noteq> Minor w then (if Minor v > Minor w then 1 else -1)
      else if Patch v \<noteq> Patch w then (if Patch v > Patch w then 1 else -1)
      else if length (Pre v) = 0 \<and> length (Pre w) = 0 then 0
      else if length (Pre v) = 0 \<and> length (Pre w) > 0 then 1
      else if length (Pre v) > 0 \<and> length (Pre w) = 0 then -1
      else Pre_Compare (Pre v) (Pre w))"

definition EQ :: "version \<Rightarrow> version \<Rightarrow> bool" where "EQ v w = (Compare v w = 0)"
definition GT :: "version \<Rightarrow> version \<Rightarrow> bool" where "GT v w = (Compare v w = 1)"
definition LT :: "version \<Rightarrow> version \<Rightarrow> bool" where "LT v w = (Compare v w = -1)"

text \<open>\<open>semver.Sort\<close>: \<open>sort.Sort\<close> with \<open>Less(i, j) = s[i].LT(s[j])\<close>.\<close>

definition Sort :: "version list \<Rightarrow> version list" where
  "Sort vs = sort_slice LT vs"

lemma LT_fun: "LT = (\<lambda>v w. Compare v w = -1)"
  by (simp add: LT_def fun_eq_iff)

subsection \<open>Comparison is a three-way comparison\<close>

interpretation prv: three_way PRVersion_Compare
  by unfold_locales (auto simp: PRVersion_Compare_def split: if_splits)

interpretation prl: three_way Pre_Compare
proof
  show "Pre_Compare x y = -1 \<or> Pre_Compare x y = 0 \<or> Pre_Compare x y = 1" for x y
    by (induction x y rule: Pre_Compare.induct) (auto simp: Let_def)
  show "Pre_Compare y x = - Pre_Compare x y" for x y
  proof (induction x y rule: Pre_Compare.induct)
    case (4 v vs w ws)
    then show ?case
      using prv.cmp_swap[of v w] prv.cmp_range[of v w] by (auto simp: Let_def)
  qed auto
  show "Pre_Compare x y \<le> 0 \<Longrightarrow> Pre_Compare y z \<le> 0 \<Longrightarrow> Pre_Compare x z \<le> 0" for x y z
  proof (induction x y arbitrary: z rule: Pre_Compare.induct)
    case (4 v vs w ws)
    show ?case
    proof (cases z)
      case Nil
      with 4 show ?thesis by simp
    next
      case (Cons u us)
      have vw: "PRVersion_Compare v w \<le> 0" and wu: "PRVersion_Compare w u \<le> 0"
        using 4 Cons prv.cmp_range[of v w] prv.cmp_range[of w u]
        by (auto simp: Let_def split: if_splits)
      then have vu: "PRVersion_Compare v u \<le> 0" by (rule prv.cmp_le_trans)
      show ?thesis
      proof (cases "PRVersion_Compare v u = 0")
        case True
        have "PRVersion_Compare w v \<le> 0" "PRVersion_Compare u w \<le> 0"
          using vw wu True prv.cmp_le_trans[of w u v] prv.cmp_le_trans[of u v w] prv.cmp_swap[of v u]
          by auto
        then have eqs: "PRVersion_Compare v w = 0" "PRVersion_Compare w u = 0"
          using vw wu prv.cmp_swap[of v w] prv.cmp_swap[of w u] by auto
        have "Pre_Compare vs ws \<le> 0" using "4.prems"(1) eqs by (simp add: Let_def)
        moreover have "Pre_Compare ws us \<le> 0" using "4.prems"(2) Cons eqs by (simp add: Let_def)
        ultimately have "Pre_Compare vs us \<le> 0" by (rule "4.IH"[OF refl eqs(1)])
        with Cons True show ?thesis by (simp add: Let_def)
      next
        case False
        with vu Cons prv.cmp_range[of v u] show ?thesis by (auto simp: Let_def)
      qed
    qed
  next
    case 1
    then show ?case by simp
  next
    case (2 w ws)
    then show ?case by (cases z) auto
  next
    case (3 v vs)
    then show ?case by simp
  qed
qed

text \<open>The chain of tests is a lexicographic comparison of the three numbers, then of "has no
  pre-release", then of the pre-release identifiers.\<close>

lemma Compare_lex:
  "Compare =
     lex_cmp (key_cmp Major) (lex_cmp (key_cmp Minor) (lex_cmp (key_cmp Patch)
       (lex_cmp (key_cmp (\<lambda>v. Pre v = [])) (\<lambda>v w. Pre_Compare (Pre v) (Pre w)))))"
  by (intro ext) (simp add: Compare_def lex_cmp_def key_cmp_def)

interpretation sv: three_way Compare
  unfolding Compare_lex
  by (intro three_way_lex three_way_key) (rule three_way_map[OF prl.three_way_axioms])

lemma Compare_refl [simp]: "Compare v v = 0"
  by (rule sv.cmp_refl)

lemma EQ_refl [simp]: "EQ v v"
  by (simp add: EQ_def)

lemma EQ_sym: "EQ v w \<Longrightarrow> EQ w v"
  using sv.cmp_eq_sym[of v w] by (simp add: EQ_def)

lemma EQ_trans: "EQ u v \<Longrightarrow> EQ v w \<Longrightarrow> EQ u w"
  unfolding EQ_def by (rule sv.cmp_eq_trans)

lemma set_Sort [simp]: "set (Sort vs) = set vs"
  by (simp add: Sort_def)

lemma length_Sort [simp]: "length (Sort vs) = length vs"
  by (simp add: Sort_def)

lemma Sort_first_least: "v \<in> set vs \<Longrightarrow> Compare (Sort vs ! 0) v \<le> 0"
  unfolding Sort_def LT_fun by (rule sv.sort_slice_hd_min)

lemma Sort_last_greatest: "v \<in> set vs \<Longrightarrow> Compare v (Sort vs ! (length vs - 1)) \<le> 0"
  unfolding Sort_def LT_fun by (rule sv.sort_slice_last_max)

lemma Sort_Nil_iff [simp]: "Sort vs = [] \<longleftrightarrow> vs = []"
  by (metis length_0_conv length_Sort)

lemma Sort_nth_mem: "i < length vs \<Longrightarrow> Sort vs ! i \<in> set vs"
  by (metis length_Sort nth_mem set_Sort)

text \<open>\<open>9.9.9\<close>, the default upper bound of catalog ranges, is compared number by number.\<close>

lemma Compare_release:
  "Pre v = [] \<Longrightarrow> Pre w = [] \<Longrightarrow>
   Compare v w \<le> 0 \<longleftrightarrow>
     Major v < Major w \<or> Major v = Major w \<and> (Minor v < Minor w \<or>
       Minor v = Minor w \<and> Patch v \<le> Patch w)"
  by (auto simp: Compare_def)

section \<open>Printing\<close>

definition PRVersion_String :: "PRVersion \<Rightarrow> string" where
  "PRVersion_String v = (if IsNum v then Itoa (unat (VersionNum v)) else VersionStr v)"

definition Version_String :: "version \<Rightarrow> string" where
  "Version_String v =
     Itoa (unat (Major v)) @ ''.'' @ Itoa (unat (Minor v)) @ ''.'' @ Itoa (unat (Patch v))
     @ (if length (Pre v) > 0 then ''-'' @ Join (map PRVersion_String (Pre v)) ''.'' else [])
     @ (if length (Build v) > 0 then ''+'' @ Join (Build v) ''.'' else [])"

section \<open>Parsing\<close>

definition is_alpha :: "char \<Rightarrow> bool" where
  "is_alpha c = (65 \<le> (of_char c :: nat) \<and> (of_char c :: nat) \<le> 90 \<or>
                 97 \<le> (of_char c :: nat) \<and> (of_char c :: nat) \<le> 122 \<or> c = CHR ''-'')"

definition is_alphanum :: "char \<Rightarrow> bool" where
  "is_alphanum c = (is_alpha c \<or> is_digit c)"

text \<open>\<open>containsOnly(s, numbers)\<close> and \<open>containsOnly(s, alphanum)\<close>.\<close>

definition only_numbers :: "string \<Rightarrow> bool" where "only_numbers s = list_all is_digit s"
definition only_alphanum :: "string \<Rightarrow> bool" where "only_alphanum s = list_all is_alphanum s"

definition hasLeadingZeroes :: "string \<Rightarrow> bool" where
  "hasLeadingZeroes s = (length s > 1 \<and> hd s = CHR ''0'')"

text \<open>\<open>strconv.ParseUint(s, 10, 64)\<close>.\<close>

definition ParseUint64 :: "string \<Rightarrow> u64 outcome" where
  "ParseUint64 s =
     (if s = [] \<or> \<not> only_numbers s then Err (errorf ''invalid syntax'' [s])
      else if digits_val s < 2 ^ 64 then Ok (of_nat (digits_val s))
      else Err (errorf ''value out of range'' [s]))"

text \<open>The three tests the parser makes on each of the major, minor and patch fields.\<close>

definition parse_field :: "string \<Rightarrow> string \<Rightarrow> u64 outcome" where
  "parse_field what s =
     (if \<not> only_numbers s then Err (errorf ''Invalid character(s) found in %s number %q'' [what, s])
      else if hasLeadingZeroes s then Err (errorf ''%s number must not contain leading zeroes %q'' [what, s])
      else ParseUint64 s)"

definition NewPRVersion :: "string \<Rightarrow> PRVersion outcome" where
  "NewPRVersion s =
     (if length s = 0 then Err (errorf ''Prerelease is empty'' [])
      else if only_numbers s then
        (if hasLeadingZeroes s
         then Err (errorf ''Numeric PreRelease version must not contain leading zeroes %q'' [s])
         else ok_map (\<lambda>n. \<lparr>VersionStr = [], VersionNum = n, IsNum = True\<rparr>) (ParseUint64 s))
      else if only_alphanum s then Ok \<lparr>VersionStr = s, VersionNum = 0, IsNum = False\<rparr>
      else Err (errorf ''Invalid character(s) found in prerelease %q'' [s]))"

definition check_build :: "string \<Rightarrow> string outcome" where
  "check_build s =
     (if length s = 0 then Err (errorf ''Build meta data is empty'' [])
      else if \<not> only_alphanum s then Err (errorf ''Invalid character(s) found in build meta data %q'' [s])
      else Ok s)"

definition Parse :: "string \<Rightarrow> version outcome" where
  "Parse s =
     (if length s = 0 then Err (errorf ''Version string empty'' [])
      else case SplitN s ''.'' 3 of
        [p0, p1, p2] \<Rightarrow>
          ok_bind (parse_field ''major'' p0) (\<lambda>major.
          ok_bind (parse_field ''minor'' p1) (\<lambda>minor.
            let (patch0, build) = (case Cut ''+'' p2 of None \<Rightarrow> (p2, []) | Some (a, b) \<Rightarrow> (a, Split b ''.''));
                (patchStr, prerelease) =
                  (case Cut ''-'' patch0 of None \<Rightarrow> (patch0, []) | Some (a, b) \<Rightarrow> (a, Split b ''.''))
            in
          ok_bind (parse_field ''patch'' patchStr) (\<lambda>patch.
          ok_bind (ok_mapM NewPRVersion prerelease) (\<lambda>pre.
          ok_bind (ok_mapM check_build build) (\<lambda>bld.
            Ok \<lparr>Major = major, Minor = minor, Patch = patch, Pre = pre, Build = bld\<rparr>)))))
      | _ \<Rightarrow> Err (errorf ''No Major.Minor.Patch elements found'' []))"

text \<open>Well-formed versions: what \<open>Parse\<close> can return.\<close>

definition valid_pre :: "PRVersion \<Rightarrow> bool" where
  "valid_pre p =
     (if IsNum p then VersionStr p = []
      else VersionNum p = 0 \<and> VersionStr p \<noteq> [] \<and> only_alphanum (VersionStr p) \<and> \<not> only_numbers (VersionStr p))"

definition valid_version :: "version \<Rightarrow> bool" where
  "valid_version v =
     (list_all valid_pre (Pre v) \<and> list_all (\<lambda>b. b \<noteq> [] \<and> only_alphanum b) (Build v))"

lemma parse_field_Itoa [simp]: "parse_field w (Itoa (unat (x :: u64))) = Ok x"
proof -
  have "only_numbers (Itoa (unat x))"
    by (auto simp: only_numbers_def list_all_iff Itoa_digits)
  moreover have "\<not> hasLeadingZeroes (Itoa (unat x))"
    by (cases "unat x = 0") (auto simp: hasLeadingZeroes_def Itoa_zero Itoa_hd)
  moreover have "unat x < 2 ^ LENGTH(64)" by (rule unsigned_less)
  ultimately show ?thesis by (simp add: parse_field_def ParseUint64_def)
qed

lemma is_digit_not_sep: "is_digit c \<Longrightarrow> c \<noteq> CHR ''.'' \<and> c \<noteq> CHR ''-'' \<and> c \<noteq> CHR ''+'' \<and> c \<noteq> CHR '' '' \<and> c \<noteq> CHR ''x''"
  by (auto simp: is_digit_def)

lemma is_alphanum_not_sep: "is_alphanum c \<Longrightarrow> c \<noteq> CHR ''.'' \<and> c \<noteq> CHR ''+'' \<and> c \<noteq> CHR '' ''"
  by (auto simp: is_alphanum_def is_alpha_def is_digit_def)

lemma Itoa_no_sep [simp]:
  "CHR ''.'' \<notin> set (Itoa n)" "CHR ''-'' \<notin> set (Itoa n)" "CHR ''+'' \<notin> set (Itoa n)"
  "CHR '' '' \<notin> set (Itoa n)" "CHR ''x'' \<notin> set (Itoa n)"
  using Itoa_digits is_digit_not_sep by blast+

lemma NewPRVersion_String: "valid_pre p \<Longrightarrow> NewPRVersion (PRVersion_String p) = Ok p"
proof (cases "IsNum p")
  case True
  assume "valid_pre p"
  with True have "VersionStr p = []" by (simp add: valid_pre_def)
  with True show ?thesis
    using parse_field_Itoa[of "''x''" "VersionNum p"]
    by (auto simp: NewPRVersion_def PRVersion_String_def parse_field_def split: if_splits)
next
  case False
  assume "valid_pre p"
  with False show ?thesis
    by (simp add: NewPRVersion_def PRVersion_String_def valid_pre_def)
qed

lemma PRVersion_String_chars:
  assumes "valid_pre p" and "c \<in> set (PRVersion_String p)"
  shows "is_alphanum c"
  using assms Itoa_digits[of c]
  by (auto simp: valid_pre_def PRVersion_String_def is_alphanum_def only_alphanum_def list_all_iff split: if_splits)

lemma set_Join: "set (Join xs sep) \<subseteq> \<Union> (set ` set xs) \<union> set sep"
  by (induction xs sep rule: Join.induct) auto

lemma Join_chars:
  assumes "c \<in> set (Join xs ''.'')" and "\<And>x. x \<in> set xs \<Longrightarrow> list_all is_alphanum x"
  shows "is_alphanum c \<or> c = CHR ''.''"
  using assms set_Join[of xs "''.''"] by (fastforce simp: list_all_iff)

lemma Join_no_plus:
  assumes "\<And>x. x \<in> set xs \<Longrightarrow> list_all is_alphanum x"
  shows "CHR ''+'' \<notin> set (Join xs ''.'')" and "CHR '' '' \<notin> set (Join xs ''.'')"
  using Join_chars[OF _ assms] is_alphanum_not_sep by fastforce+

text \<open>The part of a printed version after \<open>major.minor.\<close>.\<close>

definition patch_part :: "version \<Rightarrow> string" where
  "patch_part v =
     Itoa (unat (Patch v)) @ (if length (Pre v) > 0 then ''-'' @ Join (map PRVersion_String (Pre v)) ''.'' else [])"

lemma Version_String_patch:
  "Version_String v =
     Itoa (unat (Major v)) @ CHR ''.'' # Itoa (unat (Minor v)) @ CHR ''.'' # patch_part v
     @ (if length (Build v) > 0 then CHR ''+'' # Join (Build v) ''.'' else [])"
  by (simp add: Version_String_def patch_part_def)

lemma valid_pre_strings:
  "valid_version v \<Longrightarrow> x \<in> set (map PRVersion_String (Pre v)) \<Longrightarrow> list_all is_alphanum x"
  by (auto simp: valid_version_def list_all_iff PRVersion_String_chars)

lemma valid_build_strings:
  "valid_version v \<Longrightarrow> x \<in> set (Build v) \<Longrightarrow> list_all is_alphanum x"
  by (auto simp: valid_version_def list_all_iff only_alphanum_def)

lemma patch_part_no_plus: "valid_version v \<Longrightarrow> CHR ''+'' \<notin> set (patch_part v)"
  using Join_no_plus(1)[OF valid_pre_strings, of "map PRVersion_String (Pre v)" "\<lambda>_. v"]
  by (auto simp: patch_part_def)

lemma Cut_plus:
  "valid_version v \<Longrightarrow>
   Cut ''+'' (patch_part v @ (if length (Build v) > 0 then CHR ''+'' # Join (Build v) ''.'' else [])) =
   (if Build v = [] then None else Some (patch_part v, Join (Build v) ''.''))"
  using patch_part_no_plus[of v] by (auto simp: Cut_char)

lemma Cut_minus:
  "Cut ''-'' (patch_part v) =
   (if Pre v = [] then None else Some (Itoa (unat (Patch v)), Join (map PRVersion_String (Pre v)) ''.''))"
  by (auto simp: patch_part_def Cut_char)

lemma Split_dotted:
  assumes "xs \<noteq> []" and "\<And>x. x \<in> set xs \<Longrightarrow> list_all is_alphanum x"
  shows "Split (Join xs ''.'') ''.'' = xs"
  using assms is_alphanum_not_sep by (intro Split_Join_char) (auto simp: list_all_iff)

lemma SplitN_3: "SplitN s ''.'' 3 = (case Cut ''.'' s of None \<Rightarrow> [s] | Some (a, b) \<Rightarrow>
    a # (case Cut ''.'' b of None \<Rightarrow> [b] | Some (c, d) \<Rightarrow> [c, d]))"
  by (auto simp: numeral_3_eq_3 split: option.splits)

lemma Parse_Version_String:
  assumes v: "valid_version v"
  shows "Parse (Version_String v) = Ok v"
proof -
  let ?rest = "patch_part v @ (if length (Build v) > 0 then CHR ''+'' # Join (Build v) ''.'' else [])"
  have parts: "SplitN (Version_String v) ''.'' 3 = [Itoa (unat (Major v)), Itoa (unat (Minor v)), ?rest]"
    by (simp add: SplitN_3 Version_String_patch Cut_char)
  have pre: "ok_mapM NewPRVersion (map PRVersion_String (Pre v)) = Ok (Pre v)"
    using v by (auto simp: ok_mapM_eq_Ok list_all2_conv_all_nth valid_version_def list_all_length NewPRVersion_String)
  have bld: "ok_mapM check_build (Build v) = Ok (Build v)"
    using v by (auto simp: ok_mapM_eq_Ok list_all2_conv_all_nth valid_version_def list_all_length check_build_def)
  have "Version_String v \<noteq> []" by (simp add: Version_String_def)
  then show ?thesis
    using parts pre bld Cut_plus[OF v] Cut_minus[of v] v
      Split_dotted[of "map PRVersion_String (Pre v)"] Split_dotted[of "Build v"]
      valid_pre_strings[OF v] valid_build_strings[OF v]
    by (auto simp: Parse_def patch_part_def)
qed

lemma parse_field_only: "parse_field w s = Ok n \<Longrightarrow> s \<noteq> [] \<and> only_numbers s"
  by (auto simp: parse_field_def ParseUint64_def split: if_splits)

lemma NewPRVersion_valid: "NewPRVersion s = Ok p \<Longrightarrow> valid_pre p"
  by (auto simp: NewPRVersion_def valid_pre_def ok_map_eq_Ok split: if_splits)

lemma check_build_valid: "check_build s = Ok b \<Longrightarrow> b \<noteq> [] \<and> only_alphanum b"
  by (auto simp: check_build_def split: if_splits)

lemma ok_mapM_all:
  assumes "ok_mapM f xs = Ok ys" and "\<And>x y. f x = Ok y \<Longrightarrow> P y"
  shows "list_all P ys"
  using assms unfolding ok_mapM_eq_Ok
  by (auto simp: list_all_length list_all2_conv_all_nth)

lemma Parse_valid:
  assumes "Parse s = Ok v"
  shows "valid_version v"
proof -
  from assms obtain pre bld xs ys where
    "ok_mapM NewPRVersion xs = Ok pre" "ok_mapM check_build ys = Ok bld" "Pre v = pre" "Build v = bld"
    by (auto simp: Parse_def ok_bind_eq_Ok Let_def split_def split: if_splits list.splits)
  then show ?thesis
    using ok_mapM_all[of NewPRVersion xs pre valid_pre] NewPRVersion_valid
      ok_mapM_all[of check_build ys bld "\<lambda>b. b \<noteq> [] \<and> only_alphanum b"] check_build_valid
    by (simp add: valid_version_def)
qed

section \<open>Ranges\<close>

text \<open>A range is a predicate on versions; the zero value of the Go type is a nil function, whose
  call panics.\<close>

type_synonym range = "version \<Rightarrow> bool outcome"

definition Range_OR :: "range \<Rightarrow> range \<Rightarrow> range" where
  "Range_OR r f v = ok_bind (r v) (\<lambda>b. if b then Ok True else f v)"

definition Range_AND :: "range \<Rightarrow> range \<Rightarrow> range" where
  "Range_AND r f v = ok_bind (r v) (\<lambda>b. if b then f v else Ok False)"

definition nil_range :: range where
  "nil_range v = Panic ''nil Range called''"

definition parseComparator :: "string \<Rightarrow> (version \<Rightarrow> version \<Rightarrow> bool) option" where
  "parseComparator s =
     (if s = ''=='' \<or> s = [] \<or> s = ''='' then Some (\<lambda>v w. Compare v w = 0)
      else if s = ''>'' then Some (\<lambda>v w. Compare v w = 1)
      else if s = ''>='' then Some (\<lambda>v w. Compare v w \<ge> 0)
      else if s = ''<'' then Some (\<lambda>v w. Compare v w = -1)
      else if s = ''<='' then Some (\<lambda>v w. Compare v w \<le> 0)
      else if s = ''!'' \<or> s = ''!='' then Some (\<lambda>v w. Compare v w \<noteq> 0)
      else None)"

definition buildVersionRange :: "string \<Rightarrow> string \<Rightarrow> range outcome" where
  "buildVersionRange opStr vStr =
     (case parseComparator opStr of
        None \<Rightarrow> Err (errorf ''Could not parse comparator %q in %q'' [opStr, opStr @ vStr])
      | Some c \<Rightarrow>
          (case Parse vStr of
             Ok v \<Rightarrow> Ok (\<lambda>u. Ok (c u v))
           | Err e \<Rightarrow> Err (Errorf ''Could not parse version %q in %q: %s'' [vStr, opStr @ vStr] [e])
           | Panic p \<Rightarrow> Panic p))"

text \<open>\<open>splitAndTrim\<close>: the loop over the bytes with its variables \<open>i\<close>, \<open>last\<close>, \<open>lastChar\<close> and
  \<open>result\<close>; the test \<open>last < i-1\<close> is on signed integers.\<close>

fun splitAndTrim_loop :: "string \<Rightarrow> string \<Rightarrow> nat \<Rightarrow> nat \<Rightarrow> char option \<Rightarrow> string list \<Rightarrow> nat \<times> string list" where
  "splitAndTrim_loop s [] i lst lastChar result = (lst, result)"
| "splitAndTrim_loop s (c # cs) i lst lastChar result =
     (if c = CHR '' '' \<and> lastChar \<notin> {Some (CHR ''>''), Some (CHR ''<''), Some (CHR ''='')} then
        splitAndTrim_loop s cs (Suc i) (Suc i) lastChar
          (if lst + 1 < i then result @ [take (i - lst) (drop lst s)] else result)
      else splitAndTrim_loop s cs (Suc i) lst (if c \<noteq> CHR '' '' then Some c else lastChar) result)"

definition splitAndTrim :: "string \<Rightarrow> string list" where
  "splitAndTrim s =
     (case splitAndTrim_loop s s 0 0 None [] of
        (lst, result) \<Rightarrow>
          map (\<lambda>v. ReplaceAll v '' '' [])
            (if lst + 1 < length s then result @ [drop lst s] else result))"

fun splitORParts_loop :: "string list \<Rightarrow> string list \<Rightarrow> nat \<Rightarrow> nat \<Rightarrow> string list list \<Rightarrow> (nat \<times> string list list) outcome" where
  "splitORParts_loop parts [] i lst acc = Ok (lst, acc)"
| "splitORParts_loop parts (p # ps) i lst acc =
     (if p = ''||'' then
        (if i = 0 then Err (errorf ''First element in range is ||'' [])
         else splitORParts_loop parts ps (Suc i) (Suc i) (acc @ [take (i - lst) (drop lst parts)]))
      else splitORParts_loop parts ps (Suc i) lst acc)"

definition splitORParts :: "string list \<Rightarrow> string list list outcome" where
  "splitORParts parts =
     ok_bind (splitORParts_loop parts parts 0 0 []) (\<lambda>(lst, acc).
       if lst = length parts then Err (errorf ''Last element in range is ||'' [])
       else Ok (acc @ [drop lst parts]))"

text \<open>\<open>splitComparatorVersion\<close>: the bytes before the first decimal digit are the operator.  The
  operators contain no white space once \<open>splitAndTrim\<close> has removed the spaces.\<close>

definition splitComparatorVersion :: "string \<Rightarrow> (string \<times> string) outcome" where
  "splitComparatorVersion s =
     (if list_all (\<lambda>c. \<not> is_digit c) s then Err (errorf ''Could not get version from string: %q'' [s])
      else Ok (takeWhile (\<lambda>c. \<not> is_digit c) s, dropWhile (\<lambda>c. \<not> is_digit c) s))"

datatype wildcardType = noneWildcard | majorWildcard | minorWildcard | patchWildcard

definition getWildcardType :: "string \<Rightarrow> wildcardType" where
  "getWildcardType vStr =
     (let parts = Split vStr ''.''
      in if last parts = ''x''
         then (if length parts = 1 then majorWildcard else if length parts = 2 then minorWildcard
               else if length parts = 3 then patchWildcard else noneWildcard)
         else noneWildcard)"

definition createVersionFromWildcard :: "string \<Rightarrow> string" where
  "createVersionFromWildcard vStr =
     (let vStr2 = Replace1 (Replace1 vStr ''.x.x'' ''.x'') ''.x'' ''.0''
      in if length (Split vStr2 ''.'') = 2 then vStr2 @ ''.0'' else vStr2)"

text \<open>\<open>strconv.Atoi\<close> and \<open>strconv.Itoa\<close> on 64-bit integers.\<close>

definition Atoi :: "string \<Rightarrow> int outcome" where
  "Atoi s =
     (let neg = (s \<noteq> [] \<and> hd s = CHR ''-'');
          ds = (if s \<noteq> [] \<and> (hd s = CHR ''-'' \<or> hd s = CHR ''+'') then tl s else s)
      in if ds = [] \<or> \<not> only_numbers ds then Err (errorf ''invalid syntax'' [s])
         else if digits_val ds < 2 ^ 63 \<or> neg \<and> digits_val ds = 2 ^ 63
         then Ok (if neg then - int (digits_val ds) else int (digits_val ds))
         else Err (errorf ''value out of range'' [s]))"

definition Itoa_int :: "int \<Rightarrow> string" where
  "Itoa_int i = (if i < 0 then ''-'' @ Itoa (nat (- i)) else Itoa (nat i))"

text \<open>\<open>i + 1\<close> wraps around; when the field is no number the caller drops the error and keeps the empty string.\<close>

definition increment_field :: "nat \<Rightarrow> string \<Rightarrow> string" where
  "increment_field k vStr =
     (let parts = Split vStr ''.''
      in case Atoi (parts ! k) of
           Ok i \<Rightarrow> Join (parts[k := Itoa_int (if i = 2 ^ 63 - 1 then - (2 ^ 63) else i + 1)]) ''.''
         | _ \<Rightarrow> [])"

definition expand_part :: "string \<Rightarrow> string list outcome" where
  "expand_part ap =
     (if \<not> Contains ap ''x'' then Ok [ap]
      else ok_bind (splitComparatorVersion ap) (\<lambda>(opStr, vStr).
        let wt = getWildcardType vStr;
            flat = createVersionFromWildcard vStr;
            (extra, resOp, inc) =
              (if opStr = ''>'' then ([], ''>='', True)
               else if opStr = ''>='' then ([], ''>='', False)
               else if opStr = ''<'' then ([], ''<'', False)
               else if opStr = ''<='' then ([], ''<'', True)
               else if opStr \<in> {[], ''='', ''==''} then ([''>='' @ flat], ''<'', True)
               else if opStr \<in> {''!='', ''!''} then ([''<'' @ flat], ''>='', True)
               else ([], [], False));
            resV = (if inc then (case wt of patchWildcard \<Rightarrow> increment_field 1 flat
                                 | minorWildcard \<Rightarrow> increment_field 0 flat | _ \<Rightarrow> [])
                    else flat)
        in Ok (extra @ [resOp @ resV])))"

definition expandWildcardVersion :: "string list list \<Rightarrow> string list list outcome" where
  "expandWildcardVersion parts = ok_mapM (\<lambda>p. ok_map concat (ok_mapM expand_part p)) parts"

fun and_parts :: "string list \<Rightarrow> range option \<Rightarrow> range option outcome" where
  "and_parts [] andFn = Ok andFn"
| "and_parts (ap # aps) andFn =
     ok_bind (splitComparatorVersion ap) (\<lambda>(opStr, vStr).
     ok_bind (map_err (\<lambda>e. Errorf ''Could not parse Range %q: %s'' [ap] [e]) (buildVersionRange opStr vStr)) (\<lambda>rf.
       and_parts aps (Some (case andFn of None \<Rightarrow> rf | Some g \<Rightarrow> Range_AND g rf))))"

fun or_parts :: "string list list \<Rightarrow> range option \<Rightarrow> range option outcome" where
  "or_parts [] orFn = Ok orFn"
| "or_parts (p # ps) orFn =
     ok_bind (and_parts p None) (\<lambda>andFn.
       or_parts ps (case orFn of None \<Rightarrow> andFn
                    | Some g \<Rightarrow> Some (Range_OR g (case andFn of None \<Rightarrow> nil_range | Some a \<Rightarrow> a))))"

definition ParseRange :: "string \<Rightarrow> range outcome" where
  "ParseRange s =
     ok_bind (splitORParts (splitAndTrim s)) (\<lambda>orParts.
     ok_bind (expandWildcardVersion orParts) (\<lambda>expanded.
     ok_map (\<lambda>r. case r of None \<Rightarrow> nil_range | Some f \<Rightarrow> f) (or_parts expanded None)))"

subsection \<open>The ranges the release code builds\<close>

lemma splitAndTrim_loop_nospace:
  "CHR '' '' \<notin> set cs \<Longrightarrow> splitAndTrim_loop s cs i lst lc r = (lst, r)"
  by (induction s cs i lst lc r rule: splitAndTrim_loop.induct) auto

lemma ReplaceAll_notin: "c \<notin> set s \<Longrightarrow> ReplaceAll s [c] new = s"
  by (simp add: ReplaceAll_def Split_char_notin)

lemma splitAndTrim_nospace:
  "CHR '' '' \<notin> set s \<Longrightarrow> 1 < length s \<Longrightarrow> splitAndTrim s = [s]"
  by (simp add: splitAndTrim_def splitAndTrim_loop_nospace ReplaceAll_notin)

lemma Version_String_chars:
  assumes "valid_version v"
  shows "CHR '' '' \<notin> set (Version_String v)"
  using Join_no_plus(2)[of "map PRVersion_String (Pre v)"] Join_no_plus(2)[of "Build v"]
    valid_pre_strings[OF assms] valid_build_strings[OF assms]
  by (auto simp: Version_String_def)

lemma Version_String_Cons:
  obtains c cs where "Version_String v = c # cs" and "is_digit c"
proof -
  obtain c cs where "Itoa (unat (Major v)) = c # cs" by (cases "Itoa (unat (Major v))") auto
  moreover from this have "is_digit c" using Itoa_digits[of c "unat (Major v)"] by simp
  ultimately show thesis using that[of c] by (simp add: Version_String_def)
qed

lemma splitComparatorVersion_version:
  assumes "list_all (\<lambda>c. \<not> is_digit c) opr"
  shows "splitComparatorVersion (opr @ Version_String v) = Ok (opr, Version_String v)"
proof -
  obtain c cs where v: "Version_String v = c # cs" "is_digit c" by (rule Version_String_Cons)
  from assms have "\<forall>x\<in>set opr. \<not> is_digit x" by (simp add: list_all_iff)
  with v show ?thesis
    by (auto simp: splitComparatorVersion_def takeWhile_append2 dropWhile_append2)
qed

lemma ParseRange_single:
  assumes v: "valid_version v" and x: "CHR ''x'' \<notin> set (Version_String v)"
    and opr: "parseComparator opr = Some c" "list_all (\<lambda>c. \<not> is_digit c) opr"
      "CHR '' '' \<notin> set opr" "CHR ''x'' \<notin> set opr" "opr \<noteq> []"
  shows "ParseRange (opr @ Version_String v) = Ok (\<lambda>u. Ok (c u v))"
proof -
  let ?s = "opr @ Version_String v"
  obtain d ds where d: "Version_String v = d # ds" "is_digit d" by (rule Version_String_Cons)
  have len: "1 < length ?s" using opr(5) d by (cases opr) auto
  have bars: "?s \<noteq> ''||''"
    using d opr(5) by (cases opr; cases "tl opr") (auto simp: is_digit_def)
  have "splitAndTrim ?s = [?s]"
    using Version_String_chars[OF v] opr(3) len by (intro splitAndTrim_nospace) auto
  moreover have "splitORParts [?s] = Ok [[?s]]"
    using bars by (simp add: splitORParts_def)
  moreover have "expandWildcardVersion [[?s]] = Ok [[?s]]"
    using x opr(4) by (simp add: expandWildcardVersion_def expand_part_def)
  ultimately show ?thesis
    using opr(1,2) Parse_Version_String[OF v]
    by (simp add: ParseRange_def splitComparatorVersion_version buildVersionRange_def)
qed

lemma ParseRange_GE:
  "valid_version v \<Longrightarrow> CHR ''x'' \<notin> set (Version_String v) \<Longrightarrow>
   ParseRange (''>='' @ Version_String v) = Ok (\<lambda>u. Ok (Compare u v \<ge> 0))"
  by (rule ParseRange_single) (simp_all add: parseComparator_def is_digit_def)

lemma ParseRange_LE:
  "valid_version v \<Longrightarrow> CHR ''x'' \<notin> set (Version_String v) \<Longrightarrow>
   ParseRange (''<='' @ Version_String v) = Ok (\<lambda>u. Ok (Compare u v \<le> 0))"
  by (rule ParseRange_single) (simp_all add: parseComparator_def is_digit_def)

text \<open>C27: a version that has been read is printed as a text that reads as the same version, with its pre-release and build
  identifiers; so the versions the program writes into a configuration are those it reads from it.\<close>

theorem version_roundtrip:
  assumes "Parse s = Ok v"
  shows "Parse (Version_String v) = Ok v"
  by (rule Parse_Version_String[OF Parse_valid[OF assms]])

definition demo_rc :: version where
  "demo_rc = \<lparr>Major = 4, Minor = 12, Patch = 0,
     Pre = [\<lparr>VersionStr = ''rc'', VersionNum = 0, IsNum = False\<rparr>, \<lparr>VersionStr = [], VersionNum = 1, IsNum = True\<rparr>], Build = [''git'', ''01'']\<rparr>"

theorem version_roundtrip_witness:
  "Parse ''4.12.0-rc.1+git.01'' = Ok demo_rc \<and> Parse (Version_String demo_rc) = Ok demo_rc"
proof -
  have t: "Version_String demo_rc = ''4.12.0-rc.1+git.01''" by code_simp
  have "valid_version demo_rc" by code_simp
  then have p: "Parse ''4.12.0-rc.1+git.01'' = Ok demo_rc" using Parse_Version_String[of demo_rc] t by (simp only:)
  show ?thesis using p version_roundtrip[OF p] by (rule conjI)
qed

end
