(* ===== verification/Api_V1alpha2.thy ===== *)
theory Api_V1alpha2
  imports Go_Prelude
begin

text \<open>
  Package \<open>pkg/api/v1alpha2\<close>: the image set configuration, its metadata and the two string
  enumerations with their JSON methods.  Structs are records whose fields carry a short prefix (Go
  allows the same field name in several structs, HOL does not); an embedded struct is a field of its
  own.  Enumerations are Go \<open>int\<close>s, so values outside the declared constants are
  representable, as in the source.

  Results: the enumeration codecs round-trip on every declared constant, an undeclared platform name
  decodes to \<open>TypeOCP\<close>, and \<open>Association.Validate\<close> accepts exactly the associations with one
  kind of child and a name to find them by.
\<close>

section \<open>JSON values\<close>

text \<open>The values \<open>encoding/json\<close> hands to a custom \<open>UnmarshalJSON\<close> method.  A number that
  is not an integer literal keeps its text.\<close>

datatype json =
    JNull
  | JBool bool
  | JNum int
  | JFrac string
  | JStr string
  | JArr "json list"
  | JObj "(string \<times> json) list"

definition unmarshal_error :: error where
  "unmarshal_error = errorf ''json: cannot unmarshal value into Go value'' []"

text \<open>\<open>json.Unmarshal\<close> into a string and into an int: \<open>null\<close> leaves the zero value.\<close>

fun dec_string :: "json \<Rightarrow> string outcome" where
  "dec_string JNull = Ok []"
| "dec_string (JStr s) = Ok s"
| "dec_string _ = Err unmarshal_error"

fun dec_int :: "json \<Rightarrow> int outcome" where
  "dec_int JNull = Ok 0"
| "dec_int (JNum n) = (if - (2 ^ 63) \<le> n \<and> n < 2 ^ 63 then Ok n else Err unmarshal_error)"
| "dec_int _ = Err unmarshal_error"

fun dec_list :: "(json \<Rightarrow> 'a outcome) \<Rightarrow> json \<Rightarrow> 'a list outcome" where
  "dec_list f JNull = Ok []"
| "dec_list f (JArr js) = ok_mapM f js"
| "dec_list f _ = Err unmarshal_error"

section \<open>Platform types (type_platform.go)\<close>

definition DefaultPlatformArchitecture :: string where
  "DefaultPlatformArchitecture = ''amd64''"

type_synonym PlatformType = int

definition TypeOCP :: PlatformType where "TypeOCP = 0"
definition TypeOKD :: PlatformType where "TypeOKD = 1"

definition platformTypeStrings :: "(PlatformType \<times> string) list" where
  "platformTypeStrings = [(TypeOCP, ''ocp''), (TypeOKD, ''okd'')]"

definition platformStringsType :: "(string \<times> PlatformType) list" where
  "platformStringsType = [(''ocp'', TypeOCP), (''okd'', TypeOKD)]"

definition PlatformType_String :: "PlatformType \<Rightarrow> string" where
  "PlatformType_String pt = map_get [] platformTypeStrings pt"

definition PlatformType_validate :: "PlatformType \<Rightarrow> error option" where
  "PlatformType_validate pt =
     (if \<not> map_has platformTypeStrings pt then Some (errorf ''unknown platform type'' []) else None)"

definition PlatformType_MarshalJSON :: "PlatformType \<Rightarrow> json outcome" where
  "PlatformType_MarshalJSON pt =
     (case PlatformType_validate pt of Some e \<Rightarrow> Err e | None \<Rightarrow> Ok (JStr (PlatformType_String pt)))"

definition PlatformType_UnmarshalJSON :: "json \<Rightarrow> PlatformType outcome" where
  "PlatformType_UnmarshalJSON b = ok_bind (dec_string b) (\<lambda>j. Ok (map_get 0 platformStringsType j))"

section \<open>Image types and associations (type_image.go)\<close>

type_synonym ImageType = int

definition TypeInvalid :: ImageType where "TypeInvalid = 0"
definition TypeOCPRelease :: ImageType where "TypeOCPRelease = 1"
definition TypeOCPReleaseContent :: ImageType where "TypeOCPReleaseContent = 2"
definition TypeCincinnatiGraph :: ImageType where "TypeCincinnatiGraph = 3"
definition TypeOperatorCatalog :: ImageType where "TypeOperatorCatalog = 4"
definition TypeOperatorBundle :: ImageType where "TypeOperatorBundle = 5"
definition TypeOperatorRelatedImage :: ImageType where "TypeOperatorRelatedImage = 6"
definition TypeGeneric :: ImageType where "TypeGeneric = 7"

lemmas image_type_defs = TypeInvalid_def TypeOCPRelease_def TypeOCPReleaseContent_def
  TypeCincinnatiGraph_def TypeOperatorCatalog_def TypeOperatorBundle_def
  TypeOperatorRelatedImage_def TypeGeneric_def

definition imageTypeStrings :: "(ImageType \<times> string) list" where
  "imageTypeStrings =
     [(TypeOCPReleaseContent, ''ocpReleaseContent''),
      (TypeCincinnatiGraph, ''cincinnatiGraph''),
      (TypeOCPRelease, ''ocpRelease''),
      (TypeOperatorCatalog, ''operatorCatalog''),
      (TypeOperatorBundle, ''operatorBundle''),
      (TypeOperatorRelatedImage, ''operatorRelatedImage''),
      (TypeGeneric, ''generic'')]"

definition imageStringsType :: "(string \<times> ImageType) list" where
  "imageStringsType =
     [(''ocpReleaseContent'', TypeOCPReleaseContent),
      (''cincinnatiGraph'', TypeCincinnatiGraph),
      (''ocpRelease'', TypeOCPRelease),
      (''operatorCatalog'', TypeOperatorCatalog),
      (''operatorBundle'', TypeOperatorBundle),
      (''operatorRelatedImage'', TypeOperatorRelatedImage),
      (''generic'', TypeGeneric)]"

definition ImageType_String :: "ImageType \<Rightarrow> string" where
  "ImageType_String it = map_get [] imageTypeStrings it"

definition ImageType_validate :: "ImageType \<Rightarrow> error option" where
  "ImageType_validate it =
     (if map_has imageTypeStrings it then None
      else if it = TypeInvalid then Some (errorf ''must set image type'' [])
      else Some (errorf ''unknown image type %v'' []))"

definition ImageType_MarshalJSON :: "ImageType \<Rightarrow> json outcome" where
  "ImageType_MarshalJSON it =
     (case ImageType_validate it of Some e \<Rightarrow> Err e | None \<Rightarrow> Ok (JStr (ImageType_String it)))"

definition ImageType_UnmarshalJSON :: "json \<Rightarrow> ImageType outcome" where
  "ImageType_UnmarshalJSON b = ok_bind (dec_string b) (\<lambda>j. Ok (map_get 0 imageStringsType j))"

record Association =
  as_Name :: string
  as_Path :: string
  as_ID :: string
  as_TagSymlink :: string
  as_Type :: ImageType
  as_ManifestDigests :: "string list"
  as_LayerDigests :: "string list"

definition Association_Validate :: "Association \<Rightarrow> error option" where
  "Association_Validate a =
     (if length (as_ManifestDigests a) \<noteq> 0 \<and> length (as_LayerDigests a) \<noteq> 0 then
        Some (errorf ''image %q: child descriptors cannot contain both manifests and image layers'' [as_Name a])
      else if length (as_ManifestDigests a) = 0 \<and> length (as_LayerDigests a) = 0 then
        Some (errorf ''image %q: child descriptors must contain at least one manifest or image layer'' [as_Name a])
      else if as_ID a = [] \<and> as_TagSymlink a = [] then
        Some (errorf ''image %q: tag or ID must be set'' [as_Name a])
      else ImageType_validate (as_Type a))"

section \<open>Package selection (type_config_include.go)\<close>

record IncludeBundle =
  ib_MinVersion :: string
  ib_MaxVersion :: string
  ib_MinBundle :: string

record IncludeChannel =
  ic_Name :: string
  ic_IncludeBundle :: IncludeBundle

record IncludePackage =
  ip_Name :: string
  ip_Channels :: "IncludeChannel list"
  ip_IncludeBundle :: IncludeBundle

record IncludeConfig =
  inc_Packages :: "IncludePackage list"

section \<open>Storage (types_storage_config.go)\<close>

record RegistryConfig =
  rg_ImageURL :: string
  rg_SkipTLS :: bool

record LocalConfig =
  lc_Path :: string

text \<open>The two fields are pointers: \<open>None\<close> is nil.\<close>

record StorageConfig =
  st_Registry :: "RegistryConfig option"
  st_Local :: "LocalConfig option"

definition StorageConfig_IsSet :: "StorageConfig \<Rightarrow> bool" where
  "StorageConfig_IsSet s = (if st_Registry s \<noteq> None \<or> st_Local s \<noteq> None then True else False)"

section \<open>The image set configuration (types_config.go, register.go)\<close>

record ReleaseChannel =
  rc_Name :: string
  rc_Type :: PlatformType
  rc_MinVersion :: string
  rc_MaxVersion :: string
  rc_ShortestPath :: bool
  rc_Full :: bool

definition ReleaseChannel_IsHeadsOnly :: "ReleaseChannel \<Rightarrow> bool" where
  "ReleaseChannel_IsHeadsOnly r = (\<not> rc_Full r)"

record Platform =
  pf_Graph :: bool
  pf_Channels :: "ReleaseChannel list"
  pf_Architectures :: "string list"
  pf_Release :: string

record Operator =
  op_IncludeConfig :: IncludeConfig
  op_Catalog :: string
  op_TargetName :: string
  op_TargetTag :: string
  op_Full :: bool
  op_SkipDependencies :: bool
  op_OriginalRef :: string

abbreviation op_Packages :: "Operator \<Rightarrow> IncludePackage list" where
  "op_Packages o' \<equiv> inc_Packages (op_IncludeConfig o')"

definition Operator_IsHeadsOnly :: "Operator \<Rightarrow> bool" where
  "Operator_IsHeadsOnly o' = (\<not> op_Full o')"

definition Operator_IsFBCOCI :: "Operator \<Rightarrow> bool" where
  "Operator_IsFBCOCI o' = HasPrefix (op_Catalog o') ''oci:''"

text \<open>The fields of \<open>reference.DockerImageReference\<close> (library-go); \<open>ref_parse\<close> and
  \<open>ref_exact\<close> stand for its \<open>Parse\<close> and \<open>Exact\<close>.\<close>

record DockerImageReference =
  dr_Registry :: string
  dr_Namespace :: string
  dr_Name :: string
  dr_Tag :: string
  dr_ID :: string

definition Operator_GetUniqueName ::
  "(string \<Rightarrow> DockerImageReference outcome) \<Rightarrow> (DockerImageReference \<Rightarrow> string) \<Rightarrow> Operator \<Rightarrow> string outcome" where
  "Operator_GetUniqueName ref_parse ref_exact o' =
     (let ctlgRef = (if Operator_IsFBCOCI o'
                     then TrimPrefix (TrimPrefix (TrimPrefix (op_Catalog o') ''oci:'') ''//'') ''/''
                     else op_Catalog o')
      in if op_TargetName o' = [] \<and> op_TargetTag o' = [] then Ok ctlgRef
         else ok_bind (map_err (\<lambda>e. Errorf ''error parsing source catalog %s: %v'' [] [e]) (ref_parse ctlgRef)) (\<lambda>r.
           let r1 = (if op_TargetName o' \<noteq> [] then r\<lparr>dr_Name := op_TargetName o'\<rparr> else r);
               r2 = (if op_TargetTag o' \<noteq> [] then r1\<lparr>dr_ID := [], dr_Tag := op_TargetTag o'\<rparr> else r1)
           in Ok (ref_exact r2)))"

record Chart =
  ch_Name :: string
  ch_Version :: string
  ch_Path :: string
  ch_ImagePaths :: "string list"

record Repository =
  rp_URL :: string
  rp_Name :: string
  rp_Charts :: "Chart list"

record Helm =
  hm_Repositories :: "Repository list"
  hm_Local :: "Chart list"

record Image =
  im_Name :: string

record SampleImages =
  sm_Image :: Image

record Mirror =
  mi_Platform :: Platform
  mi_Operators :: "Operator list"
  mi_AdditionalImages :: "Image list"
  mi_Helm :: Helm
  mi_BlockedImages :: "Image list"
  mi_Samples :: "SampleImages list"

record ImageSetConfigurationSpec =
  sp_Mirror :: Mirror
  sp_ArchiveSize :: int
  sp_StorageConfig :: StorageConfig

record TypeMeta =
  tm_Kind :: string
  tm_APIVersion :: string

record ImageSetConfiguration =
  isc_TypeMeta :: TypeMeta
  isc_Spec :: ImageSetConfigurationSpec

definition ImageSetConfigurationKind :: string where
  "ImageSetConfigurationKind = ''ImageSetConfiguration''"

definition MetadataKind :: string where
  "MetadataKind = ''Metadata''"

record GroupVersionKind =
  gvk_Group :: string
  gvk_Version :: string
  gvk_Kind :: string

text \<open>\<open>GroupVersion.WithKind(k)\<close> and \<open>GroupVersion.String()\<close> for the package's group and version.\<close>

definition GroupVersion_WithKind :: "string \<Rightarrow> GroupVersionKind" where
  "GroupVersion_WithKind k = \<lparr>gvk_Group = ''mirror.openshift.io'', gvk_Version = ''v1alpha2'', gvk_Kind = k\<rparr>"

definition GroupVersion_String :: string where
  "GroupVersion_String = ''mirror.openshift.io/v1alpha2''"

text \<open>Field paths the program writes out.\<close>

abbreviation cfg_Mirror :: "ImageSetConfiguration \<Rightarrow> Mirror" where
  "cfg_Mirror c \<equiv> sp_Mirror (isc_Spec c)"

abbreviation cfg_Platform :: "ImageSetConfiguration \<Rightarrow> Platform" where
  "cfg_Platform c \<equiv> mi_Platform (cfg_Mirror c)"

abbreviation cfg_Channels :: "ImageSetConfiguration \<Rightarrow> ReleaseChannel list" where
  "cfg_Channels c \<equiv> pf_Channels (cfg_Platform c)"

abbreviation cfg_Operators :: "ImageSetConfiguration \<Rightarrow> Operator list" where
  "cfg_Operators c \<equiv> mi_Operators (cfg_Mirror c)"

abbreviation cfg_AdditionalImages :: "ImageSetConfiguration \<Rightarrow> Image list" where
  "cfg_AdditionalImages c \<equiv> mi_AdditionalImages (cfg_Mirror c)"

definition set_Platform :: "(Platform \<Rightarrow> Platform) \<Rightarrow> ImageSetConfiguration \<Rightarrow> ImageSetConfiguration" where
  "set_Platform f c =
     c\<lparr>isc_Spec := (isc_Spec c)\<lparr>sp_Mirror := (cfg_Mirror c)\<lparr>mi_Platform := f (cfg_Platform c)\<rparr>\<rparr>\<rparr>"

lemma set_Platform_sel [simp]:
  "cfg_Platform (set_Platform f c) = f (cfg_Platform c)"
  "cfg_Operators (set_Platform f c) = cfg_Operators c"
  "cfg_AdditionalImages (set_Platform f c) = cfg_AdditionalImages c"
  "isc_TypeMeta (set_Platform f c) = isc_TypeMeta c"
  by (simp_all add: set_Platform_def)

text \<open>The zero value of the struct, which a failed read returns.\<close>

definition zero_config :: ImageSetConfiguration where
  "zero_config =
     \<lparr>isc_TypeMeta = \<lparr>tm_Kind = [], tm_APIVersion = []\<rparr>,
      isc_Spec = \<lparr>sp_Mirror = \<lparr>mi_Platform = \<lparr>pf_Graph = False, pf_Channels = [], pf_Architectures = [], pf_Release = []\<rparr>,
                              mi_Operators = [], mi_AdditionalImages = [],
                              mi_Helm = \<lparr>hm_Repositories = [], hm_Local = []\<rparr>, mi_BlockedImages = [], mi_Samples = []\<rparr>,
                  sp_ArchiveSize = 0, sp_StorageConfig = \<lparr>st_Registry = None, st_Local = None\<rparr>\<rparr>\<rparr>"

section \<open>Metadata (type_metadata.go)\<close>

record OperatorMetadata =
  om_Catalog :: string
  om_ImagePin :: string
  om_IncludeConfig :: IncludeConfig

record PlatformMetadata =
  pm_ReleaseChannel :: string
  pm_MinVersion :: string

record PastMirror =
  pa_Timestamp :: int
  pa_Sequence :: int
  pa_Mirror :: Mirror
  pa_Operators :: "OperatorMetadata list"
  pa_Platforms :: "PlatformMetadata list"
  pa_Associations :: "Association list"

text \<open>A UUID is kept as its text form.\<close>

record MetadataSpec =
  md_Uid :: string
  md_SingleUse :: bool
  md_PastMirror :: PastMirror
  md_PastAssociations :: "Association list"

record Metadata =
  me_TypeMeta :: TypeMeta
  me_Spec :: MetadataSpec

definition zero_MetadataSpec :: MetadataSpec where
  "zero_MetadataSpec =
     \<lparr>md_Uid = ''00000000-0000-0000-0000-000000000000'', md_SingleUse = False,
      md_PastMirror = \<lparr>pa_Timestamp = 0, pa_Sequence = 0, pa_Mirror = cfg_Mirror zero_config,
                       pa_Operators = [], pa_Platforms = [], pa_Associations = []\<rparr>,
      md_PastAssociations = []\<rparr>"

definition NewMetadata :: Metadata where
  "NewMetadata =
     \<lparr>me_TypeMeta = \<lparr>tm_Kind = MetadataKind, tm_APIVersion = GroupVersion_String\<rparr>, me_Spec = zero_MetadataSpec\<rparr>"

section \<open>Encoding of the include configuration (type_config_include.go)\<close>

text \<open>\<open>enc\<close> and \<open>dec\<close> stand for \<open>encoding/gob\<close> on a writer and on a reader; \<open>dec\<close> gets the value it
  decodes into, whose fields it may keep, and returns the value as it leaves it.\<close>

definition IncludeConfig_Encode :: "(IncludeConfig \<Rightarrow> ('w, unit) go) \<Rightarrow> IncludeConfig \<Rightarrow> ('w, unit) go" where
  "IncludeConfig_Encode enc ic = go_map_err (\<lambda>err. Errorf ''error encoding include config: %v'' [] [err]) (enc ic)"

definition IncludeConfig_Decode ::
  "(IncludeConfig \<Rightarrow> 'r \<Rightarrow> error option \<times> IncludeConfig \<times> 'r) \<Rightarrow> IncludeConfig \<Rightarrow> 'r \<Rightarrow> error option \<times> IncludeConfig \<times> 'r" where
  "IncludeConfig_Decode dec ic r =
     (case dec ic r of
        (Some err, ic', r') \<Rightarrow> (Some (Errorf ''error decoding include config: %v'' [] [err]), ic', r')
      | (None, ic', r') \<Rightarrow> (None, ic', r'))"

section \<open>Inlined index (type_metadata.go)\<close>

text \<open>The bytes of a \<open>json.RawMessage\<close>; its \<open>UnmarshalJSON\<close> stores a copy of any data.  \<open>Write\<close> returns
  the number of bytes, no error, and the new value.\<close>

type_synonym InlinedIndex = string

definition RawMessage_UnmarshalJSON :: "string \<Rightarrow> string outcome" where
  "RawMessage_UnmarshalJSON data = Ok data"

definition InlinedIndex_Write :: "string \<Rightarrow> (InlinedIndex, int) go" where
  "InlinedIndex_Write data index =
     (case RawMessage_UnmarshalJSON data of
        Ok msg \<Rightarrow> (Ok (int (length data)), msg)
      | Err err \<Rightarrow> (Err err, index)
      | Panic m \<Rightarrow> (Panic m, index))"

text \<open>\<open>json.Marshal\<close> of a value whose type has the method \<open>MarshalJSON\<close> calls the method and compacts what
  it returns.  The method of \<open>InlinedIndex\<close> calls \<open>json.Marshal\<close> on the same value.  A call that does not
  return is \<open>None\<close>.\<close>

definition json_marshal_result :: "(string \<Rightarrow> string outcome) \<Rightarrow> string outcome \<Rightarrow> string outcome" where
  "json_marshal_result compact r =
     ok_bind (map_err (\<lambda>err. Errorf ''json: error calling MarshalJSON for type %s: %s'' [''v1alpha2.InlinedIndex''] [err]) r) compact"

partial_function (option) InlinedIndex_MarshalJSON :: "(string \<Rightarrow> string outcome) \<Rightarrow> InlinedIndex \<Rightarrow> string outcome option" where
  "InlinedIndex_MarshalJSON compact index =
     Option.bind (InlinedIndex_MarshalJSON compact index) (\<lambda>r. Some (json_marshal_result compact r))"

section \<open>Properties\<close>

lemmas platform_codec_defs = PlatformType_MarshalJSON_def PlatformType_UnmarshalJSON_def
  PlatformType_validate_def PlatformType_String_def platformTypeStrings_def platformStringsType_def
  TypeOCP_def TypeOKD_def map_get_def map_has_def

lemmas image_codec_defs = ImageType_MarshalJSON_def ImageType_UnmarshalJSON_def
  ImageType_validate_def ImageType_String_def imageTypeStrings_def imageStringsType_def
  image_type_defs map_get_def map_has_def

lemma PlatformType_roundtrip:
  "PlatformType_MarshalJSON pt = Ok j \<Longrightarrow> PlatformType_UnmarshalJSON j = Ok pt"
  by (auto simp: platform_codec_defs split: if_splits option.splits)

lemma PlatformType_unknown:
  "s \<notin> {''ocp'', ''okd''} \<Longrightarrow> PlatformType_UnmarshalJSON (JStr s) = Ok TypeOCP"
  by (auto simp: platform_codec_defs)

lemma ImageType_roundtrip:
  "ImageType_MarshalJSON it = Ok j \<Longrightarrow> ImageType_UnmarshalJSON j = Ok it"
  by (auto simp: image_codec_defs split: if_splits option.splits)

lemma ImageType_Marshal_iff: "is_ok (ImageType_MarshalJSON it) \<longleftrightarrow> 1 \<le> it \<and> it \<le> 7"
  by (auto simp: image_codec_defs split: option.splits)

lemma IncludeConfig_roundtrip:
  assumes "IncludeConfig_Encode enc ic w = (Ok (), w')"
    and "\<And>ic w w'. enc ic w = (Ok (), w') \<Longrightarrow> dec (\<lparr>inc_Packages = []\<rparr>) (rd w') = (None, ic, r')"
  shows "IncludeConfig_Decode dec \<lparr>inc_Packages = []\<rparr> (rd w') = (None, ic, r')"
proof -
  have "enc ic w = (Ok (), w')"
    using assms(1) by (cases "enc ic w"; cases "fst (enc ic w)") (auto simp: IncludeConfig_Encode_def go_map_err_def)
  from assms(2)[OF this] show ?thesis by (simp add: IncludeConfig_Decode_def)
qed

text \<open>The method never returns: every call makes another one.\<close>

lemma InlinedIndex_MarshalJSON_diverges: "InlinedIndex_MarshalJSON compact index = None"
proof (rule ccontr)
  assume "InlinedIndex_MarshalJSON compact index \<noteq> None"
  then obtain y where y: "InlinedIndex_MarshalJSON compact index = Some y" by blast
  show False
    by (rule InlinedIndex_MarshalJSON.raw_induct[where P = "\<lambda>_ _ _. False", OF _ y]) (auto split: bind_splits)
qed

end
