(* ===== verification/Api_V1alpha3.thy ===== *)
theory Api_V1alpha3
  imports Api_V1alpha2
begin

text \<open>
  Package \<open>pkg/api/v1alpha3\<close>: the documents the program reads (release image references, OCI
  index and manifest, operator image configuration, file-based catalog, signature payload) and the
  values the collectors exchange (\<open>RelatedImage\<close>, \<open>ImageRefSchema\<close>, \<open>CopyImageSchema\<close>).
  A \<open>time.Time\<close> is kept as its text; an \<open>interface{}\<close> is a JSON value.
\<close>

section \<open>Release payload\<close>

record MetadataAnnotations =
  ma_ReleaseOpenshiftIoFromImageStream :: string
  ma_ReleaseOpenshiftIoFromRelease :: string

record ReleaseMetadata =
  rm_Name :: string
  rm_CreationTimestamp :: string
  rm_Annotations :: MetadataAnnotations

record LookupPolicy =
  lp_Local :: bool

record Annotations =
  an_IoOpenshiftBuildCommitID :: string
  an_IoOpenshiftBuildCommitRef :: string
  an_IoOpenshiftBuildSourceLocation :: string
  an_IoOpenshiftBuildVersionDisplayNames :: string
  an_IoOpenshiftBuildVersions :: string

record From =
  fr_Kind :: string
  fr_Name :: string

text \<open>\<open>ImportPolicy\<close> has no fields.\<close>

type_synonym ImportPolicy = unit

record ReferencePolicy =
  rf_Type :: string

record Tags =
  tg_Name :: string
  tg_Annotations :: Annotations
  tg_From :: From
  tg_Generation :: json
  tg_ImportPolicy :: ImportPolicy
  tg_ReferencePolicy :: ReferencePolicy

record Spec =
  sc_LookupPolicy :: LookupPolicy
  sc_Tags :: "Tags list"

record Status =
  su_DockerImageRepository :: string

record ReleaseSchema =
  rs_Kind :: string
  rs_APIVersion :: string
  rs_Metadata :: ReleaseMetadata
  rs_Spec :: Spec
  rs_Status :: Status

section \<open>OCI index and manifest\<close>

record OCIManifest =
  om_MediaType :: string
  om_Digest :: string
  om_Size :: int

record OCISchema =
  oci_SchemaVersion :: int
  oci_MediaType :: string
  oci_Manifests :: "OCIManifest list"
  oci_Config :: OCIManifest
  oci_Layers :: "OCIManifest list"

section \<open>Operator image configuration\<close>

record OperatorLabels =
  ol_License :: string
  ol_Architecture :: string
  ol_BuildDate :: string
  ol_ComRedhatBuildHost :: string
  ol_ComRedhatComponent :: string
  ol_ComRedhatIndexDeliveryDistributionScope :: string
  ol_ComRedhatIndexDeliveryVersion :: string
  ol_ComRedhatLicenseTerms :: string
  ol_Description :: string
  ol_DistributionScope :: string
  ol_IoBuildahVersion :: string
  ol_IoK8SDescription :: string
  ol_IoK8SDisplayName :: string
  ol_IoOpenshiftBuildCommitID :: string
  ol_IoOpenshiftBuildCommitURL :: string
  ol_IoOpenshiftBuildSourceLocation :: string
  ol_IoOpenshiftExposeServices :: string
  ol_IoOpenshiftMaintainerComponent :: string
  ol_IoOpenshiftMaintainerProduct :: string
  ol_IoOpenshiftMaintainerProject :: string
  ol_IoOpenshiftTags :: string
  ol_Maintainer :: string
  ol_Name :: string
  ol_OperatorsOperatorframeworkIoIndexConfigsV1 :: string
  ol_Release :: string
  ol_Summary :: string
  ol_URL :: string
  ol_VcsRef :: string
  ol_VcsType :: string
  ol_Vendor :: string
  ol_Version :: string

text \<open>\<open>ExposedPorts\<close> is a struct without data.\<close>

record OperatorConfig =
  oc_User :: string
  oc_ExposedPorts :: unit
  oc_Env :: "string list"
  oc_Entrypoint :: "string list"
  oc_Cmd :: "string list"
  oc_WorkingDir :: string
  oc_Labels :: OperatorLabels

record OperatorRootFS =
  or_Type :: string
  or_DiffIds :: "string list"

record OperatorHistory =
  oh_Created :: string
  oh_Comment :: string
  oh_CreatedBy :: string
  oh_EmptyLayer :: bool

record OperatorConfigSchema =
  ocs_Created :: string
  ocs_Architecture :: string
  ocs_Os :: string
  ocs_Config :: OperatorConfig
  ocs_RootFS :: OperatorRootFS
  ocs_History :: "OperatorHistory list"

section \<open>File-based catalog\<close>

definition SchemaPackage :: string where "SchemaPackage = ''olm.package''"
definition SchemaChannel :: string where "SchemaChannel = ''olm.channel''"
definition SchemaBundle :: string where "SchemaBundle = ''olm.bundle''"

text \<open>\<open>property.Property\<close> of operator-registry: a type and a raw JSON value.\<close>

record Property =
  pr_Type :: string
  pr_Value :: json

text \<open>\<open>Icon\<close> is a pointer in \<open>Package\<close>: \<open>None\<close> is nil.\<close>

record Icon =
  ico_Data :: string
  ico_MediaType :: string

record Package =
  pg_Schema :: string
  pg_Name :: string
  pg_DefaultChannel :: string
  pg_Icon :: "Icon option"
  pg_Description :: string
  pg_Properties :: "Property list"

record RelatedImage =
  ri_Name :: string
  ri_Image :: string

record ChannelEntry =
  ce_Name :: string
  ce_Replaces :: string
  ce_Skips :: "string list"
  ce_SkipRange :: string

record Channel =
  chn_Schema :: string
  chn_Name :: string
  chn_Package :: string
  chn_Entries :: "ChannelEntry list"
  chn_Properties :: "Property list"

record Bundle =
  bn_Schema :: string
  bn_Name :: string
  bn_Package :: string
  bn_Image :: string
  bn_Properties :: "Property list"
  bn_RelatedImages :: "RelatedImage list"
  bn_CsvJSON :: string
  bn_Objects :: "string list"

record DeclarativeConfig =
  dc_Schema :: string
  dc_Name :: string
  dc_Package :: string
  dc_Properties :: "Property list"
  dc_RelatedImages :: "RelatedImage list"
  dc_Entries :: "ChannelEntry list"
  dc_DefaultChannel :: string
  dc_Description :: string

record ISCPackage =
  pk_Channel :: string
  pk_MinVersion :: string
  pk_MaxVersion :: string
  pk_Full :: bool

definition zero_ISCPackage :: ISCPackage where
  "zero_ISCPackage = \<lparr>pk_Channel = [], pk_MinVersion = [], pk_MaxVersion = [], pk_Full = False\<rparr>"

section \<open>Values exchanged by the collectors\<close>

record ImageRefSchema =
  ir_Repository :: string
  ir_Namespace :: string
  ir_Component :: string

record CopyImageSchema =
  ci_Source :: string
  ci_Destination :: string

section \<open>Signature payload\<close>

record SignatureCritical =
  sg_DockerManifestDigest :: string
  sg_Type :: string
  sg_DockerReference :: string

record SignatureContentSchema =
  ss_Critical :: SignatureCritical
  ss_Creator :: string

end
