(* ===== verification/Shortest_Path.thy ===== *)
theory Shortest_Path
  imports Go_Prelude
begin

text \<open>
  The closure \<open>shortestPath\<close> of \<open>GetUpdates\<close> (\<open>pkg/release/core-cincinnati.go\<close>): a
  breadth-first search over the update graph that records for every visited node the node it was
  reached from, and the walk back along these records.

  Definitions: \<open>visit_neighbors\<close> is the inner loop, \<open>bfs_loop\<close> the outer one (with its early exit),
  \<open>follow\<close> the walk back, \<open>shortestPath\<close> the whole closure.  Node indices are Go \<open>int\<close>s and \<open>-1\<close>
  marks the start, as in the source.  \<open>follow\<close> is partial: a cyclic record would make the source
  loop forever.

  Results: the search terminates (the termination proof of \<open>bfs_loop\<close>); \<open>shortestPath\<close> always
  returns; it returns the empty list exactly when there is no path; otherwise it returns a walk of
  the graph from start to end that no other walk is shorter than.  The invariant is stated with the
  distance from the start: the queue is ordered by distance, and every node no further than its head
  has been visited.
\<close>

section \<open>The program\<close>

text \<open>\<open>g[node]\<close> of a Go map from node to destinations.\<close>

definition adj :: "(int \<times> int list) list \<Rightarrow> int \<Rightarrow> int list" where
  "adj g u = map_get [] g u"

type_synonym bfs_state = "(int \<times> int) list \<times> int list \<times> int list"

fun visit_neighbors :: "int \<Rightarrow> int list \<Rightarrow> bfs_state \<Rightarrow> bfs_state" where
  "visit_neighbors node [] st = st"
| "visit_neighbors node (neighbor # ns) (prev, visited, queue) =
     (if neighbor \<notin> set visited
      then visit_neighbors node ns (map_put neighbor node prev, neighbor # visited, queue @ [neighbor])
      else visit_neighbors node ns (prev, visited, queue))"

lemma visit_neighbors_spec:
  obtains prev' visited' new where
    "visit_neighbors node ns (prev, visited, queue) = (prev', visited', queue @ new)"
    "set visited' = set visited \<union> set ns"
    "set new = set ns - set visited"
    "distinct new"
    "map_of prev' = (\<lambda>v. if v \<in> set new then Some node else map_of prev v)"
proof (induction ns arbitrary: prev visited queue thesis)
  case Nil
  show ?case by (rule Nil[of prev visited "[]"]) (auto simp: fun_eq_iff)
next
  case (Cons n ns)
  show ?case
  proof (cases "n \<in> set visited")
    case True
    show ?thesis
    proof (rule Cons.IH[of prev visited queue])
      fix prev' visited' new
      assume "visit_neighbors node ns (prev, visited, queue) = (prev', visited', queue @ new)"
        "set visited' = set visited \<union> set ns" "set new = set ns - set visited" "distinct new"
        "map_of prev' = (\<lambda>v. if v \<in> set new then Some node else map_of prev v)"
      then show thesis using True by (intro Cons.prems[of prev' visited' new]) auto
    qed
  next
    case False
    show ?thesis
    proof (rule Cons.IH[of "map_put n node prev" "n # visited" "queue @ [n]"])
      fix prev' visited' new
      assume *: "visit_neighbors node ns (map_put n node prev, n # visited, queue @ [n]) =
          (prev', visited', (queue @ [n]) @ new)"
        "set visited' = set (n # visited) \<union> set ns" "set new = set ns - set (n # visited)" "distinct new"
        "map_of prev' = (\<lambda>v. if v \<in> set new then Some node else map_of (map_put n node prev) v)"
      show thesis
        by (rule Cons.prems[of prev' visited' "n # new"]) (use * False in \<open>auto simp: fun_eq_iff\<close>)
    qed
  qed
qed

definition targets :: "(int \<times> int list) list \<Rightarrow> int set" where
  "targets g = (\<Union>(u, ds) \<in> set g. set ds)"

lemma finite_targets [simp]: "finite (targets g)"
  by (auto simp: targets_def)

lemma adj_targets: "set (adj g u) \<subseteq> targets g"
proof
  fix v assume "v \<in> set (adj g u)"
  then obtain ds where "map_of g u = Some ds" "v \<in> set ds"
    by (cases "map_of g u") (auto simp: adj_def map_get_def)
  then have "(u, ds) \<in> set g" "v \<in> set ds" by (auto dest: map_of_SomeD)
  then show "v \<in> targets g" unfolding targets_def by blast
qed

function bfs_loop :: "(int \<times> int list) list \<Rightarrow> int \<Rightarrow> bfs_state \<Rightarrow> (int \<times> int) list \<times> int list" where
  "bfs_loop g end' (prev, visited, []) = (prev, visited)"
| "bfs_loop g end' (prev, visited, node # queue) =
     (if node = end' then (prev, visited)
      else bfs_loop g end' (visit_neighbors node (adj g node) (prev, visited, queue)))"
  by pat_completeness auto
termination
proof (relation "measure (\<lambda>(g, end', prev, visited, queue). card (targets g - set visited) + length queue)")
  fix g end' prev visited node queue
  obtain prev' visited' new where v:
    "visit_neighbors node (adj g node) (prev, visited, queue) = (prev', visited', queue @ new)"
    "set visited' = set visited \<union> set (adj g node)" "set new = set (adj g node) - set visited" "distinct new"
    by (rule visit_neighbors_spec)
  have fin: "finite (targets g - set visited)" by simp
  have sub: "set new \<subseteq> targets g - set visited" using v(3) adj_targets[of g node] by auto
  have "targets g - set visited' = (targets g - set visited) - set new"
    using v(2,3) by auto
  then have "card (targets g - set visited') = card (targets g - set visited) - length new"
    using v(4) sub card_Diff_subset[OF _ sub] by (simp add: distinct_card)
  moreover have "length new \<le> card (targets g - set visited)"
    using card_mono[OF fin sub] v(4) by (simp add: distinct_card)
  ultimately show "((g, end', visit_neighbors node (adj g node) (prev, visited, queue)), g, end', prev, visited, node # queue)
      \<in> measure (\<lambda>(g, end', prev, visited, queue). card (targets g - set visited) + length queue)"
    using v(1) by simp
qed simp

text \<open>The loop \<open>for next := prev[end]; next != -1; next = prev[next]\<close>; a key that is not in the
  map reads as 0.\<close>

partial_function (option) follow :: "(int \<times> int) list \<Rightarrow> int \<Rightarrow> int list option" where
  [code]: "follow prev next =
     (if next = -1 then Some []
      else Option.bind (follow prev (map_get 0 prev next)) (\<lambda>p. Some (next # p)))"

definition shortestPath :: "(int \<times> int list) list \<Rightarrow> int \<Rightarrow> int \<Rightarrow> int list option" where
  "shortestPath g start end' =
     (case bfs_loop g end' ([(start, -1)], [start], [start]) of
        (prev, visited) \<Rightarrow>
          if end' \<notin> set visited then Some []
          else Option.bind (follow prev (map_get 0 prev end')) (\<lambda>p. Some (rev (end' # p))))"

section \<open>Walks and distances\<close>

definition walk :: "(int \<times> int list) list \<Rightarrow> int list \<Rightarrow> int \<Rightarrow> int \<Rightarrow> bool" where
  "walk g p s e \<longleftrightarrow> p \<noteq> [] \<and> hd p = s \<and> last p = e \<and> successively (\<lambda>u v. v \<in> set (adj g u)) p"

definition rel :: "(int \<times> int list) list \<Rightarrow> (int \<times> int) set" where
  "rel g = {(u, v). v \<in> set (adj g u)}"

definition dst :: "(int \<times> int list) list \<Rightarrow> int \<Rightarrow> int \<Rightarrow> nat" where
  "dst g s v = (LEAST n. (s, v) \<in> rel g ^^ n)"

lemma walk_snoc: "walk g p s u \<Longrightarrow> (u, v) \<in> rel g \<Longrightarrow> walk g (p @ [v]) s v"
  by (auto simp: walk_def rel_def successively_append_iff)

lemma walk_snoc_iff:
  "p \<noteq> [] \<Longrightarrow> walk g (p @ [v]) s e \<longleftrightarrow> v = e \<and> walk g p s (last p) \<and> (last p, e) \<in> rel g"
  by (auto simp: walk_def rel_def successively_append_iff)

lemma walk_relpow: "walk g p s e \<Longrightarrow> (s, e) \<in> rel g ^^ (length p - 1)"
proof (induction p arbitrary: e rule: rev_induct)
  case Nil
  then show ?case by (simp add: walk_def)
next
  case (snoc v p)
  show ?case
  proof (cases "p = []")
    case True
    with snoc show ?thesis by (simp add: walk_def)
  next
    case False
    with snoc.prems have "walk g p s (last p)" and e: "(last p, e) \<in> rel g"
      by (simp_all add: walk_snoc_iff)
    then have "(s, last p) \<in> rel g ^^ (length p - 1)" using snoc.IH by blast
    then have "(s, e) \<in> rel g ^^ Suc (length p - 1)" using e by (rule relpow_Suc_I)
    with False show ?thesis by simp
  qed
qed

lemma dst_le: "(s, v) \<in> rel g ^^ n \<Longrightarrow> dst g s v \<le> n"
  unfolding dst_def by (rule Least_le)

lemma dst_in: "(s, v) \<in> (rel g)\<^sup>* \<Longrightarrow> (s, v) \<in> rel g ^^ dst g s v"
  unfolding dst_def rtrancl_power by (rule LeastI_ex)

lemma dst_step: "(s, u) \<in> (rel g)\<^sup>* \<Longrightarrow> (u, v) \<in> rel g \<Longrightarrow> dst g s v \<le> Suc (dst g s u)"
  by (meson dst_in dst_le relpow_Suc_I)

lemma dst_start [simp]: "dst g s s = 0"
  using dst_le[of s s 0 g] by simp

lemma dst_0: "(s, v) \<in> (rel g)\<^sup>* \<Longrightarrow> dst g s v = 0 \<Longrightarrow> v = s"
  using dst_in[of s v g] by simp

lemma dst_pred:
  assumes "(s, v) \<in> (rel g)\<^sup>*" and "dst g s v = Suc n"
  obtains u where "(s, u) \<in> (rel g)\<^sup>*" "(u, v) \<in> rel g" "dst g s u = n"
proof -
  from dst_in[OF assms(1)] assms(2) obtain u where u: "(s, u) \<in> rel g ^^ n" "(u, v) \<in> rel g"
    by (auto elim: relpow_Suc_E)
  then have reach: "(s, u) \<in> (rel g)\<^sup>*" by (meson relpow_imp_rtrancl)
  moreover have "dst g s u \<le> n" using u(1) by (rule dst_le)
  moreover have "Suc n \<le> Suc (dst g s u)" using dst_step[OF reach u(2)] assms(2) by simp
  ultimately show thesis using that u(2) by simp
qed

lemma reachable_walk: "(s, e) \<in> (rel g)\<^sup>* \<longleftrightarrow> (\<exists>p. walk g p s e)"
proof
  assume "(s, e) \<in> (rel g)\<^sup>*"
  then show "\<exists>p. walk g p s e"
  proof induction
    case base
    have "walk g [s] s s" by (simp add: walk_def)
    then show ?case by blast
  next
    case (step u v)
    then show ?case using walk_snoc by blast
  qed
next
  assume "\<exists>p. walk g p s e"
  then show "(s, e) \<in> (rel g)\<^sup>*" using walk_relpow relpow_imp_rtrancl by meson
qed

section \<open>The invariant of the search\<close>

text \<open>What is recorded of the visited nodes.\<close>

definition prev_ok :: "(int \<times> int list) list \<Rightarrow> int \<Rightarrow> (int \<times> int) list \<Rightarrow> int set \<Rightarrow> bool" where
  "prev_ok g s prev V \<longleftrightarrow>
     s \<in> V \<and> map_of prev s = Some (-1) \<and> (\<forall>v \<in> V. (s, v) \<in> (rel g)\<^sup>*) \<and>
     (\<forall>v \<in> V. v \<noteq> s \<longrightarrow>
        (\<exists>u \<in> V. map_of prev v = Some u \<and> (u, v) \<in> rel g \<and> dst g s v = Suc (dst g s u)))"

text \<open>The queue is ordered by distance, spans at most two distances, everything no further than its
  head is visited, and nodes that left the queue have only visited successors.\<close>

definition queue_ok :: "(int \<times> int list) list \<Rightarrow> int \<Rightarrow> int set \<Rightarrow> int list \<Rightarrow> bool" where
  "queue_ok g s V q \<longleftrightarrow>
     set q \<subseteq> V \<and> sorted (map (dst g s) q) \<and>
     (\<forall>v \<in> set q. dst g s v \<le> Suc (dst g s (hd q))) \<and>
     (\<forall>v \<in> V - set q. \<forall>w. (v, w) \<in> rel g \<longrightarrow> w \<in> V) \<and>
     (q \<noteq> [] \<longrightarrow> (\<forall>v. (s, v) \<in> (rel g)\<^sup>* \<and> dst g s v \<le> dst g s (hd q) \<longrightarrow> v \<in> V))"

lemma queue_ok_near:
  "queue_ok g s V q \<Longrightarrow> q \<noteq> [] \<Longrightarrow> (s, v) \<in> (rel g)\<^sup>* \<Longrightarrow> dst g s v \<le> dst g s (hd q) \<Longrightarrow> v \<in> V"
  unfolding queue_ok_def by blast

lemma queue_ok_closed:
  "queue_ok g s V q \<Longrightarrow> v \<in> V \<Longrightarrow> v \<notin> set q \<Longrightarrow> (v, w) \<in> rel g \<Longrightarrow> w \<in> V"
  unfolding queue_ok_def by blast

lemma prev_ok_reach: "prev_ok g s prev V \<Longrightarrow> v \<in> V \<Longrightarrow> (s, v) \<in> (rel g)\<^sup>*"
  unfolding prev_ok_def by blast

lemma prev_ok_start: "prev_ok g s prev V \<Longrightarrow> s \<in> V"
  unfolding prev_ok_def by blast

lemma prev_ok_init: "prev_ok g s [(s, -1)] {s}"
  by (simp add: prev_ok_def)

lemma queue_ok_init: "queue_ok g s {s} [s]"
  by (auto simp: queue_ok_def dest: dst_0)

lemma new_dst:
  assumes p: "prev_ok g s prev V" and q: "queue_ok g s V (u # q)"
    and w: "w \<in> set (adj g u)" "w \<notin> V"
  shows "(s, w) \<in> (rel g)\<^sup>*" and "dst g s w = Suc (dst g s u)"
proof -
  from p q have su: "(s, u) \<in> (rel g)\<^sup>*" by (intro prev_ok_reach) (auto simp: queue_ok_def)
  have uw: "(u, w) \<in> rel g" using w(1) by (simp add: rel_def)
  from su uw show sw: "(s, w) \<in> (rel g)\<^sup>*" by (rule rtrancl_into_rtrancl)
  have "dst g s w \<le> Suc (dst g s u)" using su uw by (rule dst_step)
  moreover have "\<not> dst g s w \<le> dst g s u"
    using queue_ok_near[OF q _ sw] w(2) by auto
  ultimately show "dst g s w = Suc (dst g s u)" by simp
qed

lemma prev_ok_step:
  assumes p: "prev_ok g s prev V" and q: "queue_ok g s V (u # q)" and new: "set new = set (adj g u) - V"
    and m: "map_of prev' = (\<lambda>v. if v \<in> set new then Some u else map_of prev v)"
  shows "prev_ok g s prev' (V \<union> set (adj g u))"
proof -
  have uV: "u \<in> V" using q by (simp add: queue_ok_def)
  have uw: "(u, w) \<in> rel g" if "w \<in> set (adj g u)" for w using that by (simp add: rel_def)
  note nd = new_dst[OF p q]
  have "\<exists>x \<in> V \<union> set (adj g u). map_of prev' v = Some x \<and> (x, v) \<in> rel g \<and> dst g s v = Suc (dst g s x)"
    if "v \<in> V \<union> set (adj g u)" "v \<noteq> s" for v
  proof (cases "v \<in> V")
    case True
    with p that(2) new m show ?thesis by (fastforce simp: prev_ok_def)
  next
    case False
    with that new m uV uw nd show ?thesis by fastforce
  qed
  with p new m nd show ?thesis by (auto simp: prev_ok_def)
qed

text \<open>The queue after a step: its distances, and the successors of the nodes that left it.\<close>

lemma queue_step_dst:
  assumes "prev_ok g s prev V" and "queue_ok g s V (u # q)" and "set new = set (adj g u) - V" and "v \<in> set (q @ new)"
  shows "dst g s u \<le> dst g s v \<and> dst g s v \<le> Suc (dst g s u)"
proof (cases "v \<in> set q")
  case True
  with assms(2) show ?thesis by (auto simp: queue_ok_def)
next
  case False
  with assms(3,4) have "v \<in> set (adj g u)" "v \<notin> V" by auto
  from new_dst(2)[OF assms(1,2) this] show ?thesis by simp
qed

lemma queue_step_sorted:
  assumes p: "prev_ok g s prev V" and q: "queue_ok g s V (u # q)" and new: "set new = set (adj g u) - V"
  shows "sorted (map (dst g s) (q @ new))"
proof -
  have nd: "dst g s w = Suc (dst g s u)" if "w \<in> set new" for w
    using new_dst(2)[OF p q] that new by blast
  then have "map (dst g s) new = replicate (length new) (Suc (dst g s u))"
    by (intro replicate_eqI) auto
  then have "sorted (map (dst g s) new)" by simp
  then show ?thesis using q nd by (auto simp: sorted_append queue_ok_def)
qed

lemma queue_step_closed:
  assumes q: "queue_ok g s V (u # q)" and new: "set new = set (adj g u) - V"
    and v: "v \<in> (V \<union> set (adj g u)) - set (q @ new)" and vw: "(v, w) \<in> rel g"
  shows "w \<in> V \<union> set (adj g u)"
proof (cases "v = u")
  case True
  with vw show ?thesis by (simp add: rel_def)
next
  case False
  from v new have "v \<in> V" by auto
  with False v queue_ok_closed[OF q, of v w] vw show ?thesis by auto
qed

lemma queue_ok_step:
  assumes p: "prev_ok g s prev V" and q: "queue_ok g s V (u # q)" and new: "set new = set (adj g u) - V"
  shows "queue_ok g s (V \<union> set (adj g u)) (q @ new)"
proof -
  let ?d = "dst g s" and ?V = "V \<union> set (adj g u)"
  note dst = queue_step_dst[OF p q new] and srt = queue_step_sorted[OF p q new] and closed = queue_step_closed[OF q new]
  have sub: "set (q @ new) \<subseteq> ?V" using q new by (auto simp: queue_ok_def)
  have near: "v \<in> V" if "(s, v) \<in> (rel g)\<^sup>*" "?d v \<le> ?d u" for v
    using queue_ok_near[OF q _ that(1)] that(2) by simp
  have span: "?d v \<le> Suc (?d (hd (q @ new)))" if v: "v \<in> set (q @ new)" for v
  proof -
    have "hd (q @ new) \<in> set (q @ new)" using v by (intro hd_in_set) auto
    with dst[OF this] dst[OF v] show ?thesis by simp
  qed
  have "v \<in> ?V" if ne: "q @ new \<noteq> []" and v: "(s, v) \<in> (rel g)\<^sup>*" "?d v \<le> ?d (hd (q @ new))" for v
  proof (cases "?d v \<le> ?d u")
    case True
    with near[OF v(1)] show ?thesis by simp
  next
    case False
    have "?d (hd (q @ new)) \<le> Suc (?d u)" using dst[OF hd_in_set[OF ne]] by simp
    with False v have dv: "?d v = Suc (?d u)" and dh: "?d (hd (q @ new)) = Suc (?d u)" by auto
    from v(1) dv obtain x where x: "(s, x) \<in> (rel g)\<^sup>*" "(x, v) \<in> rel g" "?d x = ?d u" by (rule dst_pred)
    then have "x \<in> V" using near[OF x(1)] by simp
    moreover have "x \<notin> set (q @ new)"
    proof
      assume "x \<in> set (q @ new)"
      then have "?d (hd (q @ new)) \<le> ?d x" using srt ne by (cases "q @ new") auto
      with dh x show False by simp
    qed
    ultimately show ?thesis using closed[OF _ x(2)] by blast
  qed
  then show ?thesis
    unfolding queue_ok_def using sub srt span closed by (intro conjI) blast+
qed

lemma bfs_loop_post:
  assumes "prev_ok g s prev (set visited)" and "queue_ok g s (set visited) queue"
    and "bfs_loop g e (prev, visited, queue) = (prev', visited')"
  shows "prev_ok g s prev' (set visited') \<and> (e \<in> set visited' \<longleftrightarrow> (s, e) \<in> (rel g)\<^sup>*)"
  using assms
proof (induction g e "(prev, visited, queue)" arbitrary: prev visited queue rule: bfs_loop.induct)
  case (1 g e prev visited)
  have "v \<in> set visited" if "(s, v) \<in> (rel g)\<^sup>*" for v
    using that
  proof induction
    case base
    show ?case using 1(1) by (rule prev_ok_start)
  next
    case (step u w)
    then show ?case using queue_ok_closed[OF 1(2)] by simp
  qed
  with 1 prev_ok_reach[OF 1(1)] show ?case by auto
next
  case (2 g e prev visited node queue)
  show ?case
  proof (cases "node = e")
    case True
    with 2(4) have "prev' = prev" "visited' = visited" by simp_all
    moreover have "e \<in> set visited" using 2(3) True by (simp add: queue_ok_def)
    ultimately show ?thesis using 2(2) prev_ok_reach[OF 2(2)] by simp
  next
    case False
    obtain p' v' new where v:
      "visit_neighbors node (adj g node) (prev, visited, queue) = (p', v', queue @ new)"
      "set v' = set visited \<union> set (adj g node)" "set new = set (adj g node) - set visited"
      "map_of p' = (\<lambda>v. if v \<in> set new then Some node else map_of prev v)"
      by (rule visit_neighbors_spec)
    show ?thesis
      using 2(1)[OF False v(1)] prev_ok_step[OF 2(2,3) v(3,4)] queue_ok_step[OF 2(2,3) v(3)]
        2(4) False v(1,2)
      by simp
  qed
qed

section \<open>The walk back\<close>

lemma follow_Nil [simp]: "follow prev (-1) = Some []"
  by (simp add: follow.simps)

lemma follow_prev:
  assumes p: "prev_ok g s prev V" and sent: "-1 \<notin> V" and v: "v \<in> V"
  shows "\<exists>p. follow prev (map_get 0 prev v) = Some p \<and> walk g (rev (v # p)) s v \<and> length p = dst g s v"
  using v
proof (induction "dst g s v" arbitrary: v)
  case 0
  then have "v = s" using p dst_0[of s v g] by (auto simp: prev_ok_def)
  with p show ?case by (auto simp: prev_ok_def map_get_def walk_def)
next
  case (Suc n)
  then have "v \<noteq> s" by auto
  with p Suc.prems obtain u where u: "u \<in> V" "map_of prev v = Some u" "(u, v) \<in> rel g"
      "dst g s v = Suc (dst g s u)"
    by (fastforce simp: prev_ok_def)
  with Suc obtain p where q: "follow prev (map_get 0 prev u) = Some p" "walk g (rev (u # p)) s u"
      "length p = dst g s u"
    by (metis nat.inject)
  have "u \<noteq> -1" using u(1) sent by auto
  then have "follow prev (map_get 0 prev v) = Some (u # p)"
    using u(2) q(1) by (simp add: map_get_def[of 0 prev v] follow.simps[of prev u])
  moreover have "walk g (rev (v # u # p)) s v"
    using walk_snoc[OF q(2) u(3)] by simp
  ultimately show ?case using q(3) u(4) by auto
qed

text \<open>The sentinel \<open>-1\<close> is not a node.\<close>

definition no_sentinel :: "(int \<times> int list) list \<Rightarrow> int \<Rightarrow> bool" where
  "no_sentinel g start \<longleftrightarrow> start \<noteq> -1 \<and> list_all (\<lambda>(u, ds). -1 \<notin> set ds) g"

lemma no_sentinel_reach: "no_sentinel g s \<Longrightarrow> (s, v) \<in> (rel g)\<^sup>* \<Longrightarrow> v \<noteq> -1"
proof (erule rtranclE)
  fix u assume n: "no_sentinel g s" and "(u, v) \<in> rel g"
  then have "v \<in> targets g" using adj_targets[of g u] by (auto simp: rel_def)
  with n show "v \<noteq> -1" by (auto simp: no_sentinel_def targets_def list_all_iff)
qed (simp add: no_sentinel_def)

lemma shortestPath_correct:
  assumes "no_sentinel g s"
  shows "\<exists>p. shortestPath g s e = Some p \<and>
    (if (s, e) \<in> (rel g)\<^sup>* then walk g p s e \<and> (\<forall>q. walk g q s e \<longrightarrow> length p \<le> length q) else p = [])"
proof -
  obtain prev vis where r: "bfs_loop g e ([(s, -1)], [s], [s]) = (prev, vis)"
    by (cases "bfs_loop g e ([(s, -1)], [s], [s])")
  have post: "prev_ok g s prev (set vis)" "e \<in> set vis \<longleftrightarrow> (s, e) \<in> (rel g)\<^sup>*"
    using bfs_loop_post[OF _ _ r] prev_ok_init queue_ok_init by auto
  have sent: "-1 \<notin> set vis"
    using post(1) no_sentinel_reach[OF assms] by (auto simp: prev_ok_def)
  show ?thesis
  proof (cases "e \<in> set vis")
    case False
    with r post(2) show ?thesis by (simp add: shortestPath_def)
  next
    case True
    then obtain p where p: "follow prev (map_get 0 prev e) = Some p" "walk g (rev (e # p)) s e"
        "length p = dst g s e"
      using follow_prev[OF post(1) sent] by blast
    have "length (rev (e # p)) \<le> length q" if "walk g q s e" for q
    proof -
      have "dst g s e \<le> length q - 1" using walk_relpow[OF that] by (rule dst_le)
      moreover have "q \<noteq> []" using that by (simp add: walk_def)
      ultimately show ?thesis using p(3) by (cases q) auto
    qed
    with p True r post(2) show ?thesis by (simp add: shortestPath_def)
  qed
qed

end
