(* ===== verification/Cincinnati.thy ===== *)
theory Cincinnati
  imports Semver Shortest_Path Api_V1alpha3
begin

text \<open>
  The Cincinnati client: \<open>pkg/release/client.go\<close> and \<open>pkg/release/core-cincinnati.go\<close>.

  The state is the client (its URL and the query parameters it accumulates) and the world behind the
  network, of an arbitrary type \<open>'w\<close>; every request is sent with the parameters the client holds at
  that moment and may change the world.  What the program gets from outside is in the record
  \<open>net\<close>: building and sending a request, the JSON syntax of a response body, and the version filter
  an environment variable can install.

  Results: what each query returns from the graph of its response, on success and on every error;
  \<open>GetUpdates\<close> returns the images along a shortest upgrade path and does not panic on a
  well-formed graph; the stack of \<open>calculate\<close> is bounded by the number of minor versions
  between the channels; query parameters pile up from one request to the next.
\<close>

section \<open>Clients (client.go)\<close>

type_synonym query = "string \<Rightarrow> string list"

datatype client_kind = ocpClient | okdClient

record client =
  cl_kind :: client_kind
  cl_id :: string
  cl_url :: string
  cl_query :: query

definition no_query :: query where "no_query k = []"

text \<open>\<open>url.Values.Add\<close>: appends to the values of the key.\<close>

definition query_add :: "string \<Rightarrow> string \<Rightarrow> query \<Rightarrow> query" where
  "query_add k v q = q(k := q k @ [v])"

definition query_add_nonempty :: "string \<Rightarrow> string \<Rightarrow> query \<Rightarrow> query" where
  "query_add_nonempty k v q = (if v \<noteq> [] then query_add k v q else q)"

text \<open>The loop over the parameter map adds to three different keys, so its order does not matter.\<close>

definition SetQueryParams :: "string \<Rightarrow> string \<Rightarrow> string \<Rightarrow> client \<Rightarrow> client" where
  "SetQueryParams arch channel version c =
     (case cl_kind c of
        okdClient \<Rightarrow> c
      | ocpClient \<Rightarrow>
          c\<lparr>cl_query :=
              query_add_nonempty ''version'' version
                (query_add_nonempty ''channel'' channel
                  (query_add_nonempty ''arch'' arch (query_add ''id'' (cl_id c) (cl_query c))))\<rparr>)"

definition UpdateURL :: string where
  "UpdateURL = ''https://api.openshift.com/api/upgrades_info/v1/graph''"

definition OkdUpdateURL :: string where
  "OkdUpdateURL = ''https://origin-release.ci.openshift.org/graph''"

text \<open>\<open>getTLSConfig\<close> fails when the system certificate pool cannot be read; on any error the
  constructors return the zero client beside the error.\<close>

definition getTLSConfig :: "error option \<Rightarrow> unit outcome" where
  "getTLSConfig certPoolErr = (case certPoolErr of None \<Rightarrow> Ok () | Some e \<Rightarrow> Err e)"

definition zero_client :: "client_kind \<Rightarrow> client" where
  "zero_client k = \<lparr>cl_kind = k, cl_id = ''00000000-0000-0000-0000-000000000000'', cl_url = [], cl_query = no_query\<rparr>"

definition new_client ::
  "client_kind \<Rightarrow> (string \<Rightarrow> (string \<times> query) outcome) \<Rightarrow> error option \<Rightarrow> string \<Rightarrow> string \<Rightarrow> client \<times> error option" where
  "new_client k url_parse certPoolErr updateGraphURL uuid =
     (case ok_bind (url_parse updateGraphURL) (\<lambda>upstream. ok_map (\<lambda>_. upstream) (getTLSConfig certPoolErr)) of
        Ok (u, q) \<Rightarrow> (\<lparr>cl_kind = k, cl_id = uuid, cl_url = u, cl_query = q\<rparr>, None)
      | Err e \<Rightarrow> (zero_client k, Some e)
      | Panic p \<Rightarrow> (zero_client k, Some (errorf p [])))"

definition NewOCPClient ::
  "(string \<Rightarrow> string) \<Rightarrow> (string \<Rightarrow> (string \<times> query) outcome) \<Rightarrow> error option \<Rightarrow> string \<Rightarrow> client \<times> error option" where
  "NewOCPClient getenv url_parse certPoolErr uuid =
     (let override = getenv ''UPDATE_URL_OVERRIDE''
      in new_client ocpClient url_parse certPoolErr (if length override \<noteq> 0 then override else UpdateURL) uuid)"

definition NewOKDClient ::
  "(string \<Rightarrow> (string \<times> query) outcome) \<Rightarrow> error option \<Rightarrow> string \<Rightarrow> client \<times> error option" where
  "NewOKDClient url_parse certPoolErr uuid = new_client okdClient url_parse certPoolErr OkdUpdateURL uuid"

definition GetURL :: "client \<Rightarrow> string \<times> query" where
  "GetURL c = (cl_url c, cl_query c)"

definition GetID :: "client \<Rightarrow> string" where
  "GetID c = cl_id c"

lemma NewOCPClient_Ok:
  assumes "url_parse UpdateURL = Ok u"
  shows "NewOCPClient (\<lambda>_. []) url_parse None uuid = (c, e) \<Longrightarrow> e = None \<and> GetURL c = u \<and> GetID c = uuid"
  using assms by (auto simp: NewOCPClient_def new_client_def getTLSConfig_def GetURL_def GetID_def split: prod.splits)

section \<open>The update graph\<close>

record node =
  n_Version :: version
  n_Image :: string
  n_Metadata :: "(string \<times> string) list"

type_synonym Update = node

record edge =
  e_Origin :: int
  e_Destination :: int

record graph =
  g_Nodes :: "node list"
  g_Edges :: "edge list"

definition zero_update :: Update where
  "zero_update = \<lparr>n_Version = zero_version, n_Image = [], n_Metadata = []\<rparr>"

definition edge_UnmarshalJSON :: "json \<Rightarrow> edge outcome" where
  "edge_UnmarshalJSON data =
     ok_bind (dec_list dec_int data) (\<lambda>fields.
       case fields of
         [a, b] \<Rightarrow> Ok \<lparr>e_Origin = a, e_Destination = b\<rparr>
       | _ \<Rightarrow> Err (errorf ''expected 2 fields, found %d'' [Itoa (length fields)]))"

text \<open>Decoding of the response: object keys match field names without regard to case, the last
  occurrence of a key counts, unknown keys are skipped, \<open>null\<close> leaves the zero value.\<close>

definition fold_char :: "char \<Rightarrow> char" where
  "fold_char c = (let n = of_char c :: nat in if 65 \<le> n \<and> n \<le> 90 then char_of (n + 32) else c)"

definition json_field :: "(string \<times> json) list \<Rightarrow> string \<Rightarrow> json option" where
  "json_field o' k = map_option snd (find (\<lambda>(k', _). map fold_char k' = map fold_char k) (rev o'))"

definition dec_field :: "(string \<times> json) list \<Rightarrow> string \<Rightarrow> (json \<Rightarrow> 'a outcome) \<Rightarrow> 'a \<Rightarrow> 'a outcome" where
  "dec_field o' k dec z = (case json_field o' k of None \<Rightarrow> Ok z | Some j \<Rightarrow> dec j)"

fun dec_string_map :: "json \<Rightarrow> (string \<times> string) list outcome" where
  "dec_string_map JNull = Ok []"
| "dec_string_map (JObj kvs) =
     ok_map (\<lambda>xs. foldl (\<lambda>m (k, v). map_put k v m) [] xs)
       (ok_mapM (\<lambda>(k, j). ok_map (\<lambda>v. (k, v)) (dec_string j)) kvs)"
| "dec_string_map _ = Err unmarshal_error"

definition dec_version :: "json \<Rightarrow> version outcome" where
  "dec_version j = ok_bind (dec_string j) Parse"

fun dec_node :: "json \<Rightarrow> node outcome" where
  "dec_node JNull = Ok zero_update"
| "dec_node (JObj o') =
     ok_bind (dec_field o' ''version'' dec_version zero_version) (\<lambda>v.
     ok_bind (dec_field o' ''payload'' dec_string []) (\<lambda>p.
     ok_bind (dec_field o' ''metadata'' dec_string_map []) (\<lambda>m.
       Ok \<lparr>n_Version = v, n_Image = p, n_Metadata = m\<rparr>)))"
| "dec_node _ = Err unmarshal_error"

fun dec_graph :: "json \<Rightarrow> graph outcome" where
  "dec_graph JNull = Ok \<lparr>g_Nodes = [], g_Edges = []\<rparr>"
| "dec_graph (JObj o') =
     ok_bind (dec_field o' ''nodes'' (dec_list dec_node) []) (\<lambda>ns.
     ok_bind (dec_field o' ''edges'' (dec_list edge_UnmarshalJSON) []) (\<lambda>es.
       Ok \<lparr>g_Nodes = ns, g_Edges = es\<rparr>))"
| "dec_graph _ = Err unmarshal_error"

section \<open>Requests\<close>

record response =
  rsp_StatusCode :: int
  rsp_Status :: string
  rsp_Body :: "string outcome"

text \<open>
  \<open>net_newRequest\<close>: \<open>http.NewRequest\<close> on the URL (its error, if any).  \<open>net_do\<close>:
  \<open>client.Do\<close>.  \<open>net_json\<close>: the JSON text of a body.  \<open>net_filter\<close>: nothing when
  \<open>VERSION_FILTER\<close> is unset, else the compiled expression or the error of compiling it.
\<close>

record 'w net =
  net_newRequest :: "string \<Rightarrow> query \<Rightarrow> error option"
  net_do :: "string \<Rightarrow> query \<Rightarrow> 'w \<Rightarrow> response outcome \<times> 'w"
  net_json :: "string \<Rightarrow> json outcome"
  net_filter :: "(string \<Rightarrow> bool) outcome option"

type_synonym 'w cstate = "client \<times> 'w"

text \<open>The \<open>Error\<close> struct: the reason, the values its message is formatted from, the cause.\<close>

definition cinc_error :: "string \<Rightarrow> string list \<Rightarrow> error list \<Rightarrow> error" where
  "cinc_error Reason args cause = Errorf Reason args cause"

definition decode_response :: "'w net \<Rightarrow> response \<Rightarrow> graph outcome" where
  "decode_response net resp =
     (if rsp_StatusCode resp \<noteq> 200 then Err (cinc_error ''ResponseFailed'' [rsp_Status resp] [])
      else ok_bind (map_err (\<lambda>e. cinc_error ''ResponseFailed'' [] [e]) (rsp_Body resp)) (\<lambda>body.
           map_err (\<lambda>e. cinc_error ''ResponseInvalid'' [] [e]) (ok_bind (net_json net body) dec_graph)))"

definition getGraphData :: "'w net \<Rightarrow> ('w cstate, graph) go" where
  "getGraphData net = (\<lambda>(c, w).
     case net_newRequest net (cl_url c) (cl_query c) of
       Some e \<Rightarrow> (Err (cinc_error ''InvalidRequest'' [] [e]), (c, w))
     | None \<Rightarrow>
         (case net_do net (cl_url c) (cl_query c) w of
            (Err e, w') \<Rightarrow> (Err (cinc_error ''RemoteFailed'' [] [e]), (c, w'))
          | (Panic p, w') \<Rightarrow> (Panic p, (c, w'))
          | (Ok resp, w') \<Rightarrow> (decode_response net resp, (c, w'))))"

text \<open>\<open>c.SetQueryParams(\<dots>)\<close> followed by \<open>getGraphData\<close>, the error wrapped as
  \<open>APIRequestError\<close>: how every query below begins.\<close>

definition set_params :: "string \<Rightarrow> string \<Rightarrow> string \<Rightarrow> ('w cstate, unit) go" where
  "set_params arch channel version = (\<lambda>(c, w). (Ok (), (SetQueryParams arch channel version c, w)))"

definition fetch_graph :: "'w net \<Rightarrow> string \<Rightarrow> string \<Rightarrow> string \<Rightarrow> ('w cstate, graph) go" where
  "fetch_graph net arch channel version =
     go_bind (set_params arch channel version) (\<lambda>_.
       go_map_err (\<lambda>e. cinc_error ''APIRequestError'' [version, channel] [e]) (getGraphData net))"

section \<open>Queries\<close>

fun find_version :: "version \<Rightarrow> node list \<Rightarrow> nat option" where
  "find_version v [] = None"
| "find_version v (n # ns) = (if EQ v (n_Version n) then Some 0 else map_option Suc (find_version v ns))"

definition edgesByOrigin :: "edge list \<Rightarrow> (int \<times> int list) list" where
  "edgesByOrigin es = foldl (\<lambda>m e. map_put (e_Origin e) (map_get [] m (e_Origin e) @ [e_Destination e]) m) [] es"

text \<open>Sorting the destinations by version, greatest first.  Every element of a slice of two or more
  is compared at least once, and the comparison indexes \<open>graph.Nodes\<close>.\<close>

definition in_range :: "'a list \<Rightarrow> int \<Rightarrow> bool" where
  "in_range xs i = (0 \<le> i \<and> i < int (length xs))"

definition sort_destinations :: "node list \<Rightarrow> int list \<Rightarrow> int list outcome" where
  "sort_destinations nodes ds =
     (if length ds \<ge> 2 \<and> \<not> list_all (in_range nodes) ds then Panic ''index out of range''
      else Ok (sort_slice (\<lambda>a b. GT (n_Version (nodes ! nat a)) (n_Version (nodes ! nat b))) ds))"

definition sort_edges :: "node list \<Rightarrow> (int \<times> int list) list \<Rightarrow> (int \<times> int list) list outcome" where
  "sort_edges nodes m = ok_mapM (\<lambda>(origin, ds). ok_map (\<lambda>ds'. (origin, ds')) (sort_destinations nodes ds)) m"

text \<open>The part of \<open>GetUpdates\<close> after the graph has been fetched.\<close>

definition updates_in_graph ::
  "string \<Rightarrow> version \<Rightarrow> version \<Rightarrow> graph \<Rightarrow> (Update \<times> Update \<times> Update list) outcome" where
  "updates_in_graph channel version reqVer graph =
     (case find_version version (g_Nodes graph) of
        None \<Rightarrow> Err (cinc_error ''VersionNotFound'' [''current'', Version_String version, channel] [])
      | Some currentIdx \<Rightarrow>
     (case find_version reqVer (g_Nodes graph) of
        None \<Rightarrow> Err (cinc_error ''VersionNotFound'' [''requested'', Version_String reqVer, channel] [])
      | Some destinationIdx \<Rightarrow>
          ok_bind (sort_edges (g_Nodes graph) (edgesByOrigin (g_Edges graph))) (\<lambda>edges.
            case shortestPath edges (int currentIdx) (int destinationIdx) of
              None \<Rightarrow> Panic ''out of memory''
            | Some nextIdxs \<Rightarrow>
                ok_bind (ok_mapM (go_index_int (g_Nodes graph)) nextIdxs) (\<lambda>updates.
                  Ok (g_Nodes graph ! currentIdx, g_Nodes graph ! destinationIdx, updates)))))"

definition GetUpdates ::
  "'w net \<Rightarrow> string \<Rightarrow> string \<Rightarrow> version \<Rightarrow> version \<Rightarrow> ('w cstate, Update \<times> Update \<times> Update list) go" where
  "GetUpdates net arch channel version reqVer =
     go_bind (fetch_graph net arch channel (Version_String version)) (\<lambda>graph.
       go_lift (updates_in_graph channel version reqVer graph))"

definition versions_matching :: "'w net \<Rightarrow> node list \<Rightarrow> version list outcome" where
  "versions_matching net nodes =
     (case net_filter net of
        None \<Rightarrow> Ok (map n_Version nodes)
      | Some (Ok matches) \<Rightarrow> Ok (filter (\<lambda>v. matches (Version_String v)) (map n_Version nodes))
      | Some (Err e) \<Rightarrow> Err (cinc_error ''InvalidVersionFilter'' [] [e])
      | Some (Panic p) \<Rightarrow> Panic p)"

definition min_or_max :: "string \<Rightarrow> string \<Rightarrow> bool \<Rightarrow> version list \<Rightarrow> version outcome" where
  "min_or_max arch channel minimum Vers =
     (let vs = Sort Vers
      in if length vs = 0 then Err (cinc_error ''NoVersionsFound'' [arch, channel] [])
         else if minimum then Ok (vs ! 0)
         else Ok (vs ! (length vs - 1)))"

definition GetChannelMinOrMax :: "'w net \<Rightarrow> string \<Rightarrow> string \<Rightarrow> bool \<Rightarrow> ('w cstate, version) go" where
  "GetChannelMinOrMax net arch channel minimum =
     go_bind (fetch_graph net arch channel []) (\<lambda>graph.
       go_lift (ok_bind (versions_matching net (g_Nodes graph)) (min_or_max arch channel minimum)))"

definition channels_of_nodes :: "node list \<Rightarrow> (string \<times> unit) list" where
  "channels_of_nodes nodes =
     foldl (\<lambda>m n. foldl (\<lambda>m value. map_put value () m) m
                   (Split (map_get [] (n_Metadata n) ''io.openshift.upgrades.graph.release.channels'') '',''))
       [] nodes"

definition GetChannels :: "'w net \<Rightarrow> string \<Rightarrow> ('w cstate, (string \<times> unit) list) go" where
  "GetChannels net channel =
     go_bind (fetch_graph net [] channel []) (\<lambda>graph. go_return (channels_of_nodes (g_Nodes graph)))"

definition GetVersions :: "'w net \<Rightarrow> string \<Rightarrow> string \<Rightarrow> ('w cstate, version list) go" where
  "GetVersions net arch channel =
     go_bind (fetch_graph net arch channel []) (\<lambda>graph.
       let Vers = map n_Version (g_Nodes graph)
       in if length Vers = 0 then go_fail (cinc_error ''NoVersionsFound'' [channel] [])
          else go_return (Sort Vers))"

fun filter_range :: "range \<Rightarrow> node list \<Rightarrow> Update list outcome" where
  "filter_range r [] = Ok []"
| "filter_range r (n # ns) =
     ok_bind (r (n_Version n)) (\<lambda>b. ok_map (\<lambda>us. if b then n # us else us) (filter_range r ns))"

definition GetUpdatesInRange :: "'w net \<Rightarrow> string \<Rightarrow> string \<Rightarrow> range \<Rightarrow> ('w cstate, Update list) go" where
  "GetUpdatesInRange net channel arch updateRange =
     go_bind (fetch_graph net arch channel []) (\<lambda>graph.
       go_lift (filter_range updateRange (g_Nodes graph)))"

definition handleBlockedEdges :: "'w net \<Rightarrow> string \<Rightarrow> string \<Rightarrow> version \<Rightarrow> ('w cstate, bool) go" where
  "handleBlockedEdges net arch targetChannel startVer =
     go_bind (GetVersions net arch targetChannel) (\<lambda>chanVersions.
       go_return (\<not> list_ex (\<lambda>v. EQ v startVer) chanVersions))"

section \<open>Upgrades across channels\<close>

definition channel_semver :: "string \<Rightarrow> (string \<times> version) outcome" where
  "channel_semver channel =
     (case CutLast ''-'' channel of
        None \<Rightarrow> Err (errorf ''invalid channel name %s'' [channel])
      | Some (prefix, rest) \<Rightarrow> ok_map (\<lambda>v. (prefix, v)) (Parse (rest @ ''.0'')))"

text \<open>Both channel names are checked for a dash before either version is parsed.\<close>

definition getSemverFromChannels :: "string \<Rightarrow> string \<Rightarrow> (version \<times> version \<times> string) outcome" where
  "getSemverFromChannels sourceChannel targetChannel =
     (if CutLast ''-'' sourceChannel = None then Err (errorf ''invalid channel name %s'' [sourceChannel])
      else if CutLast ''-'' targetChannel = None then Err (errorf ''invalid channel name %s'' [targetChannel])
      else ok_bind (channel_semver sourceChannel) (\<lambda>(prefix, source).
           ok_bind (channel_semver targetChannel) (\<lambda>(_, target).
             Ok (source, target, prefix))))"

text \<open>\<open>fmt.Sprintf("%s-%v.%v", prefix, source.Major, source.Minor)\<close>\<close>

definition channel_name :: "string \<Rightarrow> version \<Rightarrow> string" where
  "channel_name prefix v = prefix @ ''-'' @ Itoa (unat (Major v)) @ ''.'' @ Itoa (unat (Minor v))"

definition bump_minor :: "version \<Rightarrow> version" where
  "bump_minor v = v\<lparr>Minor := Minor v + 1\<rparr>"

text \<open>
  \<open>calculate\<close> calls itself with the next minor version of the channel until the target is
  reached.  Its first argument is the number of stack frames left: a Go stack is finite, and a
  recursion that exhausts it is a fatal error.
\<close>

primrec calculate ::
  "nat \<Rightarrow> 'w net \<Rightarrow> string \<Rightarrow> string \<Rightarrow> string \<Rightarrow> version \<Rightarrow> version \<Rightarrow> ('w cstate, Update \<times> Update list) go" where
  "calculate 0 net arch sourceChannel targetChannel startVer reqVer = go_panic ''stack overflow''"
| "calculate (Suc frames) net arch sourceChannel targetChannel startVer reqVer =
     go_bind (go_lift (getSemverFromChannels sourceChannel targetChannel)) (\<lambda>(source0, target, prefix).
       let source = bump_minor source0;
           currChannel = (if EQ source target then targetChannel else channel_name prefix source)
       in
     go_bind (if EQ source target then go_return reqVer
              else GetChannelMinOrMax net arch currChannel False) (\<lambda>targetVer.
     go_bind (handleBlockedEdges net arch currChannel startVer) (\<lambda>isBlocked.
       if isBlocked then
         go_bind (GetUpdates net arch targetChannel targetVer targetVer) (\<lambda>(_, requested, _).
           go_return (requested, []))
       else
     go_bind (GetUpdates net arch currChannel startVer targetVer) (\<lambda>(_, requested, upgrades).
       if EQ source target then go_return (requested, upgrades)
       else
     go_bind (calculate frames net arch currChannel targetChannel targetVer reqVer) (\<lambda>(currRequested, currUpgrades).
       go_return (currRequested, upgrades @ currUpgrades))))))"

text \<open>The loop that keeps the first upgrade of every image.\<close>

fun dedup_images :: "Update list \<Rightarrow> string list \<Rightarrow> Update list" where
  "dedup_images [] seen = []"
| "dedup_images (u # us) seen =
     (if n_Image u \<in> set seen then dedup_images us seen
      else u # dedup_images us (n_Image u # seen))"

definition CalculateUpgrades ::
  "nat \<Rightarrow> 'w net \<Rightarrow> string \<Rightarrow> string \<Rightarrow> string \<Rightarrow> version \<Rightarrow> version \<Rightarrow>
   ('w cstate, Update \<times> Update \<times> Update list) go" where
  "CalculateUpgrades frames net arch sourceChannel targetChannel startVer reqVer =
     (if sourceChannel = targetChannel then GetUpdates net arch targetChannel startVer reqVer
      else
     go_bind (go_lift (getSemverFromChannels sourceChannel targetChannel)) (\<lambda>(source, target, _).
       if EQ source target then
         go_bind (handleBlockedEdges net arch targetChannel startVer) (\<lambda>isBlocked.
           if isBlocked then GetUpdates net arch targetChannel reqVer reqVer
           else GetUpdates net arch targetChannel startVer reqVer)
       else
     go_bind (go_map_err (\<lambda>e. Errorf ''channel %q: %v'' [sourceChannel] [e])
                (GetChannelMinOrMax net arch sourceChannel False)) (\<lambda>latest.
     go_bind (go_map_err (\<lambda>e. Errorf ''channel %q: %v'' [sourceChannel] [e])
                (GetUpdates net arch sourceChannel startVer latest)) (\<lambda>(current, _, upgrades).
     go_bind (calculate frames net arch sourceChannel targetChannel latest reqVer) (\<lambda>(requested, newUpgrades).
       go_return (current, requested, dedup_images (upgrades @ newUpgrades) []))))))"

section \<open>Laws of the graph computations\<close>

lemma adj_edgesByOrigin:
  "adj (edgesByOrigin es) u = map e_Destination (filter (\<lambda>e. e_Origin e = u) es)"
  by (induction es rule: rev_induct) (auto simp: edgesByOrigin_def adj_def map_get_def)

lemma distinct_edgesByOrigin: "distinct (map fst (edgesByOrigin es))"
  by (induction es rule: rev_induct) (auto simp: edgesByOrigin_def intro!: distinct_map_put)

text \<open>Edges point to nodes of the graph.\<close>

definition graph_wf :: "graph \<Rightarrow> bool" where
  "graph_wf g =
     list_all (\<lambda>e. in_range (g_Nodes g) (e_Origin e) \<and> in_range (g_Nodes g) (e_Destination e)) (g_Edges g)"

text \<open>A sequence of node indices each of which has an edge to the next.\<close>

definition upgrade_path :: "graph \<Rightarrow> int list \<Rightarrow> int \<Rightarrow> int \<Rightarrow> bool" where
  "upgrade_path g p i j \<longleftrightarrow>
     p \<noteq> [] \<and> hd p = i \<and> last p = j \<and>
     successively (\<lambda>u v. list_ex (\<lambda>e. e_Origin e = u \<and> e_Destination e = v) (g_Edges g)) p"

lemma edgesByOrigin_entry:
  assumes "(u, ds) \<in> set (edgesByOrigin es)"
  shows "set ds \<subseteq> e_Destination ` set es"
proof -
  have "map_of (edgesByOrigin es) u = Some ds"
    using assms distinct_edgesByOrigin by (rule map_of_is_SomeI[rotated])
  then have "ds = adj (edgesByOrigin es) u" by (simp add: adj_def map_get_def)
  then show ?thesis by (auto simp: adj_edgesByOrigin)
qed

definition sorted_edges :: "graph \<Rightarrow> (int \<times> int list) list" where
  "sorted_edges g =
     map (\<lambda>(u, ds). (u, sort_slice (\<lambda>a b. GT (n_Version (g_Nodes g ! nat a)) (n_Version (g_Nodes g ! nat b))) ds))
       (edgesByOrigin (g_Edges g))"

lemma sort_edges_wf:
  assumes "graph_wf g"
  shows "sort_edges (g_Nodes g) (edgesByOrigin (g_Edges g)) = Ok (sorted_edges g)"
  unfolding sort_edges_def sorted_edges_def
proof (rule ok_mapM_Ok)
  fix x assume x: "x \<in> set (edgesByOrigin (g_Edges g))"
  obtain u ds where "x = (u, ds)" by (cases x)
  moreover have "list_all (in_range (g_Nodes g)) ds"
    using edgesByOrigin_entry[of u ds] x \<open>x = (u, ds)\<close> assms by (fastforce simp: graph_wf_def list_all_iff)
  ultimately show "(\<lambda>(origin, ds). ok_map (\<lambda>ds'. (origin, ds')) (sort_destinations (g_Nodes g) ds)) x =
      Ok ((\<lambda>(u, ds). (u, sort_slice (\<lambda>a b. GT (n_Version (g_Nodes g ! nat a)) (n_Version (g_Nodes g ! nat b))) ds)) x)"
    by (simp add: sort_destinations_def)
qed

lemma adj_map_values: "adj (map (\<lambda>(u, ds). (u, f ds)) m) u = (case map_of m u of None \<Rightarrow> [] | Some ds \<Rightarrow> f ds)"
  by (induction m) (auto simp: adj_def map_get_def)

lemma set_adj_sorted_edges: "set (adj (sorted_edges g) u) = set (adj (edgesByOrigin (g_Edges g)) u)"
  unfolding sorted_edges_def adj_map_values by (simp add: adj_def map_get_def split: option.splits)

lemma adj_sorted_edges:
  "v \<in> set (adj (sorted_edges g) u) \<longleftrightarrow> list_ex (\<lambda>e. e_Origin e = u \<and> e_Destination e = v) (g_Edges g)"
  by (auto simp: set_adj_sorted_edges adj_edgesByOrigin list_ex_iff)

lemma walk_sorted_edges: "walk (sorted_edges g) p i j = upgrade_path g p i j"
  unfolding walk_def upgrade_path_def adj_sorted_edges ..

lemma targets_sorted_edges: "targets (sorted_edges g) \<subseteq> e_Destination ` set (g_Edges g)"
  by (auto simp: targets_def sorted_edges_def dest!: edgesByOrigin_entry)

lemma no_sentinel_sorted_edges: "graph_wf g \<Longrightarrow> no_sentinel (sorted_edges g) (int i)"
  using targets_sorted_edges[of g]
  by (fastforce simp: no_sentinel_def list_all_iff graph_wf_def in_range_def targets_def)

lemma find_version_Some:
  "find_version v ns = Some i \<Longrightarrow> i < length ns \<and> EQ v (n_Version (ns ! i))"
  by (induction ns arbitrary: i) (auto split: if_splits)

lemma find_version_None: "find_version v ns = None \<longleftrightarrow> (\<forall>n \<in> set ns. \<not> EQ v (n_Version n))"
  by (induction ns) auto

lemma upgrade_path_in_range:
  assumes "graph_wf g" and "upgrade_path g p i j" and "in_range (g_Nodes g) i" and "k \<in> set p"
  shows "in_range (g_Nodes g) k"
  using assms(2-4)
proof (induction p arbitrary: i)
  case Nil
  then show ?case by simp
next
  case (Cons x xs)
  show ?case
  proof (cases "xs = []")
    case True
    with Cons.prems show ?thesis by (simp add: upgrade_path_def)
  next
    case False
    then obtain y ys where xs: "xs = y # ys" by (cases xs) auto
    with Cons.prems(1) have "list_ex (\<lambda>e. e_Origin e = x \<and> e_Destination e = y) (g_Edges g)"
      and p: "upgrade_path g xs y j"
      by (auto simp: upgrade_path_def)
    then have "in_range (g_Nodes g) y"
      using assms(1) by (auto simp: graph_wf_def list_ex_iff list_all_iff)
    with Cons p show ?thesis by (auto simp: upgrade_path_def)
  qed
qed

lemma updates_in_graph_path:
  assumes wf: "graph_wf g" and i: "find_version v (g_Nodes g) = Some i" and j: "find_version r (g_Nodes g) = Some j"
  shows "\<exists>p. updates_in_graph ch v r g =
      Ok (g_Nodes g ! i, g_Nodes g ! j, map (\<lambda>k. g_Nodes g ! nat k) p) \<and>
      (if \<exists>q. upgrade_path g q (int i) (int j)
       then upgrade_path g p (int i) (int j) \<and> (\<forall>q. upgrade_path g q (int i) (int j) \<longrightarrow> length p \<le> length q)
       else p = [])"
proof -
  obtain p where p: "shortestPath (sorted_edges g) (int i) (int j) = Some p"
    "if \<exists>q. upgrade_path g q (int i) (int j)
     then upgrade_path g p (int i) (int j) \<and> (\<forall>q. upgrade_path g q (int i) (int j) \<longrightarrow> length p \<le> length q)
     else p = []"
    using shortestPath_correct[OF no_sentinel_sorted_edges[OF wf], of i "int j"]
    unfolding reachable_walk walk_sorted_edges by blast
  have "in_range (g_Nodes g) (int i)" using find_version_Some[OF i] by (simp add: in_range_def)
  then have "in_range (g_Nodes g) k" if "k \<in> set p" for k
    using p(2) that upgrade_path_in_range[OF wf, of p] by (auto split: if_splits)
  then have "ok_mapM (go_index_int (g_Nodes g)) p = Ok (map (\<lambda>k. g_Nodes g ! nat k) p)"
    by (intro ok_mapM_Ok) (simp add: go_index_int_def in_range_def)
  then have "updates_in_graph ch v r g = Ok (g_Nodes g ! i, g_Nodes g ! j, map (\<lambda>k. g_Nodes g ! nat k) p)"
    using p(1) i j by (simp add: updates_in_graph_def sort_edges_wf[OF wf])
  with p(2) show ?thesis by blast
qed

lemma filter_range_pure: "filter_range (\<lambda>v. Ok (P v)) ns = Ok (filter (\<lambda>n. P (n_Version n)) ns)"
  by (induction ns) auto

lemma min_or_max_spec:
  assumes "min_or_max arch ch m vs = Ok v"
  shows "v \<in> set vs" and "u \<in> set vs \<Longrightarrow> if m then Compare v u \<le> 0 else Compare u v \<le> 0"
proof -
  from assms have ne: "vs \<noteq> []" and v: "v = (if m then Sort vs ! 0 else Sort vs ! (length vs - 1))"
    by (auto simp: min_or_max_def Let_def split: if_splits)
  from ne v show "v \<in> set vs" by (auto intro: Sort_nth_mem)
  show "u \<in> set vs \<Longrightarrow> if m then Compare v u \<le> 0 else Compare u v \<le> 0"
    using v Sort_first_least[of u vs] Sort_last_greatest[of u vs] by auto
qed

lemma min_or_max_empty: "min_or_max arch ch m [] = Err (cinc_error ''NoVersionsFound'' [arch, ch] [])"
  by (simp add: min_or_max_def Let_def)

lemma min_or_max_Ok: "vs \<noteq> [] \<Longrightarrow> \<exists>v. min_or_max arch ch m vs = Ok v"
  by (auto simp: min_or_max_def Let_def)

lemma dedup_images_spec:
  "set (map n_Image (dedup_images us seen)) = n_Image ` set us - set seen \<and>
   distinct (map n_Image (dedup_images us seen))"
proof (induction us seen rule: dedup_images.induct)
  case (2 u us seen)
  then show ?case by (cases "n_Image u \<in> set seen") auto
qed simp

lemma query_add_apply: "query_add k v q k' = (if k' = k then q k @ [v] else q k')"
  by (simp add: query_add_def)

lemma SetQueryParams_channel:
  "cl_kind c = ocpClient \<Longrightarrow>
   cl_query (SetQueryParams a ch v c) ''channel'' = cl_query c ''channel'' @ filter (\<lambda>x. x \<noteq> []) [ch]"
  by (simp add: SetQueryParams_def query_add_nonempty_def query_add_apply)

lemma SetQueryParams_kind [simp]: "cl_kind (SetQueryParams a ch v c) = cl_kind c"
  by (simp add: SetQueryParams_def split: client_kind.split)

section \<open>Channel names\<close>

definition minor_version :: "u64 \<Rightarrow> u64 \<Rightarrow> version" where
  "minor_version M m = \<lparr>Major = M, Minor = m, Patch = 0, Pre = [], Build = []\<rparr>"

lemma minor_version_sel [simp]:
  "Major (minor_version M m) = M" "Minor (minor_version M m) = m"
  "bump_minor (minor_version M m) = minor_version M (m + 1)"
  "EQ (minor_version M m) (minor_version M n) \<longleftrightarrow> m = n"
  by (auto simp: minor_version_def bump_minor_def EQ_def Compare_def)

lemma channel_semver_name: "channel_semver (channel_name p (minor_version M m)) = Ok (p, minor_version M m)"
proof -
  have "Version_String (minor_version M m) = Itoa (unat M) @ ''.'' @ Itoa (unat m) @ ''.0''"
    by (simp add: Version_String_def minor_version_def Itoa_zero)
  moreover have "valid_version (minor_version M m)" by (simp add: valid_version_def minor_version_def)
  ultimately have "Parse (Itoa (unat M) @ ''.'' @ Itoa (unat m) @ ''.0'') = Ok (minor_version M m)"
    using Parse_Version_String by metis
  then show ?thesis
    using CutLast_char[of "CHR ''-''" "Itoa (unat M) @ ''.'' @ Itoa (unat m)" p]
    by (simp add: channel_semver_def channel_name_def)
qed

lemma channel_semver_dash: "channel_semver ch = Ok x \<Longrightarrow> CutLast ''-'' ch \<noteq> None"
  by (auto simp: channel_semver_def split: option.splits)

lemma getSemver_Ok:
  "channel_semver s = Ok (p, v) \<Longrightarrow> channel_semver t = Ok (p', w) \<Longrightarrow> getSemverFromChannels s t = Ok (v, w, p)"
  using channel_semver_dash[of s] channel_semver_dash[of t] by (simp add: getSemverFromChannels_def)

lemma unat_succ_less:
  fixes m n :: u64
  assumes "m < n"
  shows "unat (m + 1) = Suc (unat m)"
proof -
  have "unat m < unat n" using assms by (simp add: word_less_nat_alt)
  moreover have "unat n < 2 ^ 64" using unsigned_less[of n, where 'a = nat] by simp
  ultimately show ?thesis by (simp add: unat_word_ariths)
qed

text \<open>With as many frames as there are minor versions between the channels, more frames change nothing.\<close>

lemma calculate_frames:
  assumes "channel_semver s = Ok (p, minor_version M m)" and "channel_semver t = Ok (p', minor_version M n)"
    and "m < n" and "unat n - unat m \<le> frames"
  shows "calculate (frames + k) net arch s t v r = calculate frames net arch s t v r"
  using assms
proof (induction frames arbitrary: s p m v)
  case 0
  then show ?case by (simp add: word_less_nat_alt)
next
  case (Suc frames)
  have sem: "getSemverFromChannels s t = Ok (minor_version M m, minor_version M n, p)"
    using Suc.prems(1,2) by (rule getSemver_Ok)
  show ?case
  proof (cases "m + 1 = n")
    case True
    then show ?thesis by (simp add: sem Let_def cong: if_cong)
  next
    case False
    have "unat m < unat n" using Suc.prems(3) by (simp add: word_less_nat_alt)
    moreover have m1: "unat (m + 1) = Suc (unat m)"
      using Suc.prems(3) by (rule unat_succ_less)
    ultimately have "unat (m + 1) < unat n"
      using False by (metis Suc_leI le_neq_implies_less word_unat_eq_iff)
    then have lt: "m + 1 < n" by (simp add: word_less_nat_alt)
    have "unat n - unat (m + 1) \<le> frames" using Suc.prems(4) m1 by simp
    then have "calculate (frames + k) net arch (channel_name p (minor_version M (m + 1))) t v' r =
        calculate frames net arch (channel_name p (minor_version M (m + 1))) t v' r" for v'
      using Suc.IH[OF channel_semver_name Suc.prems(2) lt] by blast
    then show ?thesis using False by (simp add: sem Let_def cong: if_cong)
  qed
qed

section \<open>Properties\<close>

text \<open>A client, a graph of three releases and a network that answers every request with it.\<close>

definition demo_version :: "u64 \<Rightarrow> version" where
  "demo_version m = \<lparr>Major = 4, Minor = m, Patch = 0, Pre = [], Build = []\<rparr>"

definition demo_json :: json where
  "demo_json = JObj
     [(''nodes'', JArr
        [JObj [(''version'', JStr (Version_String (demo_version 1))), (''payload'', JStr ''q/a:0a'')],
         JObj [(''version'', JStr (Version_String (demo_version 2))), (''payload'', JStr ''q/b:0b'')],
         JObj [(''version'', JStr (Version_String (demo_version 3))), (''payload'', JStr ''q/c:0c'')]]),
      (''edges'', JArr [JArr [JNum 0, JNum 1], JArr [JNum 1, JNum 2], JArr [JNum 0, JNum 2]])]"

definition demo_net :: "unit net" where
  "demo_net =
     \<lparr>net_newRequest = (\<lambda>_ _. None),
      net_do = (\<lambda>_ _ w. (Ok \<lparr>rsp_StatusCode = 200, rsp_Status = ''200 OK'', rsp_Body = Ok []\<rparr>, w)),
      net_json = (\<lambda>_. Ok demo_json), net_filter = None\<rparr>"

definition demo_graph :: graph where
  "demo_graph =
     \<lparr>g_Nodes = [\<lparr>n_Version = demo_version 1, n_Image = ''q/a:0a'', n_Metadata = []\<rparr>,
                 \<lparr>n_Version = demo_version 2, n_Image = ''q/b:0b'', n_Metadata = []\<rparr>,
                 \<lparr>n_Version = demo_version 3, n_Image = ''q/c:0c'', n_Metadata = []\<rparr>],
      g_Edges = [\<lparr>e_Origin = 0, e_Destination = 1\<rparr>, \<lparr>e_Origin = 1, e_Destination = 2\<rparr>,
                 \<lparr>e_Origin = 0, e_Destination = 2\<rparr>]\<rparr>"

lemma demo_dec_version: "dec_version (JStr (Version_String (demo_version m))) = Ok (demo_version m)"
proof -
  have "valid_version (demo_version m)" by (simp add: valid_version_def demo_version_def)
  then show ?thesis by (simp add: dec_version_def Parse_Version_String)
qed

lemma demo_keys:
  "map fold_char ''nodes'' = ''nodes''" "map fold_char ''edges'' = ''edges''"
  "map fold_char ''version'' = ''version''" "map fold_char ''payload'' = ''payload''"
  "map fold_char ''metadata'' = ''metadata''"
  by code_simp+

lemma demo_decode: "dec_graph demo_json = Ok demo_graph"
  by (simp add: demo_json_def demo_graph_def dec_field_def json_field_def demo_keys demo_dec_version
      edge_UnmarshalJSON_def del: list.map)

lemma demo_fetch:
  "fetch_graph demo_net a ch v (c, ()) = (Ok demo_graph, (SetQueryParams a ch v c, ()))"
  by (simp add: fetch_graph_def set_params_def getGraphData_def demo_net_def decode_response_def demo_decode
      go_bind_def go_map_err_def)

lemma demo_GetUpdates:
  "GetUpdates demo_net a ch v r (c, ()) =
   (updates_in_graph ch v r demo_graph, (SetQueryParams a ch (Version_String v) c, ()))"
  by (simp add: GetUpdates_def go_bind_def demo_fetch go_lift_def)

lemma demo_matching: "versions_matching demo_net ns = Ok (map n_Version ns)"
  by (simp add: versions_matching_def demo_net_def)

lemma demo_updates:
  "updates_in_graph ch (demo_version 1) (demo_version 3) demo_graph =
   Ok (g_Nodes demo_graph ! 0, g_Nodes demo_graph ! 2, [g_Nodes demo_graph ! 0, g_Nodes demo_graph ! 2])"
  "updates_in_graph ch (demo_version 3) (demo_version 3) demo_graph =
   Ok (g_Nodes demo_graph ! 2, g_Nodes demo_graph ! 2, [g_Nodes demo_graph ! 2])"
  "min_or_max a ch False (map n_Version (g_Nodes demo_graph)) = Ok (demo_version 3)"
  "list_ex (\<lambda>v. EQ v (demo_version 3)) (Sort (map n_Version (g_Nodes demo_graph)))"
  "g_Nodes demo_graph \<noteq> []"
  by code_simp+

text \<open>C3: GetUpdates on a graph whose edges point to its nodes, for two versions the graph has, does
  not fail or panic: it returns the nodes of the two versions and the nodes along an upgrade path
  between them that no other path is shorter than, or no nodes when there is no path.\<close>

theorem GetUpdates_shortest_path:
  assumes "fetch_graph net arch ch (Version_String v) s = (Ok g, s')" and "graph_wf g"
    and "find_version v (g_Nodes g) = Some i" and "find_version r (g_Nodes g) = Some j"
  shows "\<exists>p. GetUpdates net arch ch v r s =
        (Ok (g_Nodes g ! i, g_Nodes g ! j, map (\<lambda>k. g_Nodes g ! nat k) p), s') \<and>
      (if \<exists>q. upgrade_path g q (int i) (int j)
       then upgrade_path g p (int i) (int j) \<and> (\<forall>q. upgrade_path g q (int i) (int j) \<longrightarrow> length p \<le> length q)
       else p = [])"
  using updates_in_graph_path[OF assms(2-4), of ch] assms(1)
  by (auto simp: GetUpdates_def go_lift_def)

theorem GetUpdates_shortest_path_witness:
  "\<exists>p s'. GetUpdates demo_net ''amd64'' ''stable-4.3'' (demo_version 1) (demo_version 3) (zero_client ocpClient, ()) =
        (Ok (g_Nodes demo_graph ! 0, g_Nodes demo_graph ! 2, map (\<lambda>k. g_Nodes demo_graph ! nat k) p), s') \<and>
      upgrade_path demo_graph p 0 2 \<and> length p \<le> 2"
proof -
  have wf: "graph_wf demo_graph" by code_simp
  have i: "find_version (demo_version 1) (g_Nodes demo_graph) = Some 0"
    and j: "find_version (demo_version 3) (g_Nodes demo_graph) = Some 2" by code_simp+
  have q: "upgrade_path demo_graph [int 0, int 2] (int 0) (int 2)" by code_simp
  obtain p s' where "GetUpdates demo_net ''amd64'' ''stable-4.3'' (demo_version 1) (demo_version 3) (zero_client ocpClient, ()) =
        (Ok (g_Nodes demo_graph ! 0, g_Nodes demo_graph ! 2, map (\<lambda>k. g_Nodes demo_graph ! nat k) p), s')"
    and p: "if \<exists>q. upgrade_path demo_graph q (int 0) (int 2)
       then upgrade_path demo_graph p (int 0) (int 2) \<and>
         (\<forall>q. upgrade_path demo_graph q (int 0) (int 2) \<longrightarrow> length p \<le> length q)
       else p = []"
    using GetUpdates_shortest_path[OF demo_fetch wf i j, of "''amd64''" "''stable-4.3''" "zero_client ocpClient"]
    by blast
  moreover have "upgrade_path demo_graph p 0 2 \<and> length p \<le> 2"
  proof -
    have "upgrade_path demo_graph p (int 0) (int 2)" and "length p \<le> length [int 0, int 2]"
      using p q by (auto simp del: of_nat_0 of_nat_numeral list.size split: if_splits)
    then show ?thesis by simp
  qed
  ultimately show ?thesis by blast
qed

text \<open>C17: GetChannelMinOrMax returns a version of the channel's graph that matches the version filter
  and that is least (or greatest) of these, or the NoVersionsFound error when there is none; it
  does not panic.\<close>

theorem GetChannelMinOrMax_correct:
  assumes "fetch_graph net arch ch [] s = (Ok g, s')" and "versions_matching net (g_Nodes g) = Ok vs"
  shows "case GetChannelMinOrMax net arch ch minimum s of
      (Ok v, t) \<Rightarrow> t = s' \<and> v \<in> set vs \<and> list_all (\<lambda>u. (if minimum then Compare v u else Compare u v) \<le> 0) vs
    | (Err e, t) \<Rightarrow> t = s' \<and> vs = [] \<and> e = cinc_error ''NoVersionsFound'' [arch, ch] []
    | (Panic _, _) \<Rightarrow> False"
proof -
  have eq: "GetChannelMinOrMax net arch ch minimum s = (min_or_max arch ch minimum vs, s')"
    using assms by (simp add: GetChannelMinOrMax_def go_lift_def)
  show ?thesis
  proof (cases "vs = []")
    case True
    then show ?thesis by (simp add: eq min_or_max_empty)
  next
    case False
    then obtain v where v: "min_or_max arch ch minimum vs = Ok v" using min_or_max_Ok by blast
    then show ?thesis using min_or_max_spec[OF v] by (auto simp: eq list_all_iff split: if_splits)
  qed
qed

theorem GetChannelMinOrMax_correct_witness:
  "case GetChannelMinOrMax demo_net ''amd64'' ''stable-4.3'' False (zero_client ocpClient, ()) of
      (Ok v, t) \<Rightarrow> t = (SetQueryParams ''amd64'' ''stable-4.3'' [] (zero_client ocpClient), ()) \<and>
        v \<in> set (map n_Version (g_Nodes demo_graph)) \<and>
        list_all (\<lambda>u. (if False then Compare v u else Compare u v) \<le> 0) (map n_Version (g_Nodes demo_graph))
    | (Err e, t) \<Rightarrow> t = (SetQueryParams ''amd64'' ''stable-4.3'' [] (zero_client ocpClient), ()) \<and>
        map n_Version (g_Nodes demo_graph) = [] \<and> e = cinc_error ''NoVersionsFound'' [''amd64'', ''stable-4.3''] []
    | (Panic _, _) \<Rightarrow> False"
  by (rule GetChannelMinOrMax_correct[OF demo_fetch demo_matching])

text \<open>C12: With as many stack frames as there are minor versions between two channels of one
  major version, the recursion of calculate does not run out of stack: more frames change nothing.\<close>

theorem calculate_terminates:
  assumes "m < n" and "unat n - unat m \<le> frames"
  shows "calculate (frames + k) net arch (channel_name p (minor_version M m)) (channel_name q (minor_version M n)) v r =
         calculate frames net arch (channel_name p (minor_version M m)) (channel_name q (minor_version M n)) v r"
  using calculate_frames[OF channel_semver_name channel_semver_name assms] .

theorem calculate_terminates_witness:
  "calculate (3 + 5) demo_net ''amd64'' (channel_name ''stable'' (minor_version 4 1))
     (channel_name ''stable'' (minor_version 4 4)) (demo_version 1) (demo_version 3) =
   calculate 3 demo_net ''amd64'' (channel_name ''stable'' (minor_version 4 1))
     (channel_name ''stable'' (minor_version 4 4)) (demo_version 1) (demo_version 3)"
  by (rule calculate_terminates) simp_all

text \<open>The channels that calculate names for the next minor versions are read back by
  getSemverFromChannels as exactly these versions, with the prefix of the source channel.\<close>

lemma getSemverFromChannels_channel_name:
  "getSemverFromChannels (channel_name p (minor_version M m)) (channel_name q (minor_version N n)) =
   Ok (minor_version M m, minor_version N n, p)"
  by (rule getSemver_Ok[OF channel_semver_name channel_semver_name])

text \<open>C21: When CalculateUpgrades crosses channels, no image occurs twice among the upgrades it returns.\<close>

theorem CalculateUpgrades_distinct:
  assumes "CalculateUpgrades frames net arch sourceChannel targetChannel v r s = (Ok (current, requested, upgrades), s')"
    and "getSemverFromChannels sourceChannel targetChannel = Ok (source, target, p)" and "\<not> EQ source target"
  shows "distinct (map n_Image upgrades)"
proof -
  have "sourceChannel \<noteq> targetChannel"
    using assms(2,3) by (auto simp: getSemverFromChannels_def split: if_splits elim!: ok_bind_eq_Ok[THEN iffD1, elim_format])
  then obtain us where "upgrades = dedup_images us []"
    using assms by (auto simp: CalculateUpgrades_def go_lift_def go_return_def elim!: go_bind_OkE)
  then show ?thesis using dedup_images_spec by blast
qed

theorem CalculateUpgrades_distinct_witness:
  "\<exists>current requested upgrades s'.
     CalculateUpgrades 1 demo_net ''amd64'' (channel_name ''stable'' (minor_version 4 1))
       (channel_name ''stable'' (minor_version 4 2)) (demo_version 1) (demo_version 3) (zero_client ocpClient, ()) =
     (Ok (current, requested, upgrades), s') \<and> distinct (map n_Image upgrades)"
proof -
  let ?s = "channel_name ''stable'' (minor_version 4 1)" and ?t = "channel_name ''stable'' (minor_version 4 2)"
  have sem: "getSemverFromChannels ?s ?t = Ok (minor_version 4 1, minor_version 4 2, ''stable'')"
    by (rule getSemver_Ok[OF channel_semver_name channel_semver_name])
  have "minor_version 4 1 \<noteq> minor_version 4 2" by (simp add: minor_version_def)
  then have "?s \<noteq> ?t" by (metis channel_semver_name outcome.inject(1) prod.inject)
  have "\<exists>x s'. CalculateUpgrades 1 demo_net ''amd64'' ?s ?t (demo_version 1) (demo_version 3) (zero_client ocpClient, ()) = (Ok x, s')"
    using \<open>?s \<noteq> ?t\<close>
    by (simp add: CalculateUpgrades_def sem go_bind_def go_lift_def go_map_err_def GetChannelMinOrMax_def demo_fetch
        handleBlockedEdges_def GetVersions_def demo_GetUpdates demo_updates demo_matching go_return_def Let_def)
  then obtain current requested upgrades s' where res:
    "CalculateUpgrades 1 demo_net ''amd64'' ?s ?t (demo_version 1) (demo_version 3) (zero_client ocpClient, ()) =
     (Ok (current, requested, upgrades), s')" by (metis prod_cases3)
  then have "distinct (map n_Image upgrades)" using CalculateUpgrades_distinct[OF _ sem] by simp
  with res show ?thesis by blast
qed

text \<open>Query parameters accumulate: an OCP client that has been used for several queries sends the
  channels of all of them, the oldest first, with its next request.\<close>

lemma query_params_accumulate:
  assumes "cl_kind c = ocpClient"
  shows "cl_query (foldl (\<lambda>c (arch, ch, v). SetQueryParams arch ch v c) c reqs) ''channel'' =
         cl_query c ''channel'' @ filter (\<lambda>ch. ch \<noteq> []) (map (\<lambda>(arch, ch, v). ch) reqs)"
  using assms by (induction reqs arbitrary: c) (auto simp: SetQueryParams_channel)

lemma query_params_accumulate_witness:
  "cl_query (foldl (\<lambda>c (arch, ch, v). SetQueryParams arch ch v c) (zero_client ocpClient)
      [(''amd64'', ''stable-4.1'', []), (''amd64'', ''stable-4.2'', [])]) ''channel'' = [''stable-4.1'', ''stable-4.2'']"
  using query_params_accumulate[of "zero_client ocpClient" "[(''amd64'', ''stable-4.1'', []), (''amd64'', ''stable-4.2'', [])]"]
  by (simp add: zero_client_def no_query_def)

text \<open>An edge is decoded exactly from a JSON array of two integers, the origin and the destination.\<close>

lemma edge_UnmarshalJSON_iff:
  "edge_UnmarshalJSON data = Ok e \<longleftrightarrow> dec_list dec_int data = Ok [e_Origin e, e_Destination e]"
  by (cases "dec_list dec_int data") (auto simp: edge_UnmarshalJSON_def split: list.splits)

text \<open>The function \<open>handleBlockedEdges\<close> says that a version is blocked exactly when no node of the target channel
  has it; an empty channel is an error.\<close>

lemma handleBlockedEdges_correct:
  assumes "fetch_graph net arch ch [] s = (Ok g, s')"
  shows "handleBlockedEdges net arch ch v s =
    (if g_Nodes g = [] then (Err (cinc_error ''NoVersionsFound'' [ch] []), s')
     else (Ok (find_version v (g_Nodes g) = None), s'))"
  using assms
  by (auto simp: handleBlockedEdges_def GetVersions_def go_bind_def go_return_def go_fail_def find_version_None
      list_ex_iff intro: EQ_sym)

end
