(* ===== verification/Release.thy ===== *)
theory Release
  imports Cincinnati Go_FS
begin

text \<open>
  Which release images to mirror: \<open>pkg/release/find.go\<close> and \<open>pkg/release/cincinnati.go\<close>.

  \<open>FindRelease\<close> picks the channel with the least or greatest version; \<open>getChannelDownloads\<close>
  and \<open>getCrossChannelDownloads\<close> turn channels into images with the Cincinnati client;
  \<open>GetReleaseReferenceImages\<close> runs them for every architecture and channel, collects the errors
  without stopping, writes the versions it detects back into the configuration and passes the images
  to \<open>GenerateReleaseSignatures\<close>, which replaces every image by the reference its signed message
  names and caches the message.  Fetching a signature, reading a signed message with the embedded
  public key and the JSON syntax of its content are parameters (record \<open>sigenv\<close>).  Log output is
  not modelled.
\<close>

section \<open>find.go\<close>

definition ErrNoPreviousRelease :: error where
  "ErrNoPreviousRelease = errorf ''no previous release downloads detected'' []"

fun add_releases :: "bool \<Rightarrow> ReleaseChannel list \<Rightarrow> (string \<times> version) list \<Rightarrow> (string \<times> version) list outcome" where
  "add_releases minimum [] vers = Ok vers"
| "add_releases minimum (ch # chs) vers =
     ok_bind (Parse (if minimum then rc_MinVersion ch else rc_MaxVersion ch)) (\<lambda>parsedVer.
       add_releases minimum chs (map_put (rc_Name ch) parsedVer vers))"

definition findReleases :: "ReleaseChannel list \<Rightarrow> bool \<Rightarrow> (string \<times> version) list outcome" where
  "findReleases channels minimum =
     (if length channels = 0 then Err ErrNoPreviousRelease else add_releases minimum channels [])"

definition release_less :: "bool \<Rightarrow> (string \<Rightarrow> version) \<Rightarrow> string \<Rightarrow> string \<Rightarrow> bool" where
  "release_less minimum ver a b = (if minimum then GT (ver a) (ver b) else LT (ver a) (ver b))"

text \<open>The keys of the map are taken in the order of the channels, one of those Go may take; the order matters only
  between channels with equal versions.\<close>

definition FindRelease :: "ReleaseChannel list \<Rightarrow> bool \<Rightarrow> (string \<times> version) outcome" where
  "FindRelease channels minimum =
     ok_bind (findReleases channels minimum) (\<lambda>vers.
       let ver = map_get zero_version vers;
           keys = sort_slice (release_less minimum ver) (map fst vers)
       in ok_bind (go_index_int keys (int (length keys) - 1)) (\<lambda>key. Ok (key, ver key)))"

section \<open>Downloads of a channel\<close>

definition copy_source :: "string \<Rightarrow> CopyImageSchema" where
  "copy_source src = \<lparr>ci_Source = src, ci_Destination = []\<rparr>"

definition gatherUpdates :: "Update \<Rightarrow> Update \<Rightarrow> Update list \<Rightarrow> CopyImageSchema list" where
  "gatherUpdates current newest updates =
     map (\<lambda>u. copy_source (n_Image u)) updates @
     (if n_Image current \<noteq> [] then [copy_source (n_Image current)] else []) @
     (if n_Image newest \<noteq> [] then [copy_source (n_Image newest)] else [])"

definition getChannelDownloads ::
  "nat \<Rightarrow> 'w net \<Rightarrow> ReleaseChannel \<Rightarrow> string \<Rightarrow> ('w cstate, CopyImageSchema list) go" where
  "getChannelDownloads frames net channel arch =
     go_bind (go_lift (Parse (rc_MinVersion channel))) (\<lambda>first.
     go_bind (go_lift (Parse (rc_MaxVersion channel))) (\<lambda>last.
       if rc_ShortestPath channel then
         go_bind (CalculateUpgrades frames net arch (rc_Name channel) (rc_Name channel) first last)
           (\<lambda>(current, newest, updates). go_return (gatherUpdates current newest updates))
       else
         go_bind (go_lift (ParseRange (''>='' @ Version_String first))) (\<lambda>lowRange.
         go_bind (go_lift (ParseRange (''<='' @ Version_String last))) (\<lambda>highRange.
         go_bind (GetUpdatesInRange net (rc_Name channel) arch (Range_AND highRange lowRange)) (\<lambda>versions.
           go_return (gatherUpdates zero_update zero_update versions))))))"

definition getCrossChannelDownloads ::
  "nat \<Rightarrow> 'w net \<Rightarrow> string \<Rightarrow> ReleaseChannel list \<Rightarrow> ('w cstate, CopyImageSchema list) go" where
  "getCrossChannelDownloads frames net arch channels =
     (let ocpChannels = filter (\<lambda>ch. rc_Type ch = TypeOCP) channels
      in if length ocpChannels = 0 then go_return []
         else
      go_bind (go_map_err (\<lambda>e. Errorf ''failed to find minimum release version: %v'' [] [e])
                 (go_lift (FindRelease ocpChannels True))) (\<lambda>(firstCh, first).
      go_bind (go_map_err (\<lambda>e. Errorf ''failed to find maximum release version: %v'' [] [e])
                 (go_lift (FindRelease ocpChannels False))) (\<lambda>(lastCh, last).
      go_bind (go_map_err (\<lambda>e. Errorf ''failed to get upgrade graph: %v'' [] [e])
                 (CalculateUpgrades frames net arch firstCh lastCh first last)) (\<lambda>(current, newest, updates).
        go_return (gatherUpdates current newest updates)))))"

section \<open>Signatures\<close>

definition SignatureURL :: string where
  "SignatureURL = ''https://mirror.openshift.com/pub/openshift-v4/signatures/openshift/release/''"

definition SignatureDir :: string where
  "SignatureDir = ''/signatures/''"

text \<open>The fields of \<open>openpgp.MessageDetails\<close> the code reads for more than logging, and
  \<open>SignatureError\<close>, which it only logs.  \<open>mg_Content\<close> is what reading \<open>UnverifiedBody\<close> to
  its end gives; \<open>None\<close> is nil.\<close>

record MessageDetails =
  mg_IsSigned :: bool
  mg_Content :: string
  mg_SignatureError :: "error option"
  mg_SignedBy :: "string option"
  mg_SignatureV3 :: "string option"

text \<open>\<open>sg_get\<close>: the GET request for a URL, with status and body of the response.
  \<open>sg_read\<close>: \<open>openpgp.ReadMessage\<close> with the embedded key ring.  \<open>sg_json\<close>:
  \<open>json.Unmarshal\<close> of the content; \<open>None\<close> is the JSON value null.\<close>

record 'w sigenv =
  sg_get :: "string \<Rightarrow> ('w, int \<times> string) go"
  sg_read :: "string \<Rightarrow> MessageDetails outcome"
  sg_json :: "string \<Rightarrow> SignatureContentSchema option outcome"

definition nil_deref :: string where
  "nil_deref = ''invalid memory address or nil pointer dereference''"

text \<open>\<open>os.ReadFile\<close> with the error ignored.\<close>

definition read_cache :: "string \<Rightarrow> ('w machine, string) go" where
  "read_cache name = (\<lambda>s. (Ok (case ReadFile name (mc_fs s) of Ok c \<Rightarrow> c | _ \<Rightarrow> []), s))"

text \<open>\<open>sg_get\<close> makes a request and sends it.  A request that cannot be made leaves \<open>req\<close> nil and one that fails
  leaves \<open>resp\<close> nil; both are used all the same.\<close>

definition fetch_signature :: "'w sigenv \<Rightarrow> string \<Rightarrow> ('w machine, string) go" where
  "fetch_signature env digest =
     go_try (on_world (sg_get env (SignatureURL @ ''sha256='' @ digest @ ''/signature-1''))) (\<lambda>r.
       case r of
         Inl e \<Rightarrow> go_panic nil_deref
       | Inr (status, body) \<Rightarrow> go_return (if status = 200 then body else []))"

definition signed_reference :: "'w sigenv \<Rightarrow> string \<Rightarrow> string outcome" where
  "signed_reference env data =
     (case sg_read env data of
        Panic p \<Rightarrow> Panic p
      | Err e \<Rightarrow> Panic nil_deref
      | Ok md \<Rightarrow>
          if mg_SignatureV3 md = None then Panic nil_deref
          else ok_bind (sg_json env (mg_Content md)) (\<lambda>signSchema.
            case signSchema of
              None \<Rightarrow> Panic nil_deref
            | Some sc \<Rightarrow>
                if mg_SignedBy md = None then Panic nil_deref
                else Ok (sg_DockerReference (ss_Critical sc))))"

definition signature_file :: "string \<Rightarrow> string \<Rightarrow> string" where
  "signature_file dir digest = dir @ SignatureDir @ digest"

text \<open>The signed message of an image: from the cache, or fetched when the cache has none.\<close>

definition signature_data :: "'w sigenv \<Rightarrow> string \<Rightarrow> string \<Rightarrow> ('w machine, string) go" where
  "signature_data env dir digest =
     go_bind (read_cache (signature_file dir digest)) (\<lambda>cached.
       if length cached = 0 then fetch_signature env digest else go_return cached)"

definition sign_image :: "'w sigenv \<Rightarrow> string \<Rightarrow> CopyImageSchema \<Rightarrow> ('w machine, CopyImageSchema) go" where
  "sign_image env dir img =
     go_bind (go_lift (go_index (Split (ci_Source img) '':'') 1)) (\<lambda>digest.
     go_bind (signature_data env dir digest) (\<lambda>data.
       if length data > 0 then
         go_bind (go_lift (signed_reference env data)) (\<lambda>ref.
         go_try (on_fs (WriteFile (signature_file dir digest) data)) (\<lambda>_.
           go_return (img\<lparr>ci_Source := ref\<rparr>)))
       else go_fail (errorf ''no signature found for %s image %s'' [digest, ci_Source img])))"

fun GenerateReleaseSignatures ::
  "'w sigenv \<Rightarrow> string \<Rightarrow> CopyImageSchema list \<Rightarrow> ('w machine, CopyImageSchema list) go" where
  "GenerateReleaseSignatures env dir [] = go_return []"
| "GenerateReleaseSignatures env dir (img # rd) =
     go_bind (sign_image env dir img) (\<lambda>img'.
     go_bind (GenerateReleaseSignatures env dir rd) (\<lambda>imgs. go_return (img' # imgs)))"

section \<open>GetReleaseReferenceImages\<close>

text \<open>\<open>rl_client\<close> is the client object all channels share, \<open>rl_config\<close> the configuration whose
  channels are updated in place.\<close>

record 'w release_state =
  rl_client :: client
  rl_config :: ImageSetConfiguration
  rl_machine :: "'w machine"

definition with_client :: "('w cstate, 'a) go \<Rightarrow> ('w release_state, 'a) go" where
  "with_client m = (\<lambda>s.
     case m (rl_client s, mc_world (rl_machine s)) of
       (r, (c, w)) \<Rightarrow> (r, s\<lparr>rl_client := c, rl_machine := (rl_machine s)\<lparr>mc_world := w\<rparr>\<rparr>))"

definition with_own_client :: "client \<Rightarrow> ('w cstate, 'a) go \<Rightarrow> ('w release_state, 'a) go" where
  "with_own_client c m = (\<lambda>s.
     case m (c, mc_world (rl_machine s)) of
       (r, (_, w)) \<Rightarrow> (r, s\<lparr>rl_machine := (rl_machine s)\<lparr>mc_world := w\<rparr>\<rparr>))"

definition on_machine :: "('w machine, 'a) go \<Rightarrow> ('w release_state, 'a) go" where
  "on_machine m = (\<lambda>s. case m (rl_machine s) of (r, t) \<Rightarrow> (r, s\<lparr>rl_machine := t\<rparr>))"

text \<open>The versions of a channel that the configuration leaves open.\<close>

definition resolve_versions :: "'w net \<Rightarrow> string \<Rightarrow> ReleaseChannel \<Rightarrow> ('w cstate, ReleaseChannel) go" where
  "resolve_versions net arch ch =
     (if length (rc_MaxVersion ch) = 0 \<or> length (rc_MinVersion ch) = 0 then
        go_bind
          (if length (rc_MaxVersion ch) = 0 then
             go_bind (GetChannelMinOrMax net arch (rc_Name ch) False) (\<lambda>latest.
               let ch' = ch\<lparr>rc_MaxVersion := Version_String latest\<rparr>
               in go_return
                    (if length (rc_MinVersion ch') = 0 \<and> ReleaseChannel_IsHeadsOnly ch'
                     then ch'\<lparr>rc_MinVersion := Version_String latest\<rparr> else ch'))
           else go_return ch) (\<lambda>ch'.
           if length (rc_MinVersion ch') = 0 then
             go_bind (GetChannelMinOrMax net arch (rc_Name ch') True) (\<lambda>first.
               go_return (ch'\<lparr>rc_MinVersion := Version_String first\<rparr>))
           else go_return ch')
      else go_return (ch\<lparr>rc_Full := True\<rparr>))"

text \<open>What the loop body adds to \<open>errs\<close>, to \<open>allImages\<close> and to \<open>versionsByChannel\<close>.\<close>

type_synonym channel_result = "error list \<times> CopyImageSchema list \<times> ReleaseChannel list"

definition forced_error :: error where
  "forced_error = errorf ''forced cincinnati error'' []"

definition process_channel ::
  "nat \<Rightarrow> 'w net \<Rightarrow> bool \<Rightarrow> string \<Rightarrow> ReleaseChannel \<Rightarrow> ('w cstate, channel_result) go" where
  "process_channel frames net fail arch ch =
     (if rc_Type ch = TypeOCP \<and> fail then go_return ([forced_error, forced_error], [], [])
      else if rc_Type ch \<noteq> TypeOCP \<and> rc_Type ch \<noteq> TypeOKD
      then go_return ([errorf ''invalid platform type %v'' []], [], [])
      else go_try (resolve_versions net arch ch) (\<lambda>r.
        case r of
          Inl e \<Rightarrow> go_return ([e], [], [])
        | Inr ch' \<Rightarrow>
            go_try (getChannelDownloads frames net ch' arch) (\<lambda>d.
              case d of
                Inl e \<Rightarrow> go_return ([e], [], [ch'])
              | Inr downloads \<Rightarrow> go_return ([], downloads, [ch']))))"

fun process_channels ::
  "nat \<Rightarrow> 'w net \<Rightarrow> bool \<Rightarrow> string \<Rightarrow> ReleaseChannel list \<Rightarrow> ('w cstate, channel_result) go" where
  "process_channels frames net fail arch [] = go_return ([], [], [])"
| "process_channels frames net fail arch (ch # chs) =
     go_bind (process_channel frames net fail arch ch) (\<lambda>(es, imgs, vs).
     go_bind (process_channels frames net fail arch chs) (\<lambda>(es', imgs', vs').
       go_return (es @ es', imgs @ imgs', vs @ vs')))"

definition versions_by_channel :: "ReleaseChannel list \<Rightarrow> (string \<times> ReleaseChannel) list" where
  "versions_by_channel vs = foldl (\<lambda>m ch. map_put (rc_Name ch) ch m) [] vs"

definition update_channels :: "(string \<times> ReleaseChannel) list \<Rightarrow> ReleaseChannel list \<Rightarrow> ReleaseChannel list" where
  "update_channels versionsByChannel chs =
     map (\<lambda>ch. case map_of versionsByChannel (rc_Name ch) of Some v \<Rightarrow> v | None \<Rightarrow> ch) chs"

definition get_channels :: "('w release_state, ReleaseChannel list) go" where
  "get_channels = (\<lambda>s. (Ok (cfg_Channels (rl_config s)), s))"

definition put_channels :: "(string \<times> ReleaseChannel) list \<Rightarrow> ('w release_state, ReleaseChannel list) go" where
  "put_channels versionsByChannel = (\<lambda>s.
     let chs = update_channels versionsByChannel (cfg_Channels (rl_config s))
     in (Ok chs, s\<lparr>rl_config := set_Platform (\<lambda>p. p\<lparr>pf_Channels := chs\<rparr>) (rl_config s)\<rparr>))"

text \<open>The upgrades between the channels; \<open>fresh\<close> is what the package function
  \<open>NewOCPClient\<close> returns.\<close>

definition cross_channels ::
  "nat \<Rightarrow> 'w net \<Rightarrow> client \<times> error option \<Rightarrow> string \<Rightarrow> ReleaseChannel list \<Rightarrow>
   ('w release_state, error list \<times> CopyImageSchema list) go" where
  "cross_channels frames net fresh arch chs =
     (if length chs > 1 then
        (case fresh of
           (_, Some e) \<Rightarrow> go_return ([e], [])
         | (c, None) \<Rightarrow>
             go_try (with_own_client c (getCrossChannelDownloads frames net arch chs)) (\<lambda>r.
               case r of
                 Inl e \<Rightarrow> go_return ([Errorf ''error calculating cross channel upgrades: %v'' [] [e]], [])
               | Inr newDownloads \<Rightarrow> go_return ([], newDownloads)))
      else go_return ([], []))"

text \<open>One architecture.\<close>

definition process_arch ::
  "nat \<Rightarrow> 'w net \<Rightarrow> client \<times> error option \<Rightarrow> bool \<Rightarrow> string \<Rightarrow>
   ('w release_state, error list \<times> CopyImageSchema list) go" where
  "process_arch frames net fresh fail arch =
     go_bind get_channels (\<lambda>channels.
     go_bind (with_client (process_channels frames net fail arch channels)) (\<lambda>(errs, imgs, vs).
     go_bind (put_channels (versions_by_channel vs)) (\<lambda>chs.
     go_bind (cross_channels frames net fresh arch chs) (\<lambda>(errs', imgs').
       go_return (errs @ errs', imgs @ imgs')))))"

fun process_archs ::
  "nat \<Rightarrow> 'w net \<Rightarrow> client \<times> error option \<Rightarrow> bool \<Rightarrow> string list \<Rightarrow>
   ('w release_state, error list \<times> CopyImageSchema list) go" where
  "process_archs frames net fresh fail [] = go_return ([], [])"
| "process_archs frames net fresh fail (arch # archs) =
     go_bind (process_arch frames net fresh fail arch) (\<lambda>(es, imgs).
     go_bind (process_archs frames net fresh fail archs) (\<lambda>(es', imgs').
       go_return (es @ es', imgs @ imgs')))"

text \<open>The errors collected on the way are logged and not returned; the images are what
  \<open>GenerateReleaseSignatures\<close> returns, the empty list when it fails.\<close>

definition GetReleaseReferenceImages ::
  "nat \<Rightarrow> 'w net \<Rightarrow> 'w sigenv \<Rightarrow> client \<times> error option \<Rightarrow> bool \<Rightarrow> string \<Rightarrow>
   ('w release_state, CopyImageSchema list) go" where
  "GetReleaseReferenceImages frames net env fresh fail dir = (\<lambda>s.
     go_bind (process_archs frames net fresh fail (pf_Architectures (cfg_Platform (rl_config s)))) (\<lambda>(errs, allImages).
       go_try (on_machine (GenerateReleaseSignatures env dir allImages)) (\<lambda>r.
         case r of Inl e \<Rightarrow> go_return [] | Inr imgs \<Rightarrow> go_return imgs)) s)"

section \<open>Laws of FindRelease\<close>

definition bound_version :: "bool \<Rightarrow> ReleaseChannel \<Rightarrow> string" where
  "bound_version minimum ch = (if minimum then rc_MinVersion ch else rc_MaxVersion ch)"

lemma add_releases_distinct:
  assumes "list_all2 (\<lambda>ch v. Parse (bound_version minimum ch) = Ok v) chs vs"
    and "distinct (map fst vers @ map rc_Name chs)"
  shows "add_releases minimum chs vers = Ok (vers @ zip (map rc_Name chs) vs)"
  using assms
proof (induction arbitrary: vers rule: list_all2_induct)
  case (Cons ch chs v vs)
  have "add_releases minimum chs (vers @ [(rc_Name ch, v)]) = Ok ((vers @ [(rc_Name ch, v)]) @ zip (map rc_Name chs) vs)"
    using Cons.prems by (intro Cons.IH) auto
  moreover have "map_put (rc_Name ch) v vers = vers @ [(rc_Name ch, v)]"
    using Cons.prems by (intro map_put_fresh) auto
  ultimately show ?case using Cons.hyps(1) by (simp add: bound_version_def)
qed simp

text \<open>The last key after sorting is least (greatest) by version.\<close>

definition release_cmp :: "bool \<Rightarrow> (string \<Rightarrow> version) \<Rightarrow> string \<Rightarrow> string \<Rightarrow> int" where
  "release_cmp minimum ver a b = (if minimum then Compare (ver b) (ver a) else Compare (ver a) (ver b))"

lemma release_less_cmp: "release_less minimum ver = (\<lambda>a b. release_cmp minimum ver a b = -1)"
proof (intro ext)
  show "release_less minimum ver a b = (release_cmp minimum ver a b = -1)" for a b
    using sv.cmp_swap[of "ver a" "ver b"] by (auto simp: release_less_def release_cmp_def GT_def LT_def)
qed

interpretation rls: three_way "release_cmp minimum ver"
proof -
  have up: "three_way (\<lambda>a b. Compare (ver a) (ver b))" by (rule three_way_map[OF sv.three_way_axioms])
  show "three_way (release_cmp minimum ver)"
    using up three_way_swap[OF up] by (cases minimum) (simp_all add: release_cmp_def[abs_def])
qed

lemma last_key_mem: "keys \<noteq> [] \<Longrightarrow> sort_slice lt keys ! (length keys - 1) \<in> set keys"
  by (metis diff_less length_greater_0_conv length_sort_slice nth_mem set_sort_slice zero_less_one)

lemma FindRelease_extreme:
  assumes "chs \<noteq> []" and "distinct (map rc_Name chs)"
    and "list_all2 (\<lambda>ch v. Parse (bound_version minimum ch) = Ok v) chs vs"
  shows "\<exists>i < length chs. FindRelease chs minimum = Ok (rc_Name (chs ! i), vs ! i) \<and>
      (\<forall>w \<in> set vs. if minimum then Compare (vs ! i) w \<le> 0 else Compare w (vs ! i) \<le> 0)"
proof -
  let ?vers = "zip (map rc_Name chs) vs" and ?keys = "map rc_Name chs"
  have len: "length vs = length chs" using assms(3) by (simp add: list_all2_lengthD)
  have f: "findReleases chs minimum = Ok ?vers"
    using add_releases_distinct[OF assms(3), of "[]"] assms(1,2) by (simp add: findReleases_def)
  define ver where "ver = map_get zero_version ?vers"
  define l where "l = sort_slice (release_less minimum ver) ?keys ! (length chs - 1)"
  have ver_nth: "ver (rc_Name (chs ! i)) = vs ! i" if "i < length chs" for i
    using that len assms(2) map_of_zip_nth[of ?keys vs i] by (simp add: map_get_def ver_def)
  have ext: "release_cmp minimum ver k l \<le> 0" if "k \<in> set ?keys" for k
    using rls.sort_slice_last_max[OF that, of minimum ver] by (simp add: l_def release_less_cmp)
  have "l \<in> set ?keys" using last_key_mem[of ?keys] assms(1) by (simp add: l_def)
  then obtain i where i: "i < length chs" "l = rc_Name (chs ! i)"
    by (metis in_set_conv_nth length_map nth_map)
  have "length chs - Suc 0 < length chs" using assms(1) by simp
  then have "FindRelease chs minimum = Ok (l, ver l)"
    using len assms(1) by (auto simp: FindRelease_def f Let_def go_index_int_def nat_diff_distrib' l_def ver_def)
  moreover have "if minimum then Compare (vs ! i) w \<le> 0 else Compare w (vs ! i) \<le> 0" if w: "w \<in> set vs" for w
  proof -
    from w len obtain j where j: "j < length chs" "w = vs ! j" by (metis in_set_conv_nth)
    then have "release_cmp minimum ver (rc_Name (chs ! j)) l \<le> 0" by (intro ext) simp
    with ver_nth[OF i(1)] ver_nth[OF j(1)] i(2) j(2) show ?thesis by (simp add: release_cmp_def split: if_splits)
  qed
  ultimately show ?thesis using i ver_nth[OF i(1)] by metis
qed


section \<open>Laws of the downloads\<close>

lemma gatherUpdates_zero: "gatherUpdates zero_update zero_update us = map (\<lambda>u. copy_source (n_Image u)) us"
  by (simp add: gatherUpdates_def zero_update_def)

definition plain_version :: "version \<Rightarrow> bool" where
  "plain_version v = (valid_version v \<and> CHR ''x'' \<notin> set (Version_String v))"

lemma plain_ranges:
  assumes "plain_version lo" and "plain_version hi"
  shows "ok_bind (ParseRange (''<='' @ Version_String hi)) (\<lambda>h.
           ok_bind (ParseRange (''>='' @ Version_String lo)) (\<lambda>l. Ok (Range_AND h l))) =
         Ok (\<lambda>u. Ok (Compare u hi \<le> 0 \<and> Compare lo u \<le> 0))"
proof -
  have "Compare u lo \<ge> 0 \<longleftrightarrow> Compare lo u \<le> 0" for u using sv.cmp_swap[of u lo] by auto
  with assms show ?thesis
    by (auto simp: plain_version_def ParseRange_GE[simplified] ParseRange_LE[simplified] Range_AND_def fun_eq_iff)
qed

lemma resolve_versions_Ok:
  assumes "resolve_versions net arch ch s = (Ok ch', s')"
  shows "rc_MinVersion ch' \<noteq> [] \<and> rc_MaxVersion ch' \<noteq> [] \<and> rc_Name ch' = rc_Name ch \<and> rc_Type ch' = rc_Type ch \<and>
    rc_ShortestPath ch' = rc_ShortestPath ch \<and> (rc_Full ch \<longrightarrow> rc_Full ch') \<and>
    (rc_MinVersion ch \<noteq> [] \<longrightarrow> rc_MinVersion ch' = rc_MinVersion ch) \<and>
    (rc_MaxVersion ch \<noteq> [] \<longrightarrow> rc_MaxVersion ch' = rc_MaxVersion ch)"
proof -
  have ne: "Version_String v \<noteq> []" for v by (simp add: Version_String_def)
  show ?thesis
  proof (cases "rc_MaxVersion ch = []"; cases "rc_MinVersion ch = []")
    assume "rc_MaxVersion ch = []" "rc_MinVersion ch = []"
    then show ?thesis using assms ne
      by (auto simp: resolve_versions_def Let_def elim!: go_bind_OkE split: if_splits)
  next
    assume "rc_MaxVersion ch = []" "rc_MinVersion ch \<noteq> []"
    then show ?thesis using assms ne by (auto simp: resolve_versions_def Let_def elim!: go_bind_OkE)
  next
    assume "rc_MaxVersion ch \<noteq> []" "rc_MinVersion ch = []"
    then show ?thesis using assms ne by (auto simp: resolve_versions_def Let_def elim!: go_bind_OkE)
  next
    assume "rc_MaxVersion ch \<noteq> []" "rc_MinVersion ch \<noteq> []"
    then show ?thesis using assms by (auto simp: resolve_versions_def)
  qed
qed

section \<open>Laws of signatures\<close>

lemma signature_data_Ok: "signature_data env dir digest s = (Ok data, t) \<Longrightarrow> mc_fs t = mc_fs s"
  by (auto simp: signature_data_def read_cache_def fetch_signature_def on_world_def
      split: if_splits prod.splits elim!: go_bind_OkE go_try_OkE)

lemma sign_image_OkE:
  assumes "sign_image env dir img s = (Ok img', s')"
  obtains digest data t r where "go_index (Split (ci_Source img) '':'') 1 = Ok digest"
    "signature_data env dir digest s = (Ok data, t)" "data \<noteq> []" "signed_reference env data = Ok (ci_Source img')"
    "img' = img\<lparr>ci_Source := ci_Source img'\<rparr>" "on_fs (WriteFile (signature_file dir digest) data) t = (r, s')"
proof -
  from assms obtain digest where 1: "go_index (Split (ci_Source img) '':'') 1 = Ok digest"
    by (auto simp: sign_image_def elim!: go_bind_OkE)
  with assms obtain data t where 2: "signature_data env dir digest s = (Ok data, t)" "data \<noteq> []"
    and 3: "go_bind (go_lift (signed_reference env data)) (\<lambda>ref.
         go_try (on_fs (WriteFile (signature_file dir digest) data)) (\<lambda>_. go_return (img\<lparr>ci_Source := ref\<rparr>))) t = (Ok img', s')"
    by (auto simp: sign_image_def split: if_splits elim!: go_bind_OkE)
  from 3 obtain ref r where "signed_reference env data = Ok ref" "img' = img\<lparr>ci_Source := ref\<rparr>"
    "on_fs (WriteFile (signature_file dir digest) data) t = (r, s')"
    by (auto elim!: go_bind_OkE go_try_OkE)
  with 1 2 that show thesis by force
qed

lemma sign_image_Ok:
  assumes "go_index (Split (ci_Source img) '':'') 1 = Ok digest" and "signature_data env dir digest s = (Ok data, t)"
    and "data \<noteq> []" and "signed_reference env data = Ok ref"
  shows "\<exists>s'. sign_image env dir img s = (Ok (img\<lparr>ci_Source := ref\<rparr>), s') \<and> mc_world s' = mc_world t"
  using assms by (auto simp: sign_image_def go_try_def on_fs_def split: prod.splits outcome.splits)

text \<open>A signature that was written to the cache is used instead of a request.\<close>

lemma sign_image_again:
  assumes "sign_image env dir img s = (Ok img', s')" and "go_index (Split (ci_Source img) '':'') 1 = Ok digest"
    and "fst (WriteFile (signature_file dir digest) [] (mc_fs s)) = Ok ()"
    and "fs_fault (mc_fs s) ''read'' (path_of (signature_file dir digest)) = None"
  shows "\<exists>s''. sign_image env dir img s' = (Ok img', s'') \<and> mc_world s'' = mc_world s'"
proof -
  let ?f = "signature_file dir digest"
  from assms(1) obtain data t r where d: "data \<noteq> []" "signed_reference env data = Ok (ci_Source img')"
    and sd: "signature_data env dir digest s = (Ok data, t)"
    and img': "img' = img\<lparr>ci_Source := ci_Source img'\<rparr>" and w: "on_fs (WriteFile ?f data) t = (r, s')"
    using assms(2) by (auto elim!: sign_image_OkE)
  have t: "mc_fs t = mc_fs s" by (rule signature_data_Ok[OF sd])
  have wf: "WriteFile ?f data (mc_fs s) = (Ok (), put_node (path_of ?f) (File data) (mc_fs s))"
    by (rule WriteFile_any_content[OF assms(3)])
  with w t have "mc_fs s' = put_node (path_of ?f) (File data) (mc_fs s)" by (auto simp: on_fs_def)
  with ReadFile_WriteFile[OF wf assms(4)] have "signature_data env dir digest s' = (Ok data, s')"
    using d(1) by (simp add: signature_data_def read_cache_def go_bind_def)
  from sign_image_Ok[OF assms(2) this d] img' show ?thesis by metis
qed

lemma signatures_Ok:
  "GenerateReleaseSignatures env dir rd s = (Ok imgs, s') \<Longrightarrow>
   list_all2 (\<lambda>img img'. \<exists>data. data \<noteq> [] \<and> signed_reference env data = Ok (ci_Source img') \<and>
     ci_Destination img' = ci_Destination img) rd imgs"
proof (induction rd arbitrary: s imgs)
  case (Cons img rd)
  from Cons.prems obtain img' t imgs' where 1: "sign_image env dir img s = (Ok img', t)"
    and 2: "GenerateReleaseSignatures env dir rd t = (Ok imgs', s')" and "imgs = img' # imgs'"
    by (auto elim!: go_bind_OkE)
  moreover from 1 have "\<exists>data. data \<noteq> [] \<and> signed_reference env data = Ok (ci_Source img') \<and>
     ci_Destination img' = ci_Destination img"
    by (elim sign_image_OkE) (metis CopyImageSchema.select_convs(2) CopyImageSchema.surjective CopyImageSchema.update_convs(1))
  ultimately show ?case using Cons.IH[OF 2] by simp
qed simp


section \<open>Laws of GetReleaseReferenceImages\<close>

definition no_err :: "('s, 'a) go \<Rightarrow> bool" where
  "no_err m \<longleftrightarrow> (\<forall>s. \<not> is_err (fst (m s)))"

lemma no_err_bind: "no_err m \<Longrightarrow> (\<And>a. no_err (f a)) \<Longrightarrow> no_err (go_bind m f)"
  unfolding no_err_def go_bind_def by (auto split: prod.splits outcome.splits) (metis fst_conv is_err.simps(1))

lemma no_err_try: "(\<And>a. no_err (f a)) \<Longrightarrow> no_err (go_try m f)"
  unfolding no_err_def go_try_def by (auto split: prod.splits outcome.splits)

lemma no_err_return [simp]: "no_err (go_return a)" "no_err (go_panic p)"
  by (simp_all add: no_err_def)

lemma no_err_with_client: "no_err m \<Longrightarrow> no_err (with_client m)"
  by (auto simp: no_err_def with_client_def split: prod.splits) (metis fst_conv)

lemma no_err_process_channels: "no_err (process_channels frames net fail arch chs)"
proof (induction chs)
  case (Cons ch chs)
  have "no_err (process_channel frames net fail arch ch)"
    by (auto simp: process_channel_def intro!: no_err_try split: sum.splits)
  with Cons show ?case by (auto intro!: no_err_bind)
qed (simp add: no_err_def)

lemma no_err_process_archs: "no_err (process_archs frames net fresh fail archs)"
proof (induction archs)
  case (Cons arch archs)
  have "no_err get_channels" "no_err (put_channels m)" for m
    by (simp_all add: no_err_def get_channels_def put_channels_def Let_def)
  moreover have "no_err (cross_channels frames net fresh arch chs)" for chs
    by (auto simp: cross_channels_def intro!: no_err_try split: sum.splits prod.splits option.splits)
  ultimately have "no_err (process_arch frames net fresh fail arch)"
    unfolding process_arch_def
    by (auto intro!: no_err_bind no_err_with_client no_err_process_channels split: prod.splits)
  with Cons show ?case by (auto intro!: no_err_bind)
qed (simp add: no_err_def)

text \<open>What the run keeps of a channel of the configuration.\<close>

definition kept :: "ReleaseChannel \<Rightarrow> ReleaseChannel \<Rightarrow> bool" where
  "kept ch ch' \<longleftrightarrow> ch' = ch \<or>
     rc_Name ch' = rc_Name ch \<and> rc_Type ch' = rc_Type ch \<and> rc_ShortestPath ch' = rc_ShortestPath ch \<and>
     (rc_Full ch \<longrightarrow> rc_Full ch') \<and> rc_MinVersion ch' \<noteq> [] \<and> rc_MaxVersion ch' \<noteq> [] \<and>
     (rc_MinVersion ch \<noteq> [] \<longrightarrow> rc_MinVersion ch' = rc_MinVersion ch) \<and>
     (rc_MaxVersion ch \<noteq> [] \<longrightarrow> rc_MaxVersion ch' = rc_MaxVersion ch)"

lemma kept_refl [simp]: "kept ch ch"
  by (simp add: kept_def)

lemma kept_trans: "kept a b \<Longrightarrow> kept b c \<Longrightarrow> kept a c"
  unfolding kept_def by (elim disjE conjE) simp_all

text \<open>The configuration with other channels and nothing else changed.\<close>

definition set_Channels :: "ReleaseChannel list \<Rightarrow> ImageSetConfiguration \<Rightarrow> ImageSetConfiguration" where
  "set_Channels chs cfg = set_Platform (\<lambda>p. p\<lparr>pf_Channels := chs\<rparr>) cfg"

lemma set_Channels_simps [simp]:
  "cfg_Channels (set_Channels chs cfg) = chs" "set_Channels chs (set_Channels chs' cfg) = set_Channels chs cfg"
  "set_Channels (cfg_Channels cfg) cfg = cfg"
  by (simp_all add: set_Channels_def set_Platform_def)

lemma process_channel_kept:
  "process_channel frames net fail arch ch s = (Ok (es, imgs, vs), s') \<Longrightarrow> v \<in> set vs \<Longrightarrow> kept ch v"
proof -
  assume p: "process_channel frames net fail arch ch s = (Ok (es, imgs, vs), s')" and v: "v \<in> set vs"
  obtain r t where r: "resolve_versions net arch ch s = (r, t)" by (rule prod.exhaust)
  from p v have body: "go_try (resolve_versions net arch ch) (\<lambda>r.
        case r of
          Inl e \<Rightarrow> go_return ([e], [], [])
        | Inr ch' \<Rightarrow>
            go_try (getChannelDownloads frames net ch' arch) (\<lambda>d.
              case d of
                Inl e \<Rightarrow> go_return ([e], [], [ch'])
              | Inr downloads \<Rightarrow> go_return ([], downloads, [ch']))) s = (Ok (es, imgs, vs), s')"
    unfolding process_channel_def by (cases "rc_Type ch = TypeOCP"; cases "rc_Type ch = TypeOKD"; cases fail) simp_all
  have "r = Ok v"
  proof (cases r)
    case (Ok ch')
    obtain d u where d: "getChannelDownloads frames net ch' arch t = (d, u)" by (rule prod.exhaust)
    show ?thesis using body r Ok d v by (cases d) auto
  qed (use body r v in auto)
  with r resolve_versions_Ok show ?thesis unfolding kept_def by blast
qed

lemma process_channels_kept:
  "process_channels frames net fail arch chs s = (Ok (es, imgs, vs), s') \<Longrightarrow> v \<in> set vs \<Longrightarrow>
   \<exists>ch \<in> set chs. kept ch v"
proof (induction chs arbitrary: s es imgs vs)
  case (Cons ch chs)
  from Cons.prems(1) obtain es1 imgs1 vs1 t es2 imgs2 vs2 where
    1: "process_channel frames net fail arch ch s = (Ok (es1, imgs1, vs1), t)" and
    2: "process_channels frames net fail arch chs t = (Ok (es2, imgs2, vs2), s')" and "vs = vs1 @ vs2"
    by (auto elim!: go_bind_OkE)
  with Cons.IH[OF 2] process_channel_kept[OF 1] Cons.prems(2) show ?case by auto
qed simp

lemma versions_by_channel_Some:
  "map_of (versions_by_channel vs) n = Some v \<Longrightarrow> v \<in> set vs \<and> rc_Name v = n"
  by (induction vs rule: rev_induct) (auto simp: versions_by_channel_def split: if_splits)

lemma update_channels_kept:
  assumes "distinct (map rc_Name chs)" and "\<And>v. v \<in> set vs \<Longrightarrow> \<exists>ch \<in> set chs. kept ch v"
  shows "list_all2 kept chs (update_channels (versions_by_channel vs) chs)"
proof -
  have "kept ch v" if "ch \<in> set chs" and "map_of (versions_by_channel vs) (rc_Name ch) = Some v" for ch v
  proof -
    from versions_by_channel_Some[OF that(2)] assms(2) obtain ch' where "ch' \<in> set chs" "kept ch' v" "rc_Name v = rc_Name ch"
      by blast
    with that(1) assms(1) have "ch' = ch" by (auto simp: kept_def distinct_map inj_on_def)
    with \<open>kept ch' v\<close> show ?thesis by simp
  qed
  then show ?thesis
    by (auto simp: update_channels_def list_all2_conv_all_nth split: option.splits)
qed

lemma process_arch_kept:
  assumes "process_arch frames net fresh fail arch s = (Ok r, s')" and "distinct (map rc_Name (cfg_Channels (rl_config s)))"
  shows "\<exists>chs. rl_config s' = set_Channels chs (rl_config s) \<and> list_all2 kept (cfg_Channels (rl_config s)) chs"
proof -
  have cl: "rl_config t = rl_config s" if "with_client m s = (q, t)" for m q t
    using that by (auto simp: with_client_def split: prod.splits)
  have cr: "rl_config u = rl_config t" if "cross_channels frames net fresh arch chs t = (q, u)" for chs t q u
    using that by (auto simp: cross_channels_def with_own_client_def go_try_def
        split: if_splits prod.splits option.splits outcome.splits)
  from assms(1) obtain es imgs vs t where
    p: "with_client (process_channels frames net fail arch (cfg_Channels (rl_config s))) s = (Ok (es, imgs, vs), t)"
    and "rl_config s' = set_Channels (update_channels (versions_by_channel vs) (cfg_Channels (rl_config t))) (rl_config t)"
    by (auto simp: process_arch_def get_channels_def put_channels_def Let_def set_Channels_def dest!: cr elim!: go_bind_OkE)
  moreover from p have "\<exists>s1 s2. process_channels frames net fail arch (cfg_Channels (rl_config s)) s1 = (Ok (es, imgs, vs), s2)"
    by (auto simp: with_client_def split: prod.splits)
  ultimately show ?thesis
    using update_channels_kept[OF assms(2)] process_channels_kept cl[OF p] by metis
qed

lemma process_archs_kept:
  "process_archs frames net fresh fail archs s = (Ok r, s') \<Longrightarrow> distinct (map rc_Name (cfg_Channels (rl_config s))) \<Longrightarrow>
   \<exists>chs. rl_config s' = set_Channels chs (rl_config s) \<and> list_all2 kept (cfg_Channels (rl_config s)) chs"
proof (induction archs arbitrary: s r)
  case Nil
  then show ?case by (intro exI[of _ "cfg_Channels (rl_config s)"]) (simp add: list_all2_refl)
next
  case (Cons arch archs)
  from Cons.prems(1) obtain q t r' where a: "process_arch frames net fresh fail arch s = (Ok q, t)"
    and as: "process_archs frames net fresh fail archs t = (Ok r', s')"
    by (auto elim!: go_bind_OkE)
  obtain chs where t: "rl_config t = set_Channels chs (rl_config s)" and k: "list_all2 kept (cfg_Channels (rl_config s)) chs"
    using process_arch_kept[OF a Cons.prems(2)] by blast
  have "map rc_Name chs = map rc_Name (cfg_Channels (rl_config s))"
    using k by (auto simp: list_all2_conv_all_nth kept_def intro!: nth_equalityI)
  then obtain chs' where "rl_config s' = set_Channels chs' (rl_config t)" "list_all2 kept chs chs'"
    using Cons.IH[OF as] Cons.prems(2) t by auto
  moreover from this(2) k have "list_all2 kept (cfg_Channels (rl_config s)) chs'" using list_all2_trans[of kept kept kept] kept_trans by blast
  ultimately show ?case using t by auto
qed

lemma signed_reference_Ok:
  assumes "signed_reference env data = Ok ref"
  shows "\<exists>data md sc. sg_read env data = Ok md \<and> mg_SignedBy md \<noteq> None \<and>
    sg_json env (mg_Content md) = Ok (Some sc) \<and> ref = sg_DockerReference (ss_Critical sc)"
proof -
  from assms obtain md where md: "sg_read env data = Ok md"
    by (cases "sg_read env data") (auto simp: signed_reference_def)
  with assms obtain o' where o': "sg_json env (mg_Content md) = Ok o'"
    by (cases "sg_json env (mg_Content md)") (auto simp: signed_reference_def split: if_splits)
  with md assms show ?thesis
    by (cases o'; cases "mg_SignedBy md") (auto simp: signed_reference_def split: if_splits intro!: exI[of _ data])
qed

lemma downloads_in_range:
  assumes "fetch_graph net arch (rc_Name ch) [] s = (Ok g, s')" and "\<not> rc_ShortestPath ch"
    and "rc_MinVersion ch = Version_String lo" and "rc_MaxVersion ch = Version_String hi"
    and "plain_version lo" and "plain_version hi"
  shows "getChannelDownloads frames net ch arch s =
    (Ok (map (\<lambda>n. copy_source (n_Image n))
       (filter (\<lambda>n. Compare lo (n_Version n) \<le> 0 \<and> Compare (n_Version n) hi \<le> 0) (g_Nodes g))), s')"
proof -
  have "Parse (Version_String lo) = Ok lo" "Parse (Version_String hi) = Ok hi"
    using assms(5,6) by (simp_all add: plain_version_def Parse_Version_String)
  moreover obtain h l where "ParseRange (''<='' @ Version_String hi) = Ok h" "ParseRange (''>='' @ Version_String lo) = Ok l"
    "Range_AND h l = (\<lambda>u. Ok (Compare u hi \<le> 0 \<and> Compare lo u \<le> 0))"
    using plain_ranges[OF assms(5,6)] by (auto simp: ok_bind_eq_Ok)
  ultimately show ?thesis
    using assms(1-4)
    by (simp add: getChannelDownloads_def GetUpdatesInRange_def gatherUpdates_zero filter_range_pure conj_commute)
qed

section \<open>Properties\<close>

definition demo_channel :: ReleaseChannel where
  "demo_channel =
     \<lparr>rc_Name = ''stable-4.3'', rc_Type = TypeOCP, rc_MinVersion = Version_String (demo_version 2),
      rc_MaxVersion = Version_String (demo_version 3), rc_ShortestPath = False, rc_Full = False\<rparr>"

definition demo_channel_okd :: ReleaseChannel where
  "demo_channel_okd = demo_channel\<lparr>rc_Name := ''stable-4.1'', rc_Type := TypeOKD,
     rc_MinVersion := Version_String (demo_version 1), rc_MaxVersion := Version_String (demo_version 1)\<rparr>"

definition demo_sigenv :: "unit sigenv" where
  "demo_sigenv =
     \<lparr>sg_get = (\<lambda>_ w. (Ok (200, ''msg''), w)),
      sg_read = (\<lambda>_. Ok \<lparr>mg_IsSigned = True, mg_Content = ''{}'', mg_SignatureError = None,
                        mg_SignedBy = Some ''0f'', mg_SignatureV3 = Some ''1a''\<rparr>),
      sg_json = (\<lambda>_. Ok (Some \<lparr>ss_Critical = \<lparr>sg_DockerManifestDigest = [], sg_Type = [],
                                    sg_DockerReference = ''quay.io/r:v''\<rparr>, ss_Creator = []\<rparr>))\<rparr>"

definition demo_release :: "unit release_state" where
  "demo_release =
     \<lparr>rl_client = zero_client ocpClient,
      rl_config = set_Platform (\<lambda>p. p\<lparr>pf_Channels := [demo_channel], pf_Architectures := [''amd64'']\<rparr>) zero_config,
      rl_machine = \<lparr>mc_fs = \<lparr>fs_nodes = [([''signatures''], Dir)], fs_fault = \<lambda>_ _. None\<rparr>, mc_world = ()\<rparr>\<rparr>"

lemma demo_plain: "Parse (Version_String (demo_version m)) = Ok (demo_version m)"
  using demo_dec_version[of m] by (simp add: dec_version_def)

lemma demo_plain_version [simp]: "plain_version (demo_version 1)" "plain_version (demo_version 2)" "plain_version (demo_version 3)"
  by (simp_all add: plain_version_def valid_version_def demo_version_def Version_String_def digit_char_def)

text \<open>C23: FindRelease on channels with different names whose versions all parse returns the name and
  the version of a channel that no other channel is below (or above, for the maximum).\<close>

theorem FindRelease_correct:
  assumes "chs \<noteq> []" and "distinct (map rc_Name chs)"
    and "list_all2 (\<lambda>ch v. Parse (if minimum then rc_MinVersion ch else rc_MaxVersion ch) = Ok v) chs vs"
  shows "\<exists>i < length chs. FindRelease chs minimum = Ok (rc_Name (chs ! i), vs ! i) \<and>
      (\<forall>w \<in> set vs. if minimum then Compare (vs ! i) w \<le> 0 else Compare w (vs ! i) \<le> 0)"
  using FindRelease_extreme[OF assms(1,2), of minimum vs] assms(3) by (simp add: bound_version_def)

theorem FindRelease_correct_witness:
  "\<exists>i < length [demo_channel, demo_channel_okd].
      FindRelease [demo_channel, demo_channel_okd] True =
        Ok (rc_Name ([demo_channel, demo_channel_okd] ! i), [demo_version 2, demo_version 1] ! i) \<and>
      (\<forall>w \<in> set [demo_version 2, demo_version 1].
         if True then Compare ([demo_version 2, demo_version 1] ! i) w \<le> 0
         else Compare w ([demo_version 2, demo_version 1] ! i) \<le> 0)"
  by (rule FindRelease_correct) (simp_all add: demo_channel_def demo_channel_okd_def demo_plain)

text \<open>C4: For a channel that does not ask for the shortest path and whose two versions are versions without the
  letter x in their text (the range parser of the semver library takes an x for a wildcard),
  getChannelDownloads returns exactly the images of the nodes of the channel's graph whose version lies
  between the two, both included, in the order of the graph.\<close>

theorem getChannelDownloads_in_range:
  assumes "fetch_graph net arch (rc_Name ch) [] s = (Ok g, s')" and "\<not> rc_ShortestPath ch"
    and "rc_MinVersion ch = Version_String lo" and "rc_MaxVersion ch = Version_String hi"
    and "valid_version lo" and "valid_version hi" and "CHR ''x'' \<notin> set (rc_MinVersion ch)" and "CHR ''x'' \<notin> set (rc_MaxVersion ch)"
  shows "getChannelDownloads frames net ch arch s =
    (Ok (map (\<lambda>n. copy_source (n_Image n))
       (filter (\<lambda>n. Compare lo (n_Version n) \<le> 0 \<and> Compare (n_Version n) hi \<le> 0) (g_Nodes g))), s')"
  using assms by (intro downloads_in_range) (simp_all add: plain_version_def)

text \<open>An x that is no wildcard makes the range an error.\<close>

lemma x_in_version: "is_err (ParseRange ''<=4.12.0-fix'')"
  by code_simp

theorem getChannelDownloads_in_range_witness:
  "getChannelDownloads 1 demo_net demo_channel ''amd64'' (zero_client ocpClient, ()) =
    (Ok (map (\<lambda>n. copy_source (n_Image n))
       (filter (\<lambda>n. Compare (demo_version 2) (n_Version n) \<le> 0 \<and> Compare (n_Version n) (demo_version 3) \<le> 0)
         (g_Nodes demo_graph))),
     (SetQueryParams ''amd64'' (rc_Name demo_channel) [] (zero_client ocpClient), ()))"
  using demo_plain_version
  by (intro getChannelDownloads_in_range[OF demo_fetch]) (simp_all add: demo_channel_def plain_version_def del: demo_plain_version)

text \<open>GetReleaseReferenceImages returns no error: what goes wrong for a channel, an architecture
  or a signature is only logged.\<close>

lemma GetReleaseReferenceImages_no_error:
  "\<not> is_err (fst (GetReleaseReferenceImages frames net env fresh fail dir s))"
proof -
  have "no_err (go_bind (process_archs frames net fresh fail archs) (\<lambda>(errs, allImages).
       go_try (on_machine (GenerateReleaseSignatures env dir allImages)) (\<lambda>r.
         case r of Inl e \<Rightarrow> go_return [] | Inr imgs \<Rightarrow> go_return imgs)))" for archs
    by (auto intro!: no_err_bind no_err_process_archs no_err_try split: sum.splits)
  then show ?thesis by (simp add: GetReleaseReferenceImages_def no_err_def)
qed

text \<open>C22: Every image GetReleaseReferenceImages returns is the docker reference in the content of a
  message that names a key of the embedded key ring as its signer (the code logs a signature that does
  not verify, and goes on).\<close>

theorem GetReleaseReferenceImages_signed:
  assumes "GetReleaseReferenceImages frames net env fresh fail dir s = (Ok imgs, s')" and "img \<in> set imgs"
  shows "\<exists>data md sc. sg_read env data = Ok md \<and> mg_SignedBy md \<noteq> None \<and>
    sg_json env (mg_Content md) = Ok (Some sc) \<and> ci_Source img = sg_DockerReference (ss_Critical sc)"
proof -
  from assms obtain rd t u where "GenerateReleaseSignatures env dir rd t = (Ok imgs, u)"
    by (auto simp: GetReleaseReferenceImages_def on_machine_def split: prod.splits elim!: go_bind_OkE go_try_OkE)
  from signatures_Ok[OF this] assms(2) obtain data where "signed_reference env data = Ok (ci_Source img)"
    by (auto simp: list_all2_conv_all_nth in_set_conv_nth)
  then show ?thesis by (rule signed_reference_Ok)
qed

lemma getChannelDownloads_demo:
  "getChannelDownloads frames demo_net (demo_channel\<lparr>rc_Full := True\<rparr>) ''amd64'' (zero_client ocpClient, ()) =
   (Ok [copy_source ''q/b:0b'', copy_source ''q/c:0c''],
    (SetQueryParams ''amd64'' ''stable-4.3'' [] (zero_client ocpClient), ()))"
proof -
  have "filter (\<lambda>n. Compare (demo_version 2) (n_Version n) \<le> 0 \<and> Compare (n_Version n) (demo_version 3) \<le> 0) (g_Nodes demo_graph) =
    [g_Nodes demo_graph ! 1, g_Nodes demo_graph ! 2]" by code_simp
  moreover have "n_Image (g_Nodes demo_graph ! 1) = ''q/b:0b''" "n_Image (g_Nodes demo_graph ! 2) = ''q/c:0c''"
    by (simp_all add: demo_graph_def)
  ultimately show ?thesis
    using downloads_in_range[OF demo_fetch, of "demo_channel\<lparr>rc_Full := True\<rparr>" "demo_version 2" "demo_version 3"]
    by (simp add: demo_channel_def)
qed

lemma demo_process:
  "process_archs frames demo_net (zero_client ocpClient, None) False [''amd64''] demo_release =
   (Ok ([], [copy_source ''q/b:0b'', copy_source ''q/c:0c'']),
    demo_release\<lparr>rl_client := SetQueryParams ''amd64'' ''stable-4.3'' [] (zero_client ocpClient),
      rl_config := set_Platform (\<lambda>p. p\<lparr>pf_Channels := [demo_channel\<lparr>rc_Full := True\<rparr>], pf_Architectures := [''amd64'']\<rparr>) zero_config\<rparr>)"
proof -
  have v: "rc_MinVersion demo_channel \<noteq> [] \<and> rc_MaxVersion demo_channel \<noteq> [] \<and> rc_Type demo_channel = TypeOCP"
    by (simp add: demo_channel_def Version_String_def)
  have "process_channel frames demo_net False ''amd64'' demo_channel (zero_client ocpClient, ()) =
    (Ok ([], [copy_source ''q/b:0b'', copy_source ''q/c:0c''], [demo_channel\<lparr>rc_Full := True\<rparr>]),
     (SetQueryParams ''amd64'' ''stable-4.3'' [] (zero_client ocpClient), ()))"
    using v by (simp add: process_channel_def resolve_versions_def getChannelDownloads_demo)
  then show ?thesis
    by (simp add: demo_release_def process_arch_def get_channels_def with_client_def put_channels_def cross_channels_def
        update_channels_def versions_by_channel_def Let_def set_Platform_def)
qed

lemma demo_signatures:
  "fst (GenerateReleaseSignatures demo_sigenv [] [copy_source ''q/b:0b'', copy_source ''q/c:0c''] (rl_machine demo_release)) =
   Ok [copy_source ''quay.io/r:v'', copy_source ''quay.io/r:v'']"
  by code_simp

theorem GetReleaseReferenceImages_signed_witness:
  "\<exists>imgs s' img. GetReleaseReferenceImages 1 demo_net demo_sigenv (zero_client ocpClient, None) False [] demo_release = (Ok imgs, s') \<and>
     img \<in> set imgs \<and>
     (\<exists>data md sc. sg_read demo_sigenv data = Ok md \<and> mg_SignedBy md \<noteq> None \<and>
       sg_json demo_sigenv (mg_Content md) = Ok (Some sc) \<and> ci_Source img = sg_DockerReference (ss_Critical sc))"
proof -
  let ?img = "copy_source ''quay.io/r:v''"
  have archs: "pf_Architectures (cfg_Platform (rl_config demo_release)) = [''amd64'']"
    by (simp add: demo_release_def)
  obtain m where "GenerateReleaseSignatures demo_sigenv [] [copy_source ''q/b:0b'', copy_source ''q/c:0c'']
      (rl_machine demo_release) = (Ok [?img, ?img], m)"
    using demo_signatures by (metis prod.collapse)
  then have "\<exists>s'. GetReleaseReferenceImages 1 demo_net demo_sigenv (zero_client ocpClient, None) False [] demo_release = (Ok [?img, ?img], s')"
    by (simp add: GetReleaseReferenceImages_def archs demo_process on_machine_def go_bind_def go_try_def
        del: process_archs.simps GenerateReleaseSignatures.simps)
  then obtain s' where s': "GetReleaseReferenceImages 1 demo_net demo_sigenv (zero_client ocpClient, None) False [] demo_release = (Ok [?img, ?img], s')" ..
  have mem: "?img \<in> set [?img, ?img]" by simp
  show ?thesis using s' mem GetReleaseReferenceImages_signed[OF s' mem] by blast
qed

text \<open>C24: GetReleaseReferenceImages changes nothing of the configuration but its channels, and of a channel (the
  names being different) only this: it keeps name, type, shortest-path flag and the versions that are set, fills in
  the versions that were left open, and may switch the flag full on, never off; a channel it changes has both
  versions afterwards.\<close>

theorem GetReleaseReferenceImages_config:
  assumes "GetReleaseReferenceImages frames net env fresh fail dir s = (Ok imgs, s')"
    and "distinct (map rc_Name (cfg_Channels (rl_config s)))"
  shows "\<exists>chs. rl_config s' = set_Platform (\<lambda>p. p\<lparr>pf_Channels := chs\<rparr>) (rl_config s) \<and>
    list_all2 (\<lambda>ch ch'. ch' = ch \<or>
      (\<exists>lo hi full. ch' = ch\<lparr>rc_MinVersion := lo, rc_MaxVersion := hi, rc_Full := full\<rparr> \<and> lo \<noteq> [] \<and> hi \<noteq> [] \<and> (rc_Full ch \<longrightarrow> full) \<and>
        (rc_MinVersion ch \<noteq> [] \<longrightarrow> lo = rc_MinVersion ch) \<and> (rc_MaxVersion ch \<noteq> [] \<longrightarrow> hi = rc_MaxVersion ch)))
      (cfg_Channels (rl_config s)) chs"
proof -
  from assms(1) obtain r t where "process_archs frames net fresh fail (pf_Architectures (cfg_Platform (rl_config s))) s = (Ok r, t)"
    and "rl_config s' = rl_config t"
    by (auto simp: GetReleaseReferenceImages_def on_machine_def split: prod.splits elim!: go_bind_OkE go_try_OkE)
  then obtain chs where "rl_config s' = set_Channels chs (rl_config s)" and k: "list_all2 kept (cfg_Channels (rl_config s)) chs"
    using process_archs_kept[OF _ assms(2)] by metis
  moreover have "kept ch ch' \<Longrightarrow> ch' = ch \<or>
      (\<exists>lo hi full. ch' = ch\<lparr>rc_MinVersion := lo, rc_MaxVersion := hi, rc_Full := full\<rparr> \<and> lo \<noteq> [] \<and> hi \<noteq> [] \<and> (rc_Full ch \<longrightarrow> full) \<and>
        (rc_MinVersion ch \<noteq> [] \<longrightarrow> lo = rc_MinVersion ch) \<and> (rc_MaxVersion ch \<noteq> [] \<longrightarrow> hi = rc_MaxVersion ch))" for ch ch'
    unfolding kept_def by (cases ch; cases ch') auto
  from list_all2_mono[OF k this] have "list_all2 (\<lambda>ch ch'. ch' = ch \<or>
      (\<exists>lo hi full. ch' = ch\<lparr>rc_MinVersion := lo, rc_MaxVersion := hi, rc_Full := full\<rparr> \<and> lo \<noteq> [] \<and> hi \<noteq> [] \<and> (rc_Full ch \<longrightarrow> full) \<and>
        (rc_MinVersion ch \<noteq> [] \<longrightarrow> lo = rc_MinVersion ch) \<and> (rc_MaxVersion ch \<noteq> [] \<longrightarrow> hi = rc_MaxVersion ch)))
      (cfg_Channels (rl_config s)) chs" .
  ultimately show ?thesis unfolding set_Channels_def by blast
qed

theorem GetReleaseReferenceImages_config_witness:
  "\<exists>imgs s' ch full. GetReleaseReferenceImages 1 demo_net demo_sigenv (zero_client ocpClient, None) False [] demo_release = (Ok imgs, s') \<and>
     cfg_Channels (rl_config demo_release) = [ch] \<and> cfg_Channels (rl_config s') = [ch\<lparr>rc_Full := full\<rparr>]"
proof -
  have archs: "pf_Architectures (cfg_Platform (rl_config demo_release)) = [''amd64'']"
    by (simp add: demo_release_def)
  obtain m imgs where "GenerateReleaseSignatures demo_sigenv [] [copy_source ''q/b:0b'', copy_source ''q/c:0c'']
      (rl_machine demo_release) = (Ok imgs, m)"
    using demo_signatures by (metis prod.collapse)
  then obtain s' where s': "GetReleaseReferenceImages 1 demo_net demo_sigenv (zero_client ocpClient, None) False [] demo_release = (Ok imgs, s')"
    by (simp add: GetReleaseReferenceImages_def archs demo_process on_machine_def go_bind_def go_try_def
        del: process_archs.simps GenerateReleaseSignatures.simps)
  have chs: "cfg_Channels (rl_config demo_release) = [demo_channel]" by (simp add: demo_release_def)
  have set: "rc_MinVersion demo_channel \<noteq> []" "rc_MaxVersion demo_channel \<noteq> []" by (simp_all add: demo_channel_def Version_String_def)
  have "distinct (map rc_Name (cfg_Channels (rl_config demo_release)))" by (simp add: chs)
  from GetReleaseReferenceImages_config[OF s' this] set
  have "\<exists>full. cfg_Channels (rl_config s') = [demo_channel\<lparr>rc_Full := full\<rparr>]"
    unfolding chs by (auto simp: list_all2_Cons1 demo_channel_def)
  with s' chs show ?thesis by blast
qed

text \<open>C25: Once a signature has been written to the cache directory, signing the same image again
  gives the same result and sends no request.\<close>

theorem sign_image_cached:
  assumes "sign_image env dir img s = (Ok img', s')" and "go_index (Split (ci_Source img) '':'') 1 = Ok digest"
    and "fst (WriteFile (signature_file dir digest) [] (mc_fs s)) = Ok ()"
    and "fs_fault (mc_fs s) ''read'' (path_of (signature_file dir digest)) = None"
  shows "\<exists>s''. sign_image env dir img s' = (Ok img', s'') \<and> mc_world s'' = mc_world s'"
  using assms by (rule sign_image_again)

theorem sign_image_cached_witness:
  "\<exists>s' s''. sign_image demo_sigenv ''.'' (copy_source ''q/b:0b'') (rl_machine demo_release) = (Ok (copy_source ''quay.io/r:v''), s') \<and>
     sign_image demo_sigenv ''.'' (copy_source ''q/b:0b'') s' = (Ok (copy_source ''quay.io/r:v''), s'') \<and> mc_world s'' = mc_world s'"
proof -
  have "fst (sign_image demo_sigenv ''.'' (copy_source ''q/b:0b'') (rl_machine demo_release)) = Ok (copy_source ''quay.io/r:v'')"
    by code_simp
  then obtain s' where s': "sign_image demo_sigenv ''.'' (copy_source ''q/b:0b'') (rl_machine demo_release) = (Ok (copy_source ''quay.io/r:v''), s')"
    by (metis prod.collapse)
  have d: "go_index (Split (ci_Source (copy_source ''q/b:0b'')) '':'') 1 = Ok ''0b''" by code_simp
  have w: "fst (WriteFile (signature_file ''.'' ''0b'') [] (mc_fs (rl_machine demo_release))) = Ok ()" by code_simp
  have f: "fs_fault (mc_fs (rl_machine demo_release)) ''read'' (path_of (signature_file ''.'' ''0b'')) = None"
    by (simp add: demo_release_def)
  show ?thesis using s' sign_image_cached[OF s' d w f] by blast
qed

end
