(* ===== verification/Manifest.thy ===== *)
theory Manifest
  imports Semver Api_V1alpha3 Go_FS
begin

text \<open>
  Reading OCI layouts and operator catalogs: \<open>pkg/manifest/oci-manifest.go\<close>.

  The methods of \<open>Manifest\<close> read and write the file system.  The JSON and tar.gz syntax of the
  files is given by the record \<open>codecs\<close>: a decoder per payload type (\<open>None\<close> is the JSON value
  null, which leaves the pointer nil), and the entries of a compressed archive.  \<open>semverFindMax\<close> and
  \<open>semverFindRange\<close> select bundles by the version in their names; \<open>byDefaultChannel\<close> and
  \<open>byFilter\<close> are the loop bodies of the two passes over the objects of a catalog.
\<close>

section \<open>Archives and decoders\<close>

datatype tar_type = TypeDir | TypeReg | TypeOther

text \<open>\<open>te_CopyErr\<close>: the error of copying the content, which is then written up to that point.\<close>

record tar_entry =
  te_Name :: string
  te_Type :: tar_type
  te_Content :: string
  te_CopyErr :: "error option"

text \<open>\<open>cd_targz\<close>: the error of \<open>gzip.NewReader\<close>, or the entries in order and the error that
  ends the iteration if it is not \<open>io.EOF\<close>.\<close>

record codecs =
  cd_oci :: "string \<Rightarrow> OCISchema option outcome"
  cd_ocs :: "string \<Rightarrow> OperatorConfigSchema option outcome"
  cd_release :: "string \<Rightarrow> ReleaseSchema outcome"
  cd_olm :: "string \<Rightarrow> DeclarativeConfig list outcome"
  cd_targz :: "string \<Rightarrow> (tar_entry list \<times> error option) outcome"

definition index_file :: string where "index_file = ''index.json''"
definition catalogJson :: string where "catalogJson = ''catalog.json''"

section \<open>Reading the layout\<close>

definition read_json :: "(string \<Rightarrow> 'a outcome) \<Rightarrow> string \<Rightarrow> fs \<Rightarrow> 'a outcome" where
  "read_json dec file s = ok_bind (ReadFile file s) dec"

definition GetImageIndex :: "codecs \<Rightarrow> string \<Rightarrow> fs \<Rightarrow> OCISchema option outcome" where
  "GetImageIndex cd dir = read_json (cd_oci cd) (dir @ ''/'' @ index_file)"

definition GetImageManifest :: "codecs \<Rightarrow> string \<Rightarrow> fs \<Rightarrow> OCISchema option outcome" where
  "GetImageManifest cd file = read_json (cd_oci cd) file"

definition GetOperatorConfig :: "codecs \<Rightarrow> string \<Rightarrow> fs \<Rightarrow> OperatorConfigSchema option outcome" where
  "GetOperatorConfig cd file = read_json (cd_ocs cd) file"

definition GetReleaseSchema :: "codecs \<Rightarrow> string \<Rightarrow> fs \<Rightarrow> RelatedImage list outcome" where
  "GetReleaseSchema cd filePath s =
     ok_map (\<lambda>release. map (\<lambda>item. \<lparr>ri_Name = tg_Name item, ri_Image = fr_Name (tg_From item)\<rparr>) (sc_Tags (rs_Spec release)))
       (read_json (cd_release cd) filePath s)"

section \<open>Extracting layers\<close>

definition untar_entry :: "string \<Rightarrow> string \<Rightarrow> tar_entry \<Rightarrow> (fs, unit) go" where
  "untar_entry path cfgDirName header =
     (if Contains (te_Name header) cfgDirName then
        (case te_Type header of
           TypeDir \<Rightarrow>
             if te_Name header \<noteq> ''./'' then
               go_map_err (\<lambda>e. Errorf ''untar: Mkdir() failed: %v'' [] [e]) (MkdirAll (path @ ''/'' @ te_Name header))
             else go_return ()
         | TypeReg \<Rightarrow>
             go_bind (go_map_err (\<lambda>e. Errorf ''untar: Create() failed: %v'' [] [e])
                        (WriteFile (path @ ''/'' @ te_Name header) (te_Content header))) (\<lambda>_.
               case te_CopyErr header of
                 None \<Rightarrow> go_return ()
               | Some e \<Rightarrow> go_fail (Errorf ''untar: Copy() failed: %v'' [] [e]))
         | TypeOther \<Rightarrow> go_return ())
      else go_return ())"

fun untar_loop :: "string \<Rightarrow> string \<Rightarrow> tar_entry list \<Rightarrow> error option \<Rightarrow> (fs, unit) go" where
  "untar_loop path cfgDirName [] end_err =
     (case end_err of
        None \<Rightarrow> go_return ()
      | Some e \<Rightarrow> go_fail (Errorf ''untar: Next() failed: %s'' [] [e]))"
| "untar_loop path cfgDirName (h # hs) end_err =
     go_bind (untar_entry path cfgDirName h) (\<lambda>_. untar_loop path cfgDirName hs end_err)"

definition trim_label :: "string \<Rightarrow> string" where
  "trim_label l = TrimPrefix (TrimSuffix l ''/'') ''/''"

definition untar :: "codecs \<Rightarrow> string \<Rightarrow> string \<Rightarrow> string \<Rightarrow> (fs, unit) go" where
  "untar cd data path cfgDirName =
     go_bind (go_map_err (\<lambda>e. Errorf ''untar: gzipStream - %w'' [] [e]) (go_lift (cd_targz cd data)))
       (\<lambda>(entries, end_err). untar_loop path (trim_label cfgDirName) entries end_err)"

fun extract_layers :: "codecs \<Rightarrow> string \<Rightarrow> string \<Rightarrow> string \<Rightarrow> OCIManifest list \<Rightarrow> (fs, unit) go" where
  "extract_layers cd fromPath toPath label [] = go_return ()"
| "extract_layers cd fromPath toPath label (blob # blobs) =
     (if \<not> Contains (om_Digest blob) ''sha256''
      then go_fail (errorf ''the digest format is not correct %s '' [om_Digest blob])
      else
     go_bind (go_lift (go_index (Split (om_Digest blob) '':'') 1)) (\<lambda>digest.
     go_bind (\<lambda>s. (ReadFile (fromPath @ ''/'' @ digest) s, s)) (\<lambda>data.
     go_bind (untar cd data toPath label) (\<lambda>_.
       extract_layers cd fromPath toPath label blobs))))"

definition ExtractLayersOCI :: "codecs \<Rightarrow> string \<Rightarrow> string \<Rightarrow> string \<Rightarrow> OCISchema option \<Rightarrow> (fs, unit) go" where
  "ExtractLayersOCI cd fromPath toPath label oci = (\<lambda>s.
     if absent (toPath @ ''/'' @ label) s then
       (case oci of
          None \<Rightarrow> go_panic ''invalid memory address or nil pointer dereference''
        | Some m \<Rightarrow> extract_layers cd fromPath toPath label (oci_Layers m)) s
     else go_return () s)"

section \<open>Versions of bundles\<close>

text \<open>\<open>name.v1.2.3-suffix\<close>: the version is in the second to fourth part of the name.\<close>

definition bundle_version :: "string \<Rightarrow> version outcome" where
  "bundle_version name =
     (let hld = Split name ''.''
      in if length hld < 4 then Err (errorf ''versioning of string is not correct %s '' [name])
         else Parse (Join [ReplaceAll (hld ! 1) ''v'' [], hld ! 2, Split (hld ! 3) ''-'' ! 0] ''.''))"

fun findMax_loop :: "ChannelEntry list \<Rightarrow> nat \<Rightarrow> version \<Rightarrow> nat \<Rightarrow> nat outcome" where
  "findMax_loop [] k mx index = Ok index"
| "findMax_loop (e # es) k mx index =
     ok_bind (bundle_version (ce_Name e)) (\<lambda>version.
       if Compare version mx = 1 then findMax_loop es (Suc k) version k
       else findMax_loop es (Suc k) mx index)"

definition semverFindMax :: "ChannelEntry list \<Rightarrow> string outcome" where
  "semverFindMax entries =
     ok_bind (findMax_loop entries 0 zero_version 0) (\<lambda>index. ok_map ce_Name (go_index entries index))"

fun findRange_loop :: "ChannelEntry list \<Rightarrow> version \<Rightarrow> version \<Rightarrow> string list outcome" where
  "findRange_loop [] minVersion maxVersion = Ok []"
| "findRange_loop (e # es) minVersion maxVersion =
     ok_bind (bundle_version (ce_Name e)) (\<lambda>version.
     ok_bind (findRange_loop es minVersion maxVersion) (\<lambda>results.
       Ok (if Compare version maxVersion \<le> 0 \<and> Compare version minVersion \<ge> 1 then ce_Name e # results else results)))"

definition nine_version :: version where
  "nine_version = \<lparr>Major = 9, Minor = 9, Patch = 9, Pre = [], Build = []\<rparr>"

text \<open>An empty bound is replaced by \<open>0.0.0\<close> and \<open>9.9.9\<close>.\<close>

definition semverFindRange :: "ChannelEntry list \<Rightarrow> string \<Rightarrow> string \<Rightarrow> string list outcome" where
  "semverFindRange entries mn mx =
     ok_bind (if length mn > 0 then Parse mn else Ok zero_version) (\<lambda>minVersion.
     ok_bind (if length mx > 0 then Parse mx else Ok nine_version) (\<lambda>maxVersion.
       findRange_loop entries minVersion maxVersion))"

section \<open>Selecting related images\<close>

type_synonym images_map = "(string \<times> RelatedImage list) list"

text \<open>The default channel, the names selected so far (the keys of \<open>bundles\<close>), the result.\<close>

record catalog_state =
  cs_default :: string
  cs_bundles :: "string list"
  cs_images :: images_map

definition catalog_init :: catalog_state where
  "catalog_init = \<lparr>cs_default = [], cs_bundles = [], cs_images = []\<rparr>"

definition add_bundle :: "string \<Rightarrow> catalog_state \<Rightarrow> catalog_state" where
  "add_bundle n st = st\<lparr>cs_bundles := n # cs_bundles st\<rparr>"

definition add_images :: "DeclarativeConfig \<Rightarrow> catalog_state \<Rightarrow> catalog_state" where
  "add_images obj st = st\<lparr>cs_images := map_put (dc_Name obj) (dc_RelatedImages obj) (cs_images st)\<rparr>"

text \<open>\<open>name, err := semverFindMax(\<dots>)\<close>: on an error the name is empty and is used all the same.\<close>

definition max_name :: "ChannelEntry list \<Rightarrow> string outcome" where
  "max_name entries = (case semverFindMax entries of Err _ \<Rightarrow> Ok [] | r \<Rightarrow> r)"

definition range_names :: "ChannelEntry list \<Rightarrow> string \<Rightarrow> string \<Rightarrow> string list outcome" where
  "range_names entries mn mx = (case semverFindRange entries mn mx of Err _ \<Rightarrow> Ok [] | r \<Rightarrow> r)"

definition byDefaultChannel :: "DeclarativeConfig \<Rightarrow> catalog_state \<Rightarrow> catalog_state outcome" where
  "byDefaultChannel obj st =
     (if dc_Schema obj = ''olm.channel'' then
        if cs_default st = dc_Name obj then
          ok_bind (go_index (dc_Entries obj) 0) (\<lambda>_. ok_map (\<lambda>n. add_bundle n st) (max_name (dc_Entries obj)))
        else Ok st
      else if dc_Schema obj = ''olm.bundle'' then
        Ok (if dc_Name obj \<in> set (cs_bundles st) then add_images obj st else st)
      else if dc_Schema obj = ''olm.package'' then Ok (st\<lparr>cs_default := dc_DefaultChannel obj\<rparr>)
      else Ok st)"

definition byFilter :: "ISCPackage \<Rightarrow> DeclarativeConfig \<Rightarrow> catalog_state \<Rightarrow> catalog_state outcome" where
  "byFilter pkg obj st =
     (if dc_Schema obj = ''olm.channel'' then
        if length (pk_Channel pkg) > 0 then
          if pk_Channel pkg = dc_Name obj then
            ok_map (\<lambda>ns. fold add_bundle ns st) (range_names (dc_Entries obj) (pk_MinVersion pkg) (pk_MaxVersion pkg))
          else Ok st
        else ok_map (\<lambda>n. add_bundle n st) (max_name (dc_Entries obj))
      else if dc_Schema obj = ''olm.bundle'' then
        Ok (if pk_Full pkg \<or> dc_Name obj \<in> set (cs_bundles st) then add_images obj st else st)
      else if dc_Schema obj = ''olm.package'' then Ok (add_bundle (dc_DefaultChannel obj) st)
      else Ok st)"

fun catalog_loop ::
  "(DeclarativeConfig \<Rightarrow> catalog_state \<Rightarrow> catalog_state outcome) \<Rightarrow> DeclarativeConfig list \<Rightarrow> catalog_state \<Rightarrow>
   catalog_state outcome" where
  "catalog_loop step [] st = Ok st"
| "catalog_loop step (obj # olm) st = ok_bind (step obj st) (catalog_loop step olm)"

definition getRelatedImageByDefaultChannel :: "DeclarativeConfig list \<Rightarrow> images_map outcome" where
  "getRelatedImageByDefaultChannel olm = ok_map cs_images (catalog_loop byDefaultChannel olm catalog_init)"

definition getRelatedImageByFilter :: "DeclarativeConfig list \<Rightarrow> ISCPackage \<Rightarrow> images_map outcome" where
  "getRelatedImageByFilter olm pkg = ok_map cs_images (catalog_loop (byFilter pkg) olm catalog_init)"

section \<open>Catalogs\<close>

text \<open>The objects of \<open>catalog.json\<close> follow each other without commas: all blanks are removed and
  the objects are joined into one array.\<close>

definition catalog_array :: "string \<Rightarrow> string" where
  "catalog_array data =
     ''['' @ ReplaceAll (filter (\<lambda>c. c \<noteq> CHR '' '') data) (''}'' @ [CHR 0x0A] @ ''{'') ''},{'' @ '']''"

definition readOperatorCatalog :: "codecs \<Rightarrow> string \<Rightarrow> fs \<Rightarrow> DeclarativeConfig list outcome" where
  "readOperatorCatalog cd path s =
     ok_bind (ReadFile (path @ ''/'' @ catalogJson) s) (\<lambda>data. cd_olm cd (catalog_array data))"

definition merge_images :: "images_map \<Rightarrow> images_map \<Rightarrow> images_map" where
  "merge_images ri m = foldl (\<lambda>m (k, v). map_put k v m) m ri"

fun merge_catalogs :: "('a \<Rightarrow> images_map outcome) \<Rightarrow> 'a list \<Rightarrow> images_map \<Rightarrow> images_map outcome" where
  "merge_catalogs f [] m = Ok m"
| "merge_catalogs f (x # xs) m = ok_bind (f x) (\<lambda>ri. merge_catalogs f xs (merge_images ri m))"

text \<open>The \<open>label\<close> argument is not used.\<close>

definition GetRelatedImagesFromCatalog :: "codecs \<Rightarrow> string \<Rightarrow> string \<Rightarrow> fs \<Rightarrow> images_map outcome" where
  "GetRelatedImagesFromCatalog cd filePath label s =
     ok_bind (ReadDir filePath s) (\<lambda>files.
       merge_catalogs (\<lambda>file.
         ok_bind (readOperatorCatalog cd (filePath @ ''/'' @ file) s) getRelatedImageByDefaultChannel) files [])"

definition GetRelatedImagesFromCatalogByFilter ::
  "codecs \<Rightarrow> string \<Rightarrow> string \<Rightarrow> Operator \<Rightarrow> (string \<times> ISCPackage) list \<Rightarrow> fs \<Rightarrow> images_map outcome" where
  "GetRelatedImagesFromCatalogByFilter cd filePath label op mp s =
     merge_catalogs (\<lambda>pkg.
       ok_bind (readOperatorCatalog cd (filePath @ ''/'' @ label @ ''/'' @ ip_Name pkg) s) (\<lambda>olm.
         getRelatedImageByFilter olm (map_get zero_ISCPackage mp (ip_Name pkg)))) (op_Packages op) []"

section \<open>Laws of version selection\<close>

lemma Parse_without_dash:
  assumes "CHR ''.'' \<notin> set a" and "CHR ''.'' \<notin> set b" and "CHR ''-'' \<notin> set c"
    and "Parse (Join [a, b, c] ''.'') = Ok v"
  shows "Pre v = []"
proof -
  have split: "SplitN (a @ CHR ''.'' # b @ CHR ''.'' # c) ''.'' 3 = [a, b, c]"
    using assms(1,2) by (simp add: numeral_3_eq_3 Cut_char)
  have "CHR ''-'' \<notin> set x" if "Cut ''+'' c = Some (x, y)" for x y
    using that assms(3) by (auto simp: Cut_char_Some)
  with assms(3,4) split show ?thesis
    by (auto simp: Parse_def ok_bind_eq_Ok Let_def split: option.splits prod.splits if_splits)
qed

lemma ReplaceAll_char_notin: "c \<notin> set s \<Longrightarrow> c \<notin> set (ReplaceAll s [d] [])"
proof -
  assume "c \<notin> set s"
  have "set (Join xs []) = (\<Union>x \<in> set xs. set x)" for xs
    by (induction xs "[] :: string" rule: Join.induct) auto
  moreover have "set s = set (Join (Split s [d]) [d])" by (simp add: Join_Split)
  moreover have "(\<Union>x \<in> set xs. set x) \<subseteq> set (Join xs [d])" for xs
    by (induction xs "[d]" rule: Join.induct) auto
  ultimately show ?thesis using \<open>c \<notin> set s\<close> unfolding ReplaceAll_def by blast
qed

lemma bundle_version_release: "bundle_version name = Ok v \<Longrightarrow> Pre v = []"
proof -
  assume v: "bundle_version name = Ok v"
  let ?h = "Split name ''.''"
  from v have len: "4 \<le> length ?h" by (auto simp: bundle_version_def Let_def split: if_splits)
  then have "CHR ''.'' \<notin> set (?h ! i)" if "i < 4" for i
    using that by (intro Split_char_pieces[of _ name]) simp
  moreover have "CHR ''-'' \<notin> set (Split (?h ! 3) ''-'' ! 0)"
    by (intro Split_char_pieces[of _ "?h ! 3"] nth_mem) (simp add: Split_not_Nil)
  ultimately show ?thesis
    using v len Parse_without_dash[of "ReplaceAll (?h ! 1) ''v'' []" "?h ! 2" "Split (?h ! 3) ''-'' ! 0" v]
    by (simp add: bundle_version_def Let_def ReplaceAll_char_notin)
qed

definition versions_of :: "ChannelEntry list \<Rightarrow> version list \<Rightarrow> bool" where
  "versions_of es vs = list_all2 (\<lambda>e v. bundle_version (ce_Name e) = Ok v) es vs"




lemma release_above_zero: "Pre v = [] \<Longrightarrow> Compare zero_version v \<le> 0"
  by (auto simp: Compare_release zero_version_def word_gt_0)

lemma findMax_loop_spec:
  assumes "versions_of es vs"
  shows "\<exists>j m. findMax_loop es k mx idx = Ok j \<and> Compare mx m \<le> 0 \<and> (\<forall>v \<in> set vs. Compare v m \<le> 0) \<and>
    (j = idx \<and> m = mx \<or> (\<exists>i < length vs. j = k + i \<and> m = vs ! i))"
  using assms unfolding versions_of_def
proof (induction arbitrary: k mx idx rule: list_all2_induct)
  case (Cons e es v vs)
  define mx' where "mx' = (if Compare v mx = 1 then v else mx)"
  define idx' where "idx' = (if Compare v mx = 1 then k else idx)"
  have le: "Compare mx mx' \<le> 0" "Compare v mx' \<le> 0"
    using sv.cmp_range[of v mx] sv.cmp_swap[of v mx] by (auto simp: mx'_def)
  from Cons.IH obtain j m where j: "findMax_loop es (Suc k) mx' idx' = Ok j" "Compare mx' m \<le> 0"
    "\<forall>v \<in> set vs. Compare v m \<le> 0" "j = idx' \<and> m = mx' \<or> (\<exists>i < length vs. j = Suc k + i \<and> m = vs ! i)"
    by blast
  have "findMax_loop (e # es) k mx idx = Ok j"
    using j(1) Cons.hyps(1) by (auto simp: mx'_def idx'_def split: if_splits)
  moreover have "Compare mx m \<le> 0" "\<forall>u \<in> set (v # vs). Compare u m \<le> 0"
    using le j(2,3) sv.cmp_le_trans by auto
  moreover have "j = idx \<and> m = mx \<or> (\<exists>i < length (v # vs). j = k + i \<and> m = (v # vs) ! i)"
    using j(4) by (force simp: idx'_def mx'_def split: if_splits)
  ultimately show ?case by blast
qed simp

lemma semverFindMax_greatest:
  assumes "versions_of es vs" and "es \<noteq> []"
  shows "\<exists>i < length es. semverFindMax es = Ok (ce_Name (es ! i)) \<and> (\<forall>v \<in> set vs. Compare v (vs ! i) \<le> 0)"
proof -
  have len: "length vs = length es" using assms(1) by (simp add: versions_of_def list_all2_lengthD)
  have rel: "Compare zero_version v \<le> 0" if "v \<in> set vs" for v
    using that assms(1) bundle_version_release release_above_zero
    by (fastforce simp: versions_of_def list_all2_conv_all_nth in_set_conv_nth)
  obtain j m where j: "findMax_loop es 0 zero_version 0 = Ok j" "\<forall>v \<in> set vs. Compare v m \<le> 0"
    "j = 0 \<and> m = zero_version \<or> (\<exists>i < length vs. j = 0 + i \<and> m = vs ! i)"
    using findMax_loop_spec[OF assms(1), of 0 zero_version 0] by blast
  have "j < length es" using j(3) len assms(2) by auto
  moreover have "Compare v (vs ! j) \<le> 0" if "v \<in> set vs" for v
    using j(3)
  proof (elim disjE)
    assume z: "j = 0 \<and> m = zero_version"
    have "vs ! 0 \<in> set vs" using len assms(2) by simp
    with z j(2) that rel sv.cmp_le_trans[of v zero_version "vs ! 0"] show ?thesis by simp
  qed (use j(2) that in auto)
  ultimately show ?thesis using j(1) by (auto simp: semverFindMax_def go_index_def)
qed


section \<open>Laws of the passes over a catalog\<close>

lemma catalog_loop_append:
  "catalog_loop step (xs @ ys) st = ok_bind (catalog_loop step xs st) (catalog_loop step ys)"
proof (induction xs arbitrary: st)
  case (Cons x xs)
  then show ?case by (cases "step x st") auto
qed simp

text \<open>Both passes add the images of a bundle when it is wanted, given the names selected so far, and
  no images at other objects.\<close>

locale catalog_step =
  fixes step :: "DeclarativeConfig \<Rightarrow> catalog_state \<Rightarrow> catalog_state outcome"
    and wants :: "DeclarativeConfig \<Rightarrow> string list \<Rightarrow> bool"
  assumes step_bundle: "dc_Schema obj = ''olm.bundle'' \<Longrightarrow>
      step obj st = Ok (if wants obj (cs_bundles st) then add_images obj st else st)"
    and step_other: "dc_Schema obj \<noteq> ''olm.bundle'' \<Longrightarrow> step obj st = Ok st' \<Longrightarrow> cs_images st' = cs_images st"
begin

lemma loop_bundles:
  assumes "list_all (\<lambda>b. dc_Schema b = ''olm.bundle'') bs"
  shows "\<exists>st'. catalog_loop step bs st = Ok st' \<and>
    (\<forall>n. map_has (cs_images st') n \<longleftrightarrow>
       map_has (cs_images st) n \<or> list_ex (\<lambda>b. dc_Name b = n \<and> wants b (cs_bundles st)) bs)"
  using assms
proof (induction bs arbitrary: st)
  case (Cons b bs)
  let ?st = "if wants b (cs_bundles st) then add_images b st else st"
  have same: "cs_bundles ?st = cs_bundles st" by (simp add: add_images_def)
  have "list_all (\<lambda>b. dc_Schema b = ''olm.bundle'') bs" using Cons.prems by simp
  from Cons.IH[OF this, of ?st] obtain st' where "catalog_loop step bs ?st = Ok st'"
    "\<forall>n. map_has (cs_images st') n \<longleftrightarrow>
       map_has (cs_images ?st) n \<or> list_ex (\<lambda>b. dc_Name b = n \<and> wants b (cs_bundles ?st)) bs"
    by blast
  with Cons.prems show ?case unfolding same by (auto simp: step_bundle add_images_def)
qed simp

lemma loop_source:
  assumes "catalog_loop step olm st = Ok st'" and "map_of (cs_images st') n = Some imgs"
  shows "map_of (cs_images st) n = Some imgs \<or>
    (\<exists>b \<in> set olm. dc_Schema b = ''olm.bundle'' \<and> dc_Name b = n \<and> dc_RelatedImages b = imgs)"
  using assms
proof (induction olm arbitrary: st)
  case (Cons obj olm)
  from Cons.prems(1) obtain t where t: "step obj st = Ok t" "catalog_loop step olm t = Ok st'"
    by (auto simp: ok_bind_eq_Ok)
  from Cons.IH[OF t(2) Cons.prems(2)] show ?case
  proof
    assume "map_of (cs_images t) n = Some imgs"
    then show ?thesis
      using t(1) step_other[of obj st t]
      by (cases "dc_Schema obj = ''olm.bundle''") (auto simp: step_bundle add_images_def split: if_splits)
  qed auto
qed simp

end

interpretation dch: catalog_step byDefaultChannel "\<lambda>obj names. dc_Name obj \<in> set names"
  by unfold_locales
    (auto simp: byDefaultChannel_def add_bundle_def ok_bind_eq_Ok ok_map_eq_Ok split: if_splits)

lemma cs_images_fold_add_bundle [simp]: "cs_images (fold add_bundle ns st) = cs_images st"
  by (induction ns arbitrary: st) (auto simp: add_bundle_def)

lemma cs_bundles_fold_add_bundle [simp]: "set (cs_bundles (fold add_bundle ns st)) = set ns \<union> set (cs_bundles st)"
  by (induction ns arbitrary: st) (auto simp: add_bundle_def)


text \<open>A catalog in the order of a file-based catalog: the package, its channels, its bundles.\<close>

definition catalog_order :: "DeclarativeConfig \<Rightarrow> DeclarativeConfig list \<Rightarrow> DeclarativeConfig list \<Rightarrow> bool" where
  "catalog_order pkg chs bs \<longleftrightarrow>
     dc_Schema pkg = ''olm.package'' \<and> list_all (\<lambda>c. dc_Schema c = ''olm.channel'') chs \<and>
     list_all (\<lambda>b. dc_Schema b = ''olm.bundle'') bs \<and> distinct (map dc_Name chs)"

lemma other_channels:
  assumes "list_all (\<lambda>c. dc_Schema c = ''olm.channel'' \<and> step c st = Ok st) chs"
  shows "catalog_loop step chs st = Ok st"
  using assms by (induction chs) auto

lemma one_channel:
  assumes "ch \<in> set chs" and "distinct (map dc_Name chs)" and "list_all (\<lambda>c. dc_Schema c = ''olm.channel'') chs"
    and "\<And>c t. dc_Schema c = ''olm.channel'' \<Longrightarrow> dc_Name c \<noteq> dc_Name ch \<Longrightarrow> cs_default t = cs_default st \<Longrightarrow> step c t = Ok t"
    and "step ch st = Ok st'" and "cs_default st' = cs_default st"
  shows "catalog_loop step chs st = Ok st'"
proof -
  from assms(1) obtain xs ys where chs: "chs = xs @ ch # ys" by (metis split_list)
  have other: "dc_Schema c = ''olm.channel'' \<and> dc_Name c \<noteq> dc_Name ch" if "c \<in> set xs \<union> set ys" for c
    using that assms(2,3) unfolding chs by (auto simp: list_all_iff) (metis imageI)+
  have "catalog_loop step xs st = Ok st" "catalog_loop step ys st' = Ok st'"
    using other assms(4,6) by (auto intro!: other_channels simp: list_all_iff)
  with assms(5) show ?thesis unfolding chs by (simp add: catalog_loop_append)
qed

lemma default_channel_images:
  assumes "catalog_order pkg chs bs" and "ch \<in> set chs" and "dc_Name ch = dc_DefaultChannel pkg"
    and "dc_Entries ch \<noteq> []" and "semverFindMax (dc_Entries ch) = Ok name"
  shows "\<exists>m. getRelatedImageByDefaultChannel (pkg # chs @ bs) = Ok m \<and>
    (\<forall>n. map_has m n \<longleftrightarrow> n = name \<and> n \<in> dc_Name ` set bs)"
proof -
  let ?st = "catalog_init\<lparr>cs_default := dc_DefaultChannel pkg\<rparr>"
  have c: "dc_Schema ch = ''olm.channel''" using assms(1,2) by (auto simp: catalog_order_def list_all_iff)
  have p: "byDefaultChannel pkg catalog_init = Ok ?st"
    using assms(1) by (simp add: byDefaultChannel_def catalog_order_def)
  have chs: "catalog_loop byDefaultChannel chs ?st = Ok (add_bundle name ?st)"
    using assms c
    by (intro one_channel[of ch])
      (auto simp: byDefaultChannel_def max_name_def go_index_def add_bundle_def catalog_order_def)
  obtain st' where bs: "catalog_loop byDefaultChannel bs (add_bundle name ?st) = Ok st'" and keys:
    "\<forall>n. map_has (cs_images st') n \<longleftrightarrow> map_has (cs_images (add_bundle name ?st)) n \<or>
       list_ex (\<lambda>b. dc_Name b = n \<and> dc_Name b \<in> set (cs_bundles (add_bundle name ?st))) bs"
    using dch.loop_bundles[of bs "add_bundle name ?st"] assms(1) by (auto simp: catalog_order_def)
  have "getRelatedImageByDefaultChannel (pkg # chs @ bs) = Ok (cs_images st')"
    by (simp add: getRelatedImageByDefaultChannel_def p catalog_loop_append chs bs)
  with keys show ?thesis by (auto simp: add_bundle_def catalog_init_def list_ex_iff)
qed


section \<open>The text of a catalog\<close>

text \<open>The text of objects with the given bodies, one object after the other with \<open>glue\<close> between.\<close>

definition catalog_text :: "string \<Rightarrow> string list \<Rightarrow> string" where
  "catalog_text glue bodies = Join (map (\<lambda>b. ''{'' @ b @ ''}'') bodies) glue"

definition object_break :: string where
  "object_break = ''}'' @ [CHR 0x0A] @ ''{''"

lemma catalog_text_Cons2:
  "catalog_text glue (b # b' # bs) = ''{'' @ b @ ''}'' @ glue @ catalog_text glue (b' # bs)"
  by (simp add: catalog_text_def)

lemma catalog_text_hd: "bs \<noteq> [] \<Longrightarrow> catalog_text glue bs = ''{'' @ tl (catalog_text glue bs)"
  by (cases bs; cases "tl bs") (auto simp: catalog_text_def)

lemma ReplaceAll_catalog_text:
  assumes "bs \<noteq> []" and "list_all (\<lambda>b. \<not> Contains (''{'' @ b @ ''}'' @ [CHR 0x0A]) object_break) bs"
    and "pre = [] \<or> pre = ''{''"
  shows "ReplaceAll (pre @ tl (catalog_text [CHR 0x0A] bs)) object_break ''},{'' = pre @ tl (catalog_text '','' bs)"
  using assms
proof (induction bs arbitrary: pre rule: induct_list012)
  case (2 b)
  then have "Cut object_break (pre @ b @ ''}'') = None"
    using Contains_infix[of "b @ ''}''" object_break "''{''" "[CHR 0x0A]"]
      Contains_infix[of "''{'' @ b @ ''}''" object_break "[]" "[CHR 0x0A]"] by (auto simp: Cut_None_iff)
  then show ?case by (simp add: catalog_text_def ReplaceAll_unchanged object_break_def)
next
  case (3 b b' bs)
  have nl: "tl (catalog_text [CHR 0x0A] (b # b' # bs)) = b @ object_break @ tl (catalog_text [CHR 0x0A] (b' # bs))"
    using catalog_text_hd[of "b' # bs" "[CHR 0x0A]"] by (simp add: catalog_text_Cons2 object_break_def)
  have cm: "tl (catalog_text '','' (b # b' # bs)) = b @ ''},{'' @ tl (catalog_text '','' (b' # bs))"
    using catalog_text_hd[of "b' # bs" "'',''"] by (simp add: catalog_text_Cons2)
  have "Cut object_break ((pre @ b) @ butlast object_break) = None"
    using "3.prems" Contains_infix[of "b @ ''}'' @ [CHR 0x0A]" object_break "''{''" "[]"]
    by (auto simp: Cut_None_iff) (simp_all add: object_break_def)
  then have "Cut object_break ((pre @ b) @ object_break @ t) = Some (pre @ b, t)" for t
    by (intro Cut_first) (simp_all add: object_break_def)
  from ReplaceAll_Cut[OF _ this, of "tl (catalog_text [CHR 0x0A] (b' # bs))" "''},{''"]
  have "ReplaceAll (pre @ tl (catalog_text [CHR 0x0A] (b # b' # bs))) object_break ''},{'' =
      (pre @ b) @ ''},{'' @ ReplaceAll ([] @ tl (catalog_text [CHR 0x0A] (b' # bs))) object_break ''},{''"
    unfolding nl by (simp add: object_break_def)
  also have "ReplaceAll ([] @ tl (catalog_text [CHR 0x0A] (b' # bs))) object_break ''},{'' = [] @ tl (catalog_text '','' (b' # bs))"
    using "3.prems" by (intro "3.IH"(2)) auto
  finally show ?case unfolding cm by simp
qed simp

lemma strip_catalog_text:
  "filter (\<lambda>c. c \<noteq> CHR '' '') (catalog_text [CHR 0x0A] bs) = catalog_text [CHR 0x0A] (map (filter (\<lambda>c. c \<noteq> CHR '' '')) bs)"
  by (induction bs rule: induct_list012) (auto simp: catalog_text_def)

lemma catalog_array_text:
  assumes "bodies \<noteq> []"
    and "list_all (\<lambda>b. \<not> Contains (''{'' @ b @ ''}'' @ [CHR 0x0A]) object_break) (map (filter (\<lambda>c. c \<noteq> CHR '' '')) bodies)"
  shows "catalog_array (catalog_text [CHR 0x0A] bodies) = ''['' @ catalog_text '','' (map (filter (\<lambda>c. c \<noteq> CHR '' '')) bodies) @ '']''"
proof -
  let ?bs = "map (filter (\<lambda>c. c \<noteq> CHR '' '')) bodies"
  have ne: "?bs \<noteq> []" using assms(1) by simp
  from ReplaceAll_catalog_text[OF ne assms(2), of "''{''"] show ?thesis
    using catalog_text_hd[OF ne, of "[CHR 0x0A]"] catalog_text_hd[OF ne, of "'',''"]
    unfolding catalog_array_def strip_catalog_text object_break_def by (metis append.assoc)
qed

section \<open>Properties\<close>

definition demo_obj :: "string \<Rightarrow> string \<Rightarrow> DeclarativeConfig" where
  "demo_obj schema name =
     \<lparr>dc_Schema = schema, dc_Name = name, dc_Package = ''op'', dc_Properties = [],
      dc_RelatedImages = [\<lparr>ri_Name = ''i'', ri_Image = ''quay.io/ns/'' @ name\<rparr>], dc_Entries = [],
      dc_DefaultChannel = ''stable'', dc_Description = []\<rparr>"

definition demo_entry :: "string \<Rightarrow> ChannelEntry" where
  "demo_entry name = \<lparr>ce_Name = name, ce_Replaces = [], ce_Skips = [], ce_SkipRange = []\<rparr>"

definition demo_entries :: "ChannelEntry list" where
  "demo_entries = [demo_entry ''op.v1.0.0'', demo_entry ''op.v1.2.0'']"

definition demo_stable :: DeclarativeConfig where
  "demo_stable = (demo_obj ''olm.channel'' ''stable'')\<lparr>dc_Entries := demo_entries\<rparr>"

definition demo_bundles :: "DeclarativeConfig list" where
  "demo_bundles = [demo_obj ''olm.bundle'' ''op.v1.0.0'', demo_obj ''olm.bundle'' ''op.v1.2.0'']"

definition demo_v :: "u64 \<Rightarrow> version" where
  "demo_v m = \<lparr>Major = 1, Minor = m, Patch = 0, Pre = [], Build = []\<rparr>"

lemma demo_versions: "versions_of demo_entries [demo_v 0, demo_v 2]"
proof -
  have v: "valid_version (demo_v m)" for m by (simp add: valid_version_def demo_v_def)
  have "Split ''op.v1.0.0'' ''.'' = [''op'', ''v1'', ''0'', ''0'']" "Split ''op.v1.2.0'' ''.'' = [''op'', ''v1'', ''2'', ''0'']"
    "ReplaceAll ''v1'' ''v'' [] = ''1''" "Split ''0'' ''-'' = [''0'']"
    by code_simp+
  moreover have "Version_String (demo_v 0) = ''1.0.0''" "Version_String (demo_v 2) = ''1.2.0''" by code_simp+
  ultimately show ?thesis
    using Parse_Version_String[OF v, of 0] Parse_Version_String[OF v, of 2]
    by (simp add: versions_of_def demo_entries_def demo_entry_def bundle_version_def)
qed


text \<open>C26: For a catalog in the usual order whose default channel has entries with versions,
  getRelatedImageByDefaultChannel succeeds and selects the bundle of the channel's greatest version
  and no other bundle.\<close>

theorem default_channel_head:
  assumes "catalog_order pkg chs bs" and "ch \<in> set chs" and "dc_Name ch = dc_DefaultChannel pkg"
    and "dc_Entries ch \<noteq> []" and "versions_of (dc_Entries ch) vs"
  shows "\<exists>i m. i < length (dc_Entries ch) \<and> list_all (\<lambda>v. Compare v (vs ! i) \<le> 0) vs \<and>
    getRelatedImageByDefaultChannel (pkg # chs @ bs) = Ok m \<and>
    (\<forall>n. map_has m n \<longleftrightarrow> n = ce_Name (dc_Entries ch ! i) \<and> n \<in> dc_Name ` set bs)"
  using semverFindMax_greatest[OF assms(5,4)] default_channel_images[OF assms(1-4)] by (fastforce simp: list_all_iff)

theorem default_channel_head_witness:
  "\<exists>i m. i < length (dc_Entries demo_stable) \<and> list_all (\<lambda>v. Compare v ([demo_v 0, demo_v 2] ! i) \<le> 0) [demo_v 0, demo_v 2] \<and>
    getRelatedImageByDefaultChannel (demo_obj ''olm.package'' ''op'' # [demo_stable] @ demo_bundles) = Ok m \<and>
    (\<forall>n. map_has m n \<longleftrightarrow> n = ce_Name (dc_Entries demo_stable ! i) \<and> n \<in> dc_Name ` set demo_bundles)"
  by (rule default_channel_head)
    (simp_all add: catalog_order_def demo_stable_def demo_obj_def demo_bundles_def demo_versions, simp add: demo_entries_def)



text \<open>C28: readOperatorCatalog reads the file catalog.json of its directory, whose objects follow each other with a line
  break between, and hands to the JSON decoder one array of the same objects in the same order with all
  blanks removed, provided no object contains, apart from blanks, the break between two objects; if the file
  cannot be read its error is returned.\<close>

theorem readOperatorCatalog_array:
  "(\<forall>bodies. bodies \<noteq> [] \<and> ReadFile (path @ ''/catalog.json'') s = Ok (Join (map (\<lambda>b. ''{'' @ b @ ''}'') bodies) [CHR 0x0A]) \<and>
      list_all (\<lambda>b. \<not> Contains (''{'' @ filter (\<lambda>c. c \<noteq> CHR '' '') b @ ''}'' @ [CHR 0x0A]) (''}'' @ [CHR 0x0A] @ ''{'')) bodies \<longrightarrow>
      readOperatorCatalog cd path s =
        cd_olm cd (''['' @ Join (map (\<lambda>b. ''{'' @ filter (\<lambda>c. c \<noteq> CHR '' '') b @ ''}'') bodies) '','' @ '']'')) \<and>
   (\<forall>e. ReadFile (path @ ''/catalog.json'') s = Err e \<longrightarrow> readOperatorCatalog cd path s = Err e)"
proof (intro conjI allI impI)
  fix bodies
  assume h: "bodies \<noteq> [] \<and> ReadFile (path @ ''/catalog.json'') s = Ok (Join (map (\<lambda>b. ''{'' @ b @ ''}'') bodies) [CHR 0x0A]) \<and>
      list_all (\<lambda>b. \<not> Contains (''{'' @ filter (\<lambda>c. c \<noteq> CHR '' '') b @ ''}'' @ [CHR 0x0A]) (''}'' @ [CHR 0x0A] @ ''{'')) bodies"
  then have "catalog_array (catalog_text [CHR 0x0A] bodies) = ''['' @ catalog_text '','' (map (filter (\<lambda>c. c \<noteq> CHR '' '')) bodies) @ '']''"
    by (intro catalog_array_text) (auto simp: list_all_iff object_break_def)
  with h show "readOperatorCatalog cd path s =
      cd_olm cd (''['' @ Join (map (\<lambda>b. ''{'' @ filter (\<lambda>c. c \<noteq> CHR '' '') b @ ''}'') bodies) '','' @ '']'')"
    by (simp add: readOperatorCatalog_def catalogJson_def catalog_text_def comp_def)
qed (simp add: readOperatorCatalog_def catalogJson_def)

definition demo_catalog_fs :: fs where
  "demo_catalog_fs = \<lparr>fs_nodes = [([''op''], Dir), ([''op'', ''catalog.json''], File (''{ a }'' @ [CHR 0x0A] @ ''{b}''))], fs_fault = \<lambda>_ _. None\<rparr>"

theorem readOperatorCatalog_array_witness:
  "\<forall>cd. readOperatorCatalog cd ''op'' demo_catalog_fs = cd_olm cd ''[{a},{b}]'' \<and>
     readOperatorCatalog cd ''no'' demo_catalog_fs = Err (not_exist [''no'', ''catalog.json''])"
proof
  fix cd
  let ?bs = "['' a '', ''b'']"
  have "ReadFile (''op'' @ ''/catalog.json'') demo_catalog_fs = Ok (Join (map (\<lambda>b. ''{'' @ b @ ''}'') ?bs) [CHR 0x0A])"
    "list_all (\<lambda>b. \<not> Contains (''{'' @ filter (\<lambda>c. c \<noteq> CHR '' '') b @ ''}'' @ [CHR 0x0A]) (''}'' @ [CHR 0x0A] @ ''{'')) ?bs"
    "Join (map (\<lambda>b. ''{'' @ filter (\<lambda>c. c \<noteq> CHR '' '') b @ ''}'') ?bs) '','' = ''{a},{b}''"
    "ReadFile (''no'' @ ''/catalog.json'') demo_catalog_fs = Err (not_exist [''no'', ''catalog.json''])" by code_simp+
  with readOperatorCatalog_array[of "''op''" demo_catalog_fs cd] readOperatorCatalog_array[of "''no''" demo_catalog_fs cd]
  show "readOperatorCatalog cd ''op'' demo_catalog_fs = cd_olm cd ''[{a},{b}]'' \<and>
      readOperatorCatalog cd ''no'' demo_catalog_fs = Err (not_exist [''no'', ''catalog.json''])"
    by (elim conjE allE[of _ ?bs]) simp
qed

lemma GetRelatedImagesFromCatalog_label:
  "GetRelatedImagesFromCatalog cd filePath label s = GetRelatedImagesFromCatalog cd filePath label' s"
  by (simp add: GetRelatedImagesFromCatalog_def)

lemma semverFindMax_empty: "semverFindMax [] = Panic ''index out of range''"
  by (simp add: semverFindMax_def go_index_def)

definition demo_fs :: fs where
  "demo_fs = \<lparr>fs_nodes = [([''cache''], Dir), ([''configs''], Dir)], fs_fault = \<lambda>_ _. None\<rparr>"

text \<open>The function \<open>untar\<close> does not confine the files it writes to the directory it is given: an entry with the
  name ../configs/x extracted to the directory cache succeeds and writes configs/x.\<close>

lemma untar_escapes:
  "(case untar_entry ''cache'' ''configs'' \<lparr>te_Name = ''../configs/x'', te_Type = TypeReg, te_Content = ''d'', te_CopyErr = None\<rparr> demo_fs of
      (r, s) \<Rightarrow> r = Ok () \<and> node_at s [''configs'', ''x''] = Some (File ''d'') \<and> node_at demo_fs [''configs'', ''x''] = None \<and>
        \<not> prefix (path_of ''cache'') [''configs'', ''x''])"
  by code_simp

end
