(* ===== verification/Mirror_Options.thy ===== *)
theory Mirror_Options
  imports Go_Prelude
begin

text \<open>
  The options of the mirror command: \<open>pkg/mirror/options.go\<close>.

  The option structs are records.  A \<open>commonFlag.OptionalString\<close> or \<open>OptionalBool\<close> is an
  \<open>option\<close> value (\<open>None\<close> is "not present"); the embedded struct \<open>dockerImageOptions\<close> is
  flattened into \<open>imageOptions\<close>.  A flag set is a list of flags, each with its name and what
  setting it does to the options.  \<open>NewSystemContext\<close> is the translation of the options into
  the settings of the image library.
\<close>

section \<open>Option structs\<close>

record GlobalOptions =
  gl_LogLevel :: string
  gl_TlsVerify :: bool
  gl_PolicyPath :: string
  gl_InsecurePolicy :: bool
  gl_RegistriesDirPath :: string
  gl_OverrideArch :: string
  gl_OverrideOS :: string
  gl_OverrideVariant :: string
  gl_CommandTimeout :: int
  gl_RegistriesConfPath :: string
  gl_TmpDir :: string
  gl_Dir :: string
  gl_ConfigPath :: string
  gl_ReleaseFrom :: string
  gl_OperatorsFrom :: string
  gl_AdditionalFrom :: string
  gl_Quiet :: bool
  gl_Force :: bool

type_synonym DeprecatedTLSVerifyOption = "bool option"

record SharedImageOptions =
  sh_authFilePath :: string

record imageOptions =
  io_global :: GlobalOptions
  io_shared :: SharedImageOptions
  io_deprecatedTLSVerify :: "DeprecatedTLSVerifyOption option"
  io_authFilePath :: "string option"
  io_credsOption :: "string option"
  io_userName :: "string option"
  io_password :: "string option"
  io_registryToken :: "string option"
  io_dockerCertPath :: string
  io_tlsVerify :: "bool option"
  io_noCreds :: bool
  io_sharedBlobDir :: string
  io_dockerDaemonHost :: string

record imageDestOptions =
  do_imageOptions :: imageOptions
  do_dirForceCompression :: bool
  do_dirForceDecompression :: bool
  do_ociAcceptUncompressedLayers :: bool
  do_compressionFormat :: string
  do_compressionLevel :: "int option"
  do_precomputeDigests :: bool

record RetryOptions =
  ro_MaxRetry :: int
  ro_Delay :: int

record CopyOptions =
  co_Global :: GlobalOptions
  co_DeprecatedTLSVerify :: DeprecatedTLSVerifyOption
  co_SrcImage :: imageOptions
  co_DestImage :: imageDestOptions
  co_RetryOpts :: RetryOptions
  co_AdditionalTags :: "string list"
  co_RemoveSignatures :: bool
  co_SignByFingerprint :: string
  co_SignBySigstorePrivateKey :: string
  co_SignPassphraseFile :: string
  co_SignIdentity :: string
  co_DigestFile :: string
  co_Format :: string
  co_All :: bool
  co_MultiArch :: string
  co_PreserveDigests :: bool
  co_EncryptLayer :: "int list"
  co_EncryptionKeys :: "string list"
  co_DecryptionKeys :: "string list"
  co_Mode :: string
  co_Dev :: bool
  co_Destination :: string
  co_UUID :: string
  co_ImageType :: string

section \<open>Errors of deferred closes\<close>

definition NoteCloseFailure :: "error option \<Rightarrow> string \<Rightarrow> error \<Rightarrow> error" where
  "NoteCloseFailure err description closeErr =
     (case err of
        None \<Rightarrow> Errorf ''%s: %w'' [description] [closeErr]
      | Some e \<Rightarrow> Errorf ''%w (%s: %v)'' [description] [e, closeErr])"

section \<open>Flags\<close>

record 'o flag =
  fl_name :: string
  fl_hidden :: bool
  fl_set :: "string \<Rightarrow> 'o \<Rightarrow> 'o outcome"

text \<open>\<open>strconv.ParseBool\<close>\<close>

definition ParseBool :: "string \<Rightarrow> bool outcome" where
  "ParseBool s =
     (if s \<in> {''1'', ''t'', ''T'', ''TRUE'', ''true'', ''True''} then Ok True
      else if s \<in> {''0'', ''f'', ''F'', ''FALSE'', ''false'', ''False''} then Ok False
      else Err (errorf ''invalid syntax'' [s]))"

definition string_flag :: "string \<Rightarrow> (string \<Rightarrow> 'o \<Rightarrow> 'o) \<Rightarrow> 'o flag" where
  "string_flag name f = \<lparr>fl_name = name, fl_hidden = False, fl_set = (\<lambda>v o'. Ok (f v o'))\<rparr>"

definition bool_flag :: "string \<Rightarrow> (bool \<Rightarrow> 'o \<Rightarrow> 'o) \<Rightarrow> 'o flag" where
  "bool_flag name f = \<lparr>fl_name = name, fl_hidden = False, fl_set = (\<lambda>v o'. ok_map (\<lambda>b. f b o') (ParseBool v))\<rparr>"

text \<open>\<open>strconv.ParseInt\<close> in the decimal forms a user writes.\<close>

definition ParseInt :: "string \<Rightarrow> int outcome" where
  "ParseInt s =
     (let (neg, ds) = (case s of c # cs \<Rightarrow> if c = CHR ''-'' then (True, cs) else if c = CHR ''+'' then (False, cs) else (False, s)
                       | [] \<Rightarrow> (False, []))
      in if ds \<noteq> [] \<and> list_all is_digit ds
         then Ok (if neg then - int (digits_val ds) else int (digits_val ds))
         else Err (errorf ''invalid syntax'' [s]))"

definition int_flag :: "string \<Rightarrow> (int \<Rightarrow> 'o \<Rightarrow> 'o) \<Rightarrow> 'o flag" where
  "int_flag name f = \<lparr>fl_name = name, fl_hidden = False, fl_set = (\<lambda>v o'. ok_map (\<lambda>n. f n o') (ParseInt v))\<rparr>"

definition DeprecatedTLSVerifyFlags :: "DeprecatedTLSVerifyOption flag list" where
  "DeprecatedTLSVerifyFlags = [(bool_flag ''tls-verify'' (\<lambda>b _. Some b))\<lparr>fl_hidden := True\<rparr>]"

text \<open>The warning written to the log, if any.\<close>

definition WarnIfUsed :: "string list \<Rightarrow> DeprecatedTLSVerifyOption \<Rightarrow> string option" where
  "WarnIfUsed alternatives opts =
     (if opts \<noteq> None then Some (CHR 0x27 # ''--tls-verify'' @ CHR 0x27 # '' is deprecated, instead use: '' @ Join alternatives '', '') else None)"

text \<open>The default of the flag is the value of \<open>REGISTRY_AUTH_FILE\<close>.\<close>

definition SharedImageFlags :: "(string \<Rightarrow> string) \<Rightarrow> SharedImageOptions flag list \<times> SharedImageOptions" where
  "SharedImageFlags getenv =
     ([string_flag ''authfile'' (\<lambda>v o'. o'\<lparr>sh_authFilePath := v\<rparr>)],
      \<lparr>sh_authFilePath = getenv ''REGISTRY_AUTH_FILE''\<rparr>)"

definition RetryFlags :: "RetryOptions flag list \<times> RetryOptions" where
  "RetryFlags = ([int_flag ''retry-times'' (\<lambda>v o'. o'\<lparr>ro_MaxRetry := v\<rparr>)], \<lparr>ro_MaxRetry = 0, ro_Delay = 0\<rparr>)"

definition dockerImageFlags ::
  "GlobalOptions \<Rightarrow> SharedImageOptions \<Rightarrow> DeprecatedTLSVerifyOption option \<Rightarrow> string \<Rightarrow> string \<Rightarrow>
   imageOptions flag list \<times> imageOptions" where
  "dockerImageFlags global shared deprecatedTLSVerify flagPrefix credsOptionAlias =
     ((if flagPrefix \<noteq> [] then [string_flag (flagPrefix @ ''authfile'') (\<lambda>v o'. o'\<lparr>io_authFilePath := Some v\<rparr>)] else []) @
      [string_flag (flagPrefix @ ''creds'') (\<lambda>v o'. o'\<lparr>io_credsOption := Some v\<rparr>),
       string_flag (flagPrefix @ ''username'') (\<lambda>v o'. o'\<lparr>io_userName := Some v\<rparr>),
       string_flag (flagPrefix @ ''password'') (\<lambda>v o'. o'\<lparr>io_password := Some v\<rparr>)] @
      (if credsOptionAlias \<noteq> [] then [(string_flag credsOptionAlias (\<lambda>v o'. o'\<lparr>io_credsOption := Some v\<rparr>))\<lparr>fl_hidden := True\<rparr>] else []) @
      [string_flag (flagPrefix @ ''registry-token'') (\<lambda>v o'. o'\<lparr>io_registryToken := Some v\<rparr>),
       string_flag (flagPrefix @ ''cert-dir'') (\<lambda>v o'. o'\<lparr>io_dockerCertPath := v\<rparr>),
       bool_flag (flagPrefix @ ''tls-verify'') (\<lambda>v o'. o'\<lparr>io_tlsVerify := Some v\<rparr>),
       bool_flag (flagPrefix @ ''no-creds'') (\<lambda>v o'. o'\<lparr>io_noCreds := v\<rparr>)],
      \<lparr>io_global = global, io_shared = shared, io_deprecatedTLSVerify = deprecatedTLSVerify,
       io_authFilePath = None, io_credsOption = None, io_userName = None, io_password = None,
       io_registryToken = None, io_dockerCertPath = [], io_tlsVerify = None, io_noCreds = False,
       io_sharedBlobDir = [], io_dockerDaemonHost = []\<rparr>)"

definition ImageFlags ::
  "GlobalOptions \<Rightarrow> SharedImageOptions \<Rightarrow> DeprecatedTLSVerifyOption option \<Rightarrow> string \<Rightarrow> string \<Rightarrow>
   imageOptions flag list \<times> imageOptions" where
  "ImageFlags global shared deprecatedTLSVerify flagPrefix credsOptionAlias =
     (case dockerImageFlags global shared deprecatedTLSVerify flagPrefix credsOptionAlias of
        (dockerFlags, opts) \<Rightarrow>
          ([string_flag (flagPrefix @ ''shared-blob-dir'') (\<lambda>v o'. o'\<lparr>io_sharedBlobDir := v\<rparr>),
            string_flag (flagPrefix @ ''daemon-host'') (\<lambda>v o'. o'\<lparr>io_dockerDaemonHost := v\<rparr>)] @ dockerFlags, opts))"

definition dest_flag :: "imageOptions flag \<Rightarrow> imageDestOptions flag" where
  "dest_flag f =
     \<lparr>fl_name = fl_name f, fl_hidden = fl_hidden f,
      fl_set = (\<lambda>v o'. ok_map (\<lambda>i. o'\<lparr>do_imageOptions := i\<rparr>) (fl_set f v (do_imageOptions o')))\<rparr>"

definition ImageDestFlags ::
  "GlobalOptions \<Rightarrow> SharedImageOptions \<Rightarrow> DeprecatedTLSVerifyOption option \<Rightarrow> string \<Rightarrow> string \<Rightarrow>
   imageDestOptions flag list \<times> imageDestOptions" where
  "ImageDestFlags global shared deprecatedTLSVerify flagPrefix credsOptionAlias =
     (case ImageFlags global shared deprecatedTLSVerify flagPrefix credsOptionAlias of
        (genericFlags, genericOptions) \<Rightarrow>
          (map dest_flag genericFlags @
           [bool_flag (flagPrefix @ ''compress'') (\<lambda>v o'. o'\<lparr>do_dirForceCompression := v\<rparr>),
            bool_flag (flagPrefix @ ''decompress'') (\<lambda>v o'. o'\<lparr>do_dirForceDecompression := v\<rparr>),
            bool_flag (flagPrefix @ ''oci-accept-uncompressed-layers'') (\<lambda>v o'. o'\<lparr>do_ociAcceptUncompressedLayers := v\<rparr>),
            string_flag (flagPrefix @ ''compress-format'') (\<lambda>v o'. o'\<lparr>do_compressionFormat := v\<rparr>),
            int_flag (flagPrefix @ ''compress-level'') (\<lambda>v o'. o'\<lparr>do_compressionLevel := Some v\<rparr>),
            bool_flag (flagPrefix @ ''precompute-digests'') (\<lambda>v o'. o'\<lparr>do_precomputeDigests := v\<rparr>)],
           \<lparr>do_imageOptions = genericOptions, do_dirForceCompression = False, do_dirForceDecompression = False,
            do_ociAcceptUncompressedLayers = False, do_compressionFormat = [], do_compressionLevel = None,
            do_precomputeDigests = False\<rparr>))"

text \<open>Applying the flags of a command line in order; an unknown flag is an error.\<close>

fun parse_flags :: "'o flag list \<Rightarrow> (string \<times> string) list \<Rightarrow> 'o \<Rightarrow> 'o outcome" where
  "parse_flags fs [] o' = Ok o'"
| "parse_flags fs ((n, v) # args) o' =
     (case find (\<lambda>f. fl_name f = n) fs of
        None \<Rightarrow> Err (errorf ''unknown flag: --%s'' [n])
      | Some f \<Rightarrow> ok_bind (fl_set f v o') (parse_flags fs args))"

section \<open>Credentials\<close>

definition parseCreds :: "string \<Rightarrow> (string \<times> string) outcome" where
  "parseCreds creds =
     (if creds = [] then Err (errorf ''credentials can't be empty'' [])
      else let up = SplitN creds '':'' 2
           in if length up = 1 then Ok (up ! 0, [])
              else if up ! 0 = [] then Err (errorf ''username can't be empty'' [])
              else Ok (up ! 0, up ! 1))"

record DockerAuthConfig =
  da_Username :: string
  da_Password :: string

definition getDockerAuth :: "string \<Rightarrow> DockerAuthConfig outcome" where
  "getDockerAuth creds = ok_map (\<lambda>(u, p). \<lparr>da_Username = u, da_Password = p\<rparr>) (parseCreds creds)"

section \<open>The system context\<close>

record SystemContext =
  sx_RegistriesDirPath :: string
  sx_ArchitectureChoice :: string
  sx_OSChoice :: string
  sx_VariantChoice :: string
  sx_SystemRegistriesConfPath :: string
  sx_BigFilesTemporaryDir :: string
  sx_DockerRegistryUserAgent :: string
  sx_DockerInsecureSkipTLSVerify :: "bool option"
  sx_DockerCertPath :: string
  sx_OCISharedBlobDirPath :: string
  sx_AuthFilePath :: string
  sx_DockerDaemonHost :: string
  sx_DockerDaemonCertPath :: string
  sx_DockerDaemonInsecureSkipTLSVerify :: bool
  sx_DockerAuthConfig :: "DockerAuthConfig option"
  sx_DockerBearerRegistryToken :: string

definition defaultUserAgent :: string where "defaultUserAgent = ''skopeo/v.19.5''"

definition GlobalOptions_NewSystemContext :: "GlobalOptions \<Rightarrow> SystemContext" where
  "GlobalOptions_NewSystemContext opts =
     \<lparr>sx_RegistriesDirPath = gl_RegistriesDirPath opts, sx_ArchitectureChoice = gl_OverrideArch opts,
      sx_OSChoice = gl_OverrideOS opts, sx_VariantChoice = gl_OverrideVariant opts,
      sx_SystemRegistriesConfPath = gl_RegistriesConfPath opts, sx_BigFilesTemporaryDir = gl_TmpDir opts,
      sx_DockerRegistryUserAgent = defaultUserAgent,
      sx_DockerInsecureSkipTLSVerify = (if \<not> gl_TlsVerify opts then Some True else None),
      sx_DockerCertPath = [], sx_OCISharedBlobDirPath = [], sx_AuthFilePath = [], sx_DockerDaemonHost = [],
      sx_DockerDaemonCertPath = [], sx_DockerDaemonInsecureSkipTLSVerify = False,
      sx_DockerAuthConfig = None, sx_DockerBearerRegistryToken = []\<rparr>"

text \<open>The checks on the credential flags, in order.\<close>

definition check_creds :: "imageOptions \<Rightarrow> unit outcome" where
  "check_creds opts =
     (let creds = io_credsOption opts \<noteq> None; user = io_userName opts \<noteq> None; pass = io_password opts \<noteq> None
      in if creds \<and> io_noCreds opts then Err (errorf ''creds and no-creds cannot be specified at the same time'' [])
         else if user \<and> io_noCreds opts then Err (errorf ''username and no-creds cannot be specified at the same time'' [])
         else if creds \<and> user then Err (errorf ''creds and username cannot be specified at the same time'' [])
         else if user \<noteq> pass then
           (if user then Err (errorf ''password must be specified when username is specified'' [])
            else Err (errorf ''username must be specified when password is specified'' []))
         else Ok ())"

definition auth_config :: "imageOptions \<Rightarrow> DockerAuthConfig option outcome" where
  "auth_config opts =
     (case io_credsOption opts of
        Some c \<Rightarrow> ok_map Some (getDockerAuth c)
      | None \<Rightarrow>
          Ok (case io_userName opts of
                Some u \<Rightarrow> Some \<lparr>da_Username = u, da_Password = (case io_password opts of Some p \<Rightarrow> p | None \<Rightarrow> [])\<rparr>
              | None \<Rightarrow> None))"

definition skip_tls :: "imageOptions \<Rightarrow> bool option" where
  "skip_tls opts =
     (case io_tlsVerify opts of
        Some v \<Rightarrow> Some (\<not> v)
      | None \<Rightarrow>
          (case io_deprecatedTLSVerify opts of
             Some (Some v) \<Rightarrow> Some (\<not> v)
           | _ \<Rightarrow> sx_DockerInsecureSkipTLSVerify (GlobalOptions_NewSystemContext (io_global opts))))"

definition imageOptions_NewSystemContext :: "imageOptions \<Rightarrow> SystemContext outcome" where
  "imageOptions_NewSystemContext opts =
     ok_bind (check_creds opts) (\<lambda>_.
     ok_bind (auth_config opts) (\<lambda>auth.
       Ok ((GlobalOptions_NewSystemContext (io_global opts))
         \<lparr>sx_DockerCertPath := io_dockerCertPath opts,
          sx_OCISharedBlobDirPath := io_sharedBlobDir opts,
          sx_AuthFilePath := (case io_authFilePath opts of Some f \<Rightarrow> f | None \<Rightarrow> sh_authFilePath (io_shared opts)),
          sx_DockerDaemonHost := io_dockerDaemonHost opts,
          sx_DockerDaemonCertPath := io_dockerCertPath opts,
          sx_DockerInsecureSkipTLSVerify := skip_tls opts,
          sx_DockerDaemonInsecureSkipTLSVerify := (case io_tlsVerify opts of Some v \<Rightarrow> \<not> v | None \<Rightarrow> False),
          sx_DockerAuthConfig := (if io_noCreds opts then Some \<lparr>da_Username = [], da_Password = []\<rparr> else auth),
          sx_DockerBearerRegistryToken := (case io_registryToken opts of Some t \<Rightarrow> t | None \<Rightarrow> [])\<rparr>)))"

section \<open>Policies, timeouts, formats, prompts\<close>

text \<open>The three sources of a signature policy of the image library.\<close>

record 'p policies =
  pl_insecure :: 'p
  pl_default :: "'p outcome"
  pl_file :: "string \<Rightarrow> 'p outcome"

definition GetPolicyContext :: "'p policies \<Rightarrow> ('p \<Rightarrow> 'c outcome) \<Rightarrow> GlobalOptions \<Rightarrow> 'c outcome" where
  "GetPolicyContext pol newContext opts =
     ok_bind (if gl_InsecurePolicy opts then Ok (pl_insecure pol)
              else if gl_PolicyPath opts = [] then pl_default pol
              else pl_file pol (gl_PolicyPath opts)) newContext"

text \<open>\<open>None\<close>: a context without a deadline.\<close>

definition CommandTimeoutContext :: "GlobalOptions \<Rightarrow> int option" where
  "CommandTimeoutContext opts = (if gl_CommandTimeout opts > 0 then Some (gl_CommandTimeout opts) else None)"

definition ParseManifestFormat :: "string \<Rightarrow> string outcome" where
  "ParseManifestFormat manifestFormat =
     (if manifestFormat = ''oci'' then Ok ''application/vnd.oci.image.manifest.v1+json''
      else if manifestFormat = ''v2s1'' then Ok ''application/vnd.docker.distribution.manifest.v1+prettyjws''
      else if manifestFormat = ''v2s2'' then Ok ''application/vnd.docker.distribution.manifest.v2+json''
      else Err (errorf (''unknown format %q. Choose one of the supported formats: 'oci', 'v2s1', or 'v2s2'' @ [CHR 0x27]) [manifestFormat]))"

text \<open>The terminal: whether standard input is one, and what reading a password gives.  The second
  component is what has been printed.\<close>

definition PromptForPassphrase :: "bool \<Rightarrow> string outcome \<Rightarrow> string \<Rightarrow> string outcome \<times> string" where
  "PromptForPassphrase is_terminal read_password privateKeyFile =
     (if \<not> is_terminal
      then (Err (errorf ''Cannot prompt for a passphrase for key %s, standard input is not a TTY'' [privateKeyFile]), [])
      else
        let prompt = ''Passphrase for key '' @ privateKeyFile @ '': ''
        in (case read_password of
              Ok p \<Rightarrow> (Ok p, prompt @ [CHR 0x0A])
            | Err e \<Rightarrow> (Err (Errorf ''Error reading password: %w'' [] [e]), prompt)
            | Panic m \<Rightarrow> (Panic m, prompt)))"

section \<open>Laws\<close>

lemma check_creds_Ok:
  "check_creds opts = Ok () \<longleftrightarrow>
     (io_userName opts = None \<longleftrightarrow> io_password opts = None) \<and>
     \<not> (io_credsOption opts \<noteq> None \<and> io_userName opts \<noteq> None) \<and>
     (io_noCreds opts \<longrightarrow> io_credsOption opts = None \<and> io_userName opts = None)"
  by (auto simp: check_creds_def Let_def)

lemma parseCreds_colon:
  "CHR '':'' \<notin> set u \<Longrightarrow> parseCreds (u @ CHR '':'' # p) =
     (if u = [] then Err (errorf ''username can't be empty'' []) else Ok (u, p))"
  by (simp add: parseCreds_def Let_def numeral_2_eq_2 Cut_char)

lemma parseCreds_plain: "CHR '':'' \<notin> set u \<Longrightarrow> u \<noteq> [] \<Longrightarrow> parseCreds u = Ok (u, [])"
  by (simp add: parseCreds_def Let_def numeral_2_eq_2)

lemma parseCreds_Ok:
  assumes "parseCreds c = Ok (u, p)"
  shows "u \<noteq> [] \<and> (c = u \<and> p = [] \<or> c = u @ CHR '':'' # p) \<and> CHR '':'' \<notin> set u"
proof (cases "Cut '':'' c")
  case None
  with assms show ?thesis
    by (auto simp: parseCreds_def Let_def numeral_2_eq_2 Cut_char_None split: if_splits)
next
  case (Some ab)
  then obtain a b where "c = a @ CHR '':'' # b" "CHR '':'' \<notin> set a" by (cases ab) (auto simp: Cut_char_Some)
  with assms show ?thesis by (auto simp: parseCreds_colon split: if_splits)
qed

section \<open>Properties\<close>

definition demo_global :: GlobalOptions where
  "demo_global =
     \<lparr>gl_LogLevel = ''info'', gl_TlsVerify = True, gl_PolicyPath = [], gl_InsecurePolicy = True,
      gl_RegistriesDirPath = [], gl_OverrideArch = [], gl_OverrideOS = [], gl_OverrideVariant = [],
      gl_CommandTimeout = 0, gl_RegistriesConfPath = [], gl_TmpDir = [], gl_Dir = ''working-dir'',
      gl_ConfigPath = ''isc.yaml'', gl_ReleaseFrom = [], gl_OperatorsFrom = [], gl_AdditionalFrom = [],
      gl_Quiet = False, gl_Force = False\<rparr>"

definition demo_image_options :: imageOptions where
  "demo_image_options = snd (ImageFlags demo_global \<lparr>sh_authFilePath = []\<rparr> None ''src-'' ''screds'')"

text \<open>ParseCreds splits the text at its first colon, and rejects an empty text and an empty user
  name; a user name without a colon has the empty password.\<close>

lemma parseCreds_correct:
  "parseCreds creds = Ok (u, p) \<longleftrightarrow>
     u \<noteq> [] \<and> CHR '':'' \<notin> set u \<and> (creds = u \<and> p = [] \<or> creds = u @ '':'' @ p)"
  using parseCreds_Ok[of creds u p] parseCreds_colon[of u p] parseCreds_plain[of u] by auto

lemma getDockerAuth_Ok:
  "getDockerAuth creds = Ok auth \<longleftrightarrow>
     (\<exists>u p. auth = \<lparr>da_Username = u, da_Password = p\<rparr> \<and> u \<noteq> [] \<and> CHR '':'' \<notin> set u \<and> (creds = u \<and> p = [] \<or> creds = u @ '':'' @ p))"
  by (auto simp: getDockerAuth_def ok_map_eq_Ok parseCreds_correct)

lemma NewSystemContext_auth:
  "(\<exists>ctx. imageOptions_NewSystemContext opts = Ok ctx \<and> sx_DockerAuthConfig ctx = auth) \<longleftrightarrow>
     check_creds opts = Ok () \<and> (\<exists>a. auth_config opts = Ok a \<and>
       auth = (if io_noCreds opts then Some \<lparr>da_Username = [], da_Password = []\<rparr> else a))"
  by (cases "check_creds opts"; cases "auth_config opts") (simp_all add: imageOptions_NewSystemContext_def eq_commute[of auth])

text \<open>C30: The system context of an image is built, with the given credentials, exactly in these cases: no-creds, no
  credentials option, no user name and no password, and the empty credentials; none of the four, and no
  credentials; user name and password together and nothing else, and these; a credentials option and nothing else, whose
  text is a user name, or a user name and a password after its first colon, the user name not being
  empty, and these.  In all other cases it is an error.\<close>

theorem NewSystemContext_credentials:
  "(\<exists>ctx. imageOptions_NewSystemContext opts = Ok ctx \<and> sx_DockerAuthConfig ctx = auth) \<longleftrightarrow>
     (case (io_noCreds opts, io_credsOption opts, io_userName opts, io_password opts) of
        (True, None, None, None) \<Rightarrow> auth = Some \<lparr>da_Username = [], da_Password = []\<rparr>
      | (False, None, None, None) \<Rightarrow> auth = None
      | (False, None, Some u, Some p) \<Rightarrow> auth = Some \<lparr>da_Username = u, da_Password = p\<rparr>
      | (False, Some c, None, None) \<Rightarrow>
          \<exists>u p. auth = Some \<lparr>da_Username = u, da_Password = p\<rparr> \<and> u \<noteq> [] \<and> CHR '':'' \<notin> set u \<and> (c = u \<and> p = [] \<or> c = u @ '':'' @ p)
      | _ \<Rightarrow> False)"
  unfolding NewSystemContext_auth check_creds_Ok
  by (cases "io_noCreds opts"; cases "io_credsOption opts"; cases "io_userName opts"; cases "io_password opts")
    (auto simp: auth_config_def ok_map_eq_Ok getDockerAuth_Ok)

theorem NewSystemContext_credentials_witness:
  "\<exists>ctx. imageOptions_NewSystemContext (demo_image_options\<lparr>io_credsOption := Some ''u:p''\<rparr>) = Ok ctx \<and>
     sx_DockerAuthConfig ctx = Some \<lparr>da_Username = ''u'', da_Password = ''p''\<rparr>"
proof -
  let ?o = "demo_image_options\<lparr>io_credsOption := Some ''u:p''\<rparr>"
  have "\<not> io_noCreds ?o" "io_userName ?o = None" "io_password ?o = None" by code_simp+
  then show ?thesis using NewSystemContext_credentials[of ?o "Some \<lparr>da_Username = ''u'', da_Password = ''p''\<rparr>"] by simp
qed

text \<open>The TLS setting of an image is the one of its own tls-verify flag if that was given, else
  that of the deprecated flag, else verification is skipped only if the global flag is off.\<close>

lemma NewSystemContext_tls:
  assumes "imageOptions_NewSystemContext opts = Ok ctx"
  shows "sx_DockerInsecureSkipTLSVerify ctx =
    (if io_tlsVerify opts \<noteq> None then map_option Not (io_tlsVerify opts)
     else if io_deprecatedTLSVerify opts \<notin> {None, Some None} then map_option Not (the (io_deprecatedTLSVerify opts))
     else if gl_TlsVerify (io_global opts) then None else Some True)"
  using assms
  by (auto simp: imageOptions_NewSystemContext_def ok_bind_eq_Ok skip_tls_def GlobalOptions_NewSystemContext_def
      split: option.splits)

end
