(* ===== verification/Mirror_Copy.thy ===== *)
theory Mirror_Copy
  imports Mirror_Options Go_FS
begin

text \<open>
  Copying and deleting images: \<open>pkg/mirror/mirror.go\<close>, \<open>pkg/mirror/unshare_linux.go\<close> and the
  retry loop of \<open>containers/common/pkg/retry\<close>.

  The image library is the record \<open>imglib\<close>: the transports, the capabilities of the process,
  policies, reference parsing, the copy and delete operations themselves (which act on the machine),
  digests, and which errors are worth a retry.  \<open>prepare\<close> is the part of \<open>copy\<close> that checks and
  translates the options; \<open>copy_once\<close> the operation that is retried.  The deferred destruction of
  the policy context is \<open>with_policy\<close>.  Output of the progress report is not modelled.
\<close>

section \<open>The image library\<close>

datatype ImageListSelection = CopySystemImage | CopyAllImages | CopySpecificImages

text \<open>\<open>copy.Options\<close>\<close>

record copy_settings =
  cp_RemoveSignatures :: bool
  cp_SignBy :: string
  cp_SignPassphrase :: string
  cp_SignBySigstorePrivateKeyFile :: string
  cp_SignSigstorePrivateKeyPassphrase :: string
  cp_SignIdentity :: "string option"
  cp_SourceCtx :: SystemContext
  cp_DestinationCtx :: SystemContext
  cp_ForceManifestMIMEType :: string
  cp_ImageListSelection :: ImageListSelection
  cp_PreserveDigests :: bool

record 'w imglib =
  il_transport :: "string \<Rightarrow> string option"
  il_capabilities :: "string list outcome"
  il_reexec :: "('w machine, unit) go"
  il_policies :: "string policies"
  il_newPolicyContext :: "string \<Rightarrow> string outcome"
  il_destroyPolicy :: "string \<Rightarrow> error option"
  il_parseImageName :: "string \<Rightarrow> string outcome"
  il_readPassphrase :: "string \<Rightarrow> string outcome"
  il_parseNamed :: "string \<Rightarrow> string outcome"
  il_copy :: "string \<Rightarrow> string \<Rightarrow> string \<Rightarrow> copy_settings \<Rightarrow> ('w machine, string) go"
  il_delete :: "string \<Rightarrow> SystemContext \<Rightarrow> ('w machine, unit) go"
  il_digest :: "string \<Rightarrow> string outcome"
  il_retryable :: "error \<Rightarrow> bool"
  il_wait :: "int \<Rightarrow> int option \<Rightarrow> ('w machine, bool) go"

section \<open>User namespaces (unshare_linux.go)\<close>

definition neededCapabilities :: "string list" where
  "neededCapabilities =
     [''CAP_CHOWN'', ''CAP_DAC_OVERRIDE'', ''CAP_FOWNER'', ''CAP_FSETID'', ''CAP_MKNOD'', ''CAP_SETFCAP'']"

definition maybeReexec :: "'w imglib \<Rightarrow> ('w machine, unit) go" where
  "maybeReexec lib =
     go_bind (go_map_err (\<lambda>e. Errorf ''error reading the current capabilities sets: %w'' [] [e])
                (go_lift (il_capabilities lib))) (\<lambda>capabilities.
       if list_ex (\<lambda>cap. cap \<notin> set capabilities) neededCapabilities then il_reexec lib else go_return ())"

definition ReexecIfNecessaryForImages :: "'w imglib \<Rightarrow> string list \<Rightarrow> ('w machine, unit) go" where
  "ReexecIfNecessaryForImages lib imageNames =
     (if list_ex (\<lambda>n. il_transport lib n = Some ''containers-storage'') imageNames then maybeReexec lib
      else go_return ())"

section \<open>Retries\<close>

definition retry_delay :: "RetryOptions \<Rightarrow> nat \<Rightarrow> int" where
  "retry_delay opts attempt =
     (if ro_Delay opts \<noteq> 0 then ro_Delay opts
      else (2 ^ attempt * 1000000000 + 2 ^ 63) mod 2 ^ 64 - 2 ^ 63)"

text \<open>\<open>left\<close> counts the retries that \<open>MaxRetry\<close> still allows.  Waiting ends with \<open>False\<close> when
  the context is done first.\<close>

fun retry_loop ::
  "(error \<Rightarrow> bool) \<Rightarrow> (int \<Rightarrow> ('s, bool) go) \<Rightarrow> RetryOptions \<Rightarrow> ('s, 'a) go \<Rightarrow> nat \<Rightarrow> nat \<Rightarrow> ('s, 'a) go" where
  "retry_loop retryable wait opts operation 0 attempt = operation"
| "retry_loop retryable wait opts operation (Suc left) attempt =
     go_try operation (\<lambda>r.
       case r of
         Inr a \<Rightarrow> go_return a
       | Inl e \<Rightarrow>
           if \<not> retryable e then go_fail e
           else go_bind (wait (retry_delay opts attempt)) (\<lambda>elapsed.
             if elapsed then retry_loop retryable wait opts operation left (Suc attempt) else go_fail e))"

definition IfNecessary ::
  "(error \<Rightarrow> bool) \<Rightarrow> (int \<Rightarrow> ('s, bool) go) \<Rightarrow> ('s, 'a) go \<Rightarrow> RetryOptions \<Rightarrow> ('s, 'a) go" where
  "IfNecessary retryable wait operation options =
     retry_loop retryable wait options operation (nat (ro_MaxRetry options)) 0"

section \<open>Copy\<close>

definition parseMultiArch :: "string \<Rightarrow> ImageListSelection outcome" where
  "parseMultiArch multiArch =
     (if multiArch = ''system'' then Ok CopySystemImage
      else if multiArch = ''all'' then Ok CopyAllImages
      else if multiArch = ''index-only'' then Ok CopySpecificImages
      else Err (errorf (''unknown multi-arch option %q. Choose one of the supported options: 'system', 'all', or 'index-only'' @ [CHR 0x27]) [multiArch]))"

definition select_images :: "CopyOptions \<Rightarrow> ImageListSelection outcome" where
  "select_images opts =
     (if length (co_MultiArch opts) > 0 \<and> co_All opts
      then Err (errorf ''Cannot use --all and --multi-arch flags together'' [])
      else ok_map (\<lambda>sel. if co_All opts then CopyAllImages else sel)
        (if length (co_MultiArch opts) > 0 then parseMultiArch (co_MultiArch opts) else Ok CopySystemImage))"

text \<open>From the references to the settings of the copy.  The copy never keeps signatures.\<close>

definition prepare ::
  "'w imglib \<Rightarrow> string \<Rightarrow> string \<Rightarrow> CopyOptions \<Rightarrow> (string \<times> string \<times> copy_settings) outcome" where
  "prepare lib src dest opts =
     ok_bind (map_err (\<lambda>e. Errorf ''Invalid source name %s: %v'' [src] [e]) (il_parseImageName lib src)) (\<lambda>srcRef.
     ok_bind (map_err (\<lambda>e. Errorf ''Invalid destination name %s: %v'' [dest] [e]) (il_parseImageName lib dest)) (\<lambda>destRef.
     ok_bind (imageOptions_NewSystemContext (co_SrcImage opts)) (\<lambda>sourceCtx.
     ok_bind (imageOptions_NewSystemContext (do_imageOptions (co_DestImage opts))) (\<lambda>destinationCtx.
     ok_bind (if length (co_Format opts) > 0 then ParseManifestFormat (co_Format opts) else Ok []) (\<lambda>manifestType.
     ok_bind (select_images opts) (\<lambda>imageListSelection.
     ok_bind (if length (co_EncryptionKeys opts) > 0 \<and> length (co_DecryptionKeys opts) > 0
              then Err (errorf ''--encryption-key and --decryption-key cannot be specified together'' []) else Ok ()) (\<lambda>_.
     ok_bind (if co_SignPassphraseFile opts \<noteq> [] \<and> co_SignByFingerprint opts \<noteq> [] \<and> co_SignBySigstorePrivateKey opts \<noteq> []
              then Err (errorf ''Only one of --sign-by and sign-by-sigstore-private-key can be used with sign-passphrase-file'' [])
              else Ok ()) (\<lambda>_.
     ok_bind (if co_SignPassphraseFile opts \<noteq> [] then il_readPassphrase lib (co_SignPassphraseFile opts) else Ok []) (\<lambda>passphrase.
     ok_bind (if co_SignIdentity opts \<noteq> []
              then ok_map Some (map_err (\<lambda>e. Errorf ''Could not parse --sign-identity: %v'' [] [e]) (il_parseNamed lib (co_SignIdentity opts)))
              else Ok None) (\<lambda>signIdentity.
       Ok (srcRef, destRef,
         \<lparr>cp_RemoveSignatures = True, cp_SignBy = co_SignByFingerprint opts, cp_SignPassphrase = passphrase,
          cp_SignBySigstorePrivateKeyFile = co_SignBySigstorePrivateKey opts,
          cp_SignSigstorePrivateKeyPassphrase = passphrase, cp_SignIdentity = signIdentity,
          cp_SourceCtx = sourceCtx, cp_DestinationCtx = destinationCtx, cp_ForceManifestMIMEType = manifestType,
          cp_ImageListSelection = imageListSelection, cp_PreserveDigests = co_PreserveDigests opts\<rparr>)))))))))))"

definition copy_once ::
  "'w imglib \<Rightarrow> CopyOptions \<Rightarrow> string \<Rightarrow> string \<Rightarrow> string \<Rightarrow> copy_settings \<Rightarrow> ('w machine, unit) go" where
  "copy_once lib opts policyContext destRef srcRef settings =
     go_bind (il_copy lib policyContext destRef srcRef settings) (\<lambda>manifestBytes.
       if co_DigestFile opts \<noteq> [] then
         go_bind (go_lift (il_digest lib manifestBytes)) (\<lambda>digest.
           go_map_err (\<lambda>e. Errorf ''Failed to write digest to file %q: %w'' [co_DigestFile opts] [e])
             (on_fs (WriteFile (co_DigestFile opts) digest)))
       else go_return ())"

definition with_policy :: "'w imglib \<Rightarrow> string \<Rightarrow> ('w machine, unit) go \<Rightarrow> ('w machine, unit) go" where
  "with_policy lib policyContext m = (\<lambda>s.
     case m s of
       (r, s') \<Rightarrow>
         (case il_destroyPolicy lib policyContext of
            None \<Rightarrow> (r, s')
          | Some e \<Rightarrow>
              (case r of
                 Ok _ \<Rightarrow> (Err (NoteCloseFailure None ''tearing down policy context'' e), s')
               | Err e' \<Rightarrow> (Err (NoteCloseFailure (Some e') ''tearing down policy context'' e), s')
               | Panic p \<Rightarrow> (Panic p, s'))))"

definition mirror_copy :: "'w imglib \<Rightarrow> string \<Rightarrow> string \<Rightarrow> CopyOptions \<Rightarrow> ('w machine, unit) go" where
  "mirror_copy lib src dest opts =
     go_bind (ReexecIfNecessaryForImages lib [src, dest]) (\<lambda>_.
     go_bind (go_map_err (\<lambda>e. Errorf ''Error loading trust policy: %v'' [] [e])
                (go_lift (GetPolicyContext (il_policies lib) (il_newPolicyContext lib) (co_Global opts)))) (\<lambda>policyContext.
       with_policy lib policyContext
         (go_bind (go_lift (prepare lib src dest opts)) (\<lambda>(srcRef, destRef, settings).
            IfNecessary (il_retryable lib) (\<lambda>d. il_wait lib d (CommandTimeoutContext (co_Global opts)))
              (copy_once lib opts policyContext destRef srcRef settings) (co_RetryOpts opts)))))"

section \<open>Delete and Run\<close>

definition mirror_delete :: "'w imglib \<Rightarrow> string \<Rightarrow> CopyOptions \<Rightarrow> ('w machine, unit) go" where
  "mirror_delete lib img opts =
     go_bind (ReexecIfNecessaryForImages lib [img]) (\<lambda>_.
     go_bind (go_map_err (\<lambda>e. Errorf ''Invalid source name %s: %v'' [img] [e]) (go_lift (il_parseImageName lib img))) (\<lambda>imageRef.
     go_bind (go_lift (imageOptions_NewSystemContext (do_imageOptions (co_DestImage opts)))) (\<lambda>sysCtx.
       IfNecessary (il_retryable lib) (\<lambda>d. il_wait lib d (CommandTimeoutContext (co_Global opts)))
         (il_delete lib imageRef sysCtx) (co_RetryOpts opts))))"

definition Mirror_Run :: "'w imglib \<Rightarrow> string \<Rightarrow> string \<Rightarrow> string \<Rightarrow> CopyOptions \<Rightarrow> ('w machine, unit) go" where
  "Mirror_Run lib src dest mode opts =
     (if mode = ''delete'' then mirror_delete lib src opts else mirror_copy lib src dest opts)"

section \<open>Laws of the retry loop\<close>

lemma retry_loop_Suc:
  "retry_loop retryable wait opts operation (Suc left) attempt s =
     (case operation s of
        (Ok a, s1) \<Rightarrow> (Ok a, s1)
      | (Panic p, s1) \<Rightarrow> (Panic p, s1)
      | (Err e, s1) \<Rightarrow>
          if \<not> retryable e then (Err e, s1)
          else (case wait (retry_delay opts attempt) s1 of
                  (Ok True, s2) \<Rightarrow> retry_loop retryable wait opts operation left (Suc attempt) s2
                | (Ok False, s2) \<Rightarrow> (Err e, s2)
                | (Err e', s2) \<Rightarrow> (Err e', s2)
                | (Panic p, s2) \<Rightarrow> (Panic p, s2)))"
  by (auto simp: go_try_def go_bind_def split: prod.splits outcome.splits)

declare retry_loop.simps(2) [simp del]

text \<open>Counting the calls of the operation: \<open>cnt\<close> reads the counter from the state.\<close>

definition counts :: "('s \<Rightarrow> nat) \<Rightarrow> ('s, 'a) go \<Rightarrow> nat \<Rightarrow> bool" where
  "counts cnt m n \<longleftrightarrow> (\<forall>s. cnt (snd (m s)) = cnt s + n)"

lemma retry_loop_calls:
  assumes "counts cnt operation 1" and "\<And>d. counts cnt (wait d) 0"
    and "retry_loop retryable wait opts operation left attempt s = (r, s')"
  shows "cnt s < cnt s' \<and> cnt s' \<le> cnt s + 1 + left"
  using assms(3)
proof (induction left arbitrary: attempt s)
  case 0
  with assms(1) show ?case by (auto simp: counts_def dest: spec[of _ s])
next
  case (Suc left)
  obtain r1 s1 where op: "operation s = (r1, s1)" by fastforce
  have c1: "cnt s1 = Suc (cnt s)" using assms(1) op by (auto simp: counts_def dest: spec[of _ s])
  obtain w s2 where w: "wait (retry_delay opts attempt) s1 = (w, s2)" by fastforce
  have c2: "cnt s2 = cnt s1" using assms(2)[of "retry_delay opts attempt"] w by (auto simp: counts_def dest: spec[of _ s1])
  consider "s' = s1" | "s' = s2" | "retry_loop retryable wait opts operation left (Suc attempt) s2 = (r, s')"
    using Suc.prems op w by (auto simp: retry_loop_Suc split: outcome.splits if_splits bool.splits)
  then show ?case
  proof cases
    case 3
    from Suc.IH[OF this] c1 c2 show ?thesis by simp
  qed (use c1 c2 in auto)
qed

text \<open>When waiting always ends and every error is worth a retry, only the last attempt can fail.\<close>

lemma retry_loop_exhausts:
  assumes "counts cnt operation 1" and "\<And>d. counts cnt (wait d) 0" and "\<And>d s. fst (wait d s) = Ok True"
    and "\<And>e. retryable e" and "retry_loop retryable wait opts operation left attempt s = (Err e, s')"
  shows "cnt s' = cnt s + 1 + left"
  using assms(5)
proof (induction left arbitrary: attempt s)
  case 0
  with assms(1) show ?case by (auto simp: counts_def dest: spec[of _ s])
next
  case (Suc left)
  obtain r1 s1 where op: "operation s = (r1, s1)" by fastforce
  have c1: "cnt s1 = Suc (cnt s)" using assms(1) op by (auto simp: counts_def dest: spec[of _ s])
  obtain s2 where w: "wait (retry_delay opts attempt) s1 = (Ok True, s2)"
    using assms(3)[of "retry_delay opts attempt" s1] by (metis prod.collapse)
  have c2: "cnt s2 = cnt s1" using assms(2)[of "retry_delay opts attempt"] w by (auto simp: counts_def dest: spec[of _ s1])
  have rt: "retryable = (\<lambda>_. True)" using assms(4) by auto
  have "retry_loop retryable wait opts operation left (Suc attempt) s2 = (Err e, s')"
    using Suc.prems op w rt by (auto simp: retry_loop_Suc split: outcome.splits)
  from Suc.IH[OF this] c1 c2 show ?case by simp
qed

section \<open>Laws of copying\<close>

lemma select_images_Ok:
  "select_images opts = Ok sel \<longleftrightarrow>
     (co_All opts \<and> co_MultiArch opts = [] \<and> sel = CopyAllImages \<or>
      \<not> co_All opts \<and> co_MultiArch opts = [] \<and> sel = CopySystemImage \<or>
      \<not> co_All opts \<and> co_MultiArch opts \<noteq> [] \<and> parseMultiArch (co_MultiArch opts) = Ok sel)"
  by (auto simp: select_images_def ok_map_eq_Ok)

lemma prepare_Ok:
  assumes "prepare lib src dest opts = Ok (srcRef, destRef, settings)"
  shows "cp_RemoveSignatures settings" and "select_images opts = Ok (cp_ImageListSelection settings)"
    and "co_EncryptionKeys opts = [] \<or> co_DecryptionKeys opts = []"
    and "il_parseImageName lib src = Ok srcRef" and "il_parseImageName lib dest = Ok destRef"
    and "imageOptions_NewSystemContext (co_SrcImage opts) = Ok (cp_SourceCtx settings)"
    and "imageOptions_NewSystemContext (do_imageOptions (co_DestImage opts)) = Ok (cp_DestinationCtx settings)"
  using assms by (auto simp: prepare_def ok_bind_eq_Ok split: if_splits)

section \<open>Properties\<close>

text \<open>C32: The retry loop calls the operation at least once and at most MaxRetry more times.\<close>

theorem IfNecessary_bounded:
  assumes "counts cnt operation 1" and "\<And>d. counts cnt (wait d) 0"
  shows "cnt s < cnt (snd (IfNecessary retryable wait operation options s)) \<and>
    cnt (snd (IfNecessary retryable wait operation options s)) \<le> cnt s + 1 + nat (ro_MaxRetry options)"
  unfolding IfNecessary_def by (rule retry_loop_calls[OF assms surjective_pairing])

theorem IfNecessary_bounded_witness:
  "(0::nat) < id (snd (IfNecessary (\<lambda>_. True) (\<lambda>_. go_return True) (\<lambda>n. (Err (errorf ''e'' []) :: unit outcome, Suc n)) \<lparr>ro_MaxRetry = 3, ro_Delay = 0\<rparr> 0)) \<and>
   id (snd (IfNecessary (\<lambda>_. True) (\<lambda>_. go_return True) (\<lambda>n. (Err (errorf ''e'' []) :: unit outcome, Suc n)) \<lparr>ro_MaxRetry = 3, ro_Delay = 0\<rparr> 0)) \<le> 4"
  using IfNecessary_bounded[of id "\<lambda>n. (Err (errorf ''e'' []) :: unit outcome, Suc n)" "\<lambda>_. go_return True" 0 "\<lambda>_. True" "\<lparr>ro_MaxRetry = 3, ro_Delay = 0\<rparr>"]
  by (simp add: counts_def)

text \<open>When every error is worth a retry and no deadline interrupts the waiting, a failure is
  returned only after MaxRetry retries.\<close>

lemma IfNecessary_exhausts:
  assumes "counts cnt operation 1" and "\<And>d. counts cnt (wait d) 0" and "\<And>d s. fst (wait d s) = Ok True"
    and "\<And>e. retryable e" and "IfNecessary retryable wait operation options s = (Err e, s')"
  shows "cnt s' = cnt s + 1 + nat (ro_MaxRetry options)"
  by (rule retry_loop_exhausts[OF assms(1-4) assms(5)[unfolded IfNecessary_def]])

lemma IfNecessary_exhausts_witness:
  "\<exists>s'. IfNecessary (\<lambda>_. True) (\<lambda>_. go_return True) (\<lambda>n. (Err (errorf ''e'' []), Suc n)) \<lparr>ro_MaxRetry = 2, ro_Delay = 0\<rparr> (0::nat) =
     (Err (errorf ''e'' []) :: unit outcome, s') \<and> s' = 3"
proof -
  let ?op = "\<lambda>n. (Err (errorf ''e'' []) :: unit outcome, Suc n)"
  have r: "IfNecessary (\<lambda>_. True) (\<lambda>_. go_return True) ?op \<lparr>ro_MaxRetry = 2, ro_Delay = 0\<rparr> 0 = (Err (errorf ''e'' []), 3)"
    by (simp add: IfNecessary_def numeral_2_eq_2 numeral_3_eq_3 retry_loop_Suc)
  show ?thesis
    using IfNecessary_exhausts[of id ?op "\<lambda>_. go_return True" "\<lambda>_. True", OF _ _ _ _ r] r by (simp add: counts_def)
qed

text \<open>When the options or the image names are rejected, the copy fails without touching the file
  system or any registry (for images outside of the container storage).\<close>

lemma mirror_copy_rejects:
  assumes "prepare lib src dest opts = Err e"
    and "il_transport lib src \<noteq> Some ''containers-storage''" and "il_transport lib dest \<noteq> Some ''containers-storage''"
    and "GetPolicyContext (il_policies lib) (il_newPolicyContext lib) (co_Global opts) = Ok pc"
  shows "\<exists>e'. mirror_copy lib src dest opts s = (Err e', s)"
  using assms by (auto simp: mirror_copy_def ReexecIfNecessaryForImages_def with_policy_def split: option.split)

definition demo_lib :: "unit imglib" where
  "demo_lib =
     \<lparr>il_transport = (\<lambda>_. Some ''docker''), il_capabilities = Ok [], il_reexec = go_return (),
      il_policies = \<lparr>pl_insecure = ''any'', pl_default = Ok ''default'', pl_file = (\<lambda>f. Ok f)\<rparr>,
      il_newPolicyContext = (\<lambda>p. Ok p), il_destroyPolicy = (\<lambda>_. None),
      il_parseImageName = (\<lambda>n. if Contains n '':'' then Ok n else Err (errorf ''invalid'' [n])),
      il_readPassphrase = (\<lambda>_. Ok []), il_parseNamed = (\<lambda>n. Ok n),
      il_copy = (\<lambda>_ _ _ _. go_return ''manifest''), il_delete = (\<lambda>_ _. go_return ()),
      il_digest = (\<lambda>m. Ok m), il_retryable = (\<lambda>_. False), il_wait = (\<lambda>_ _. go_return True)\<rparr>"

definition demo_opts :: CopyOptions where
  "demo_opts =
     \<lparr>co_Global = demo_global, co_DeprecatedTLSVerify = None, co_SrcImage = demo_image_options,
      co_DestImage = snd (ImageDestFlags demo_global \<lparr>sh_authFilePath = []\<rparr> None ''dest-'' ''dcreds''),
      co_RetryOpts = \<lparr>ro_MaxRetry = 0, ro_Delay = 0\<rparr>, co_AdditionalTags = [], co_RemoveSignatures = False,
      co_SignByFingerprint = [], co_SignBySigstorePrivateKey = [], co_SignPassphraseFile = [], co_SignIdentity = [],
      co_DigestFile = [], co_Format = [], co_All = False, co_MultiArch = [], co_PreserveDigests = False,
      co_EncryptLayer = [], co_EncryptionKeys = [], co_DecryptionKeys = [], co_Mode = ''mirrorToDisk'', co_Dev = False,
      co_Destination = ''oci://out'', co_UUID = [], co_ImageType = []\<rparr>"

lemma mirror_copy_rejects_witness:
  "\<exists>e'. mirror_copy demo_lib ''bad'' ''oci:x'' demo_opts s = (Err e', s)"
proof -
  have c: "\<not> Contains ''bad'' '':''" by code_simp
  show ?thesis
    by (rule mirror_copy_rejects)
      (simp_all add: demo_lib_def prepare_def c GetPolicyContext_def demo_opts_def demo_global_def)
qed

text \<open>C31: The settings of an accepted copy drop the signatures of the source, select the images by the
  flags (all, multi-arch, system), never have both encryption and decryption keys, and carry the system
  contexts of source and destination.\<close>

theorem prepare_settings:
  assumes "prepare lib src dest opts = Ok (srcRef, destRef, settings)"
  shows "cp_RemoveSignatures settings \<and>
    cp_ImageListSelection settings =
      (if co_All opts then CopyAllImages
       else if co_MultiArch opts = ''all'' then CopyAllImages
       else if co_MultiArch opts = ''index-only'' then CopySpecificImages else CopySystemImage) \<and>
    (co_All opts \<longrightarrow> co_MultiArch opts = []) \<and>
    (co_EncryptionKeys opts = [] \<or> co_DecryptionKeys opts = []) \<and>
    imageOptions_NewSystemContext (co_SrcImage opts) = Ok (cp_SourceCtx settings) \<and>
    imageOptions_NewSystemContext (do_imageOptions (co_DestImage opts)) = Ok (cp_DestinationCtx settings)"
  using prepare_Ok[OF assms] by (auto simp: select_images_Ok parseMultiArch_def split: if_splits)

theorem prepare_settings_witness:
  "\<exists>settings. prepare demo_lib ''docker://a'' ''oci:x'' (demo_opts\<lparr>co_All := True\<rparr>) = Ok (''docker://a'', ''oci:x'', settings) \<and>
     cp_RemoveSignatures settings \<and> cp_ImageListSelection settings = CopyAllImages"
proof -
  let ?o = "demo_opts\<lparr>co_All := True\<rparr>"
  have c: "Contains ''docker://a'' '':''" "Contains ''oci:x'' '':''" by code_simp+
  obtain a where a: "imageOptions_NewSystemContext (co_SrcImage ?o) = Ok a"
    by (auto simp: demo_opts_def demo_image_options_def ImageFlags_def dockerImageFlags_def imageOptions_NewSystemContext_def
        check_creds_def auth_config_def)
  obtain b where b: "imageOptions_NewSystemContext (do_imageOptions (co_DestImage ?o)) = Ok b"
    by (auto simp: demo_opts_def ImageDestFlags_def ImageFlags_def dockerImageFlags_def imageOptions_NewSystemContext_def
        check_creds_def auth_config_def)
  obtain st where st: "prepare demo_lib ''docker://a'' ''oci:x'' ?o = Ok (''docker://a'', ''oci:x'', st)"
    using a b by (auto simp: prepare_def demo_lib_def c) (auto simp: demo_opts_def select_images_def)
  show ?thesis using prepare_settings[OF st] st by simp
qed

end
