(* ===== verification/Batch.thy ===== *)
theory Batch
  imports Mirror_Copy Api_V1alpha3 "HOL-Library.Multiset"
begin

text \<open>
  The batch worker: \<open>pkg/batch/worker.go\<close>.

  \<open>Worker\<close> copies the images in batches of eight.  Every image of a batch is copied by a goroutine
  of its own; a goroutine whose copy fails appends the error to the shared slice \<open>errArray\<close>
  without a lock, which the model splits into reading the slice and writing the longer one back
  (\<open>batch_step\<close>, one rule per step of a goroutine).  \<open>wg.Wait\<close> is enabled when the counter of the
  wait group is zero.  \<open>worker_loop\<close> and \<open>worker\<close> are the loop over the batches and the recursion
  for the remainder, as relations between the states before and after, since the scheduler is
  free to choose.  A copy is one step; \<open>cf_log\<close> records the copies in the order in which they
  end and is not part of the program's state.  \<open>worker_seq\<close> is the program run with the goroutines one
  after the other.

  Results: the wait group reaches zero exactly when the goroutines of the batch have ended, no
  schedule blocks, every schedule is finite; a successful \<open>Worker\<close> has copied every image exactly
  once, batch after batch; it fails exactly when a copy has failed, whatever the race on
  \<open>errArray\<close> loses; \<open>worker_seq\<close> is one of the schedules.
\<close>

section \<open>Batches\<close>

definition BATCH_SIZE :: nat where "BATCH_SIZE = 8"

record BatchSchema =
  bs_Items :: nat
  bs_Count :: nat
  bs_BatchSize :: nat
  bs_BatchIndex :: nat
  bs_Remainder :: nat

definition plan_batches :: "nat \<Rightarrow> BatchSchema" where
  "plan_batches imgs =
     (if imgs < BATCH_SIZE
      then \<lparr>bs_Items = imgs, bs_Count = 1, bs_BatchSize = imgs, bs_BatchIndex = 0, bs_Remainder = 0\<rparr>
      else \<lparr>bs_Items = imgs, bs_Count = imgs div BATCH_SIZE, bs_BatchSize = BATCH_SIZE, bs_BatchIndex = 0,
            bs_Remainder = imgs mod BATCH_SIZE\<rparr>)"

text \<open>The images of batch \<open>i\<close>: \<open>images[i * BatchSize + x]\<close> for \<open>x\<close> below \<open>BatchSize\<close>.\<close>

definition batch_images :: "BatchSchema \<Rightarrow> 'a list \<Rightarrow> nat \<Rightarrow> 'a list" where
  "batch_images b images i = map (\<lambda>x. images ! (i * bs_BatchSize b + x)) [0..<bs_BatchSize b]"

section \<open>Goroutines\<close>

datatype gstate =
    Ready CopyImageSchema
  | Failed error
  | Appending error "error list"
  | Finished

record 's conf =
  cf_state :: 's
  cf_errs :: "error list"
  cf_gs :: "gstate list"
  cf_wg :: int
  cf_crash :: "string option"
  cf_log :: "(CopyImageSchema \<times> error option) list"

inductive batch_step :: "(CopyImageSchema \<Rightarrow> ('s, unit) go) \<Rightarrow> 's conf \<Rightarrow> 's conf \<Rightarrow> bool" for run where
  copy_ok:
    "cf_crash c = None \<Longrightarrow> i < length (cf_gs c) \<Longrightarrow> cf_gs c ! i = Ready img \<Longrightarrow> run img (cf_state c) = (Ok (), s) \<Longrightarrow>
     batch_step run c (c\<lparr>cf_state := s, cf_gs := (cf_gs c)[i := Finished], cf_wg := cf_wg c - 1, cf_log := cf_log c @ [(img, None)]\<rparr>)"
| copy_err:
    "cf_crash c = None \<Longrightarrow> i < length (cf_gs c) \<Longrightarrow> cf_gs c ! i = Ready img \<Longrightarrow> run img (cf_state c) = (Err e, s) \<Longrightarrow>
     batch_step run c (c\<lparr>cf_state := s, cf_gs := (cf_gs c)[i := Failed e], cf_log := cf_log c @ [(img, Some e)]\<rparr>)"
| copy_panic:
    "cf_crash c = None \<Longrightarrow> i < length (cf_gs c) \<Longrightarrow> cf_gs c ! i = Ready img \<Longrightarrow> run img (cf_state c) = (Panic p, s) \<Longrightarrow>
     batch_step run c (c\<lparr>cf_state := s, cf_crash := Some p\<rparr>)"
| append_read:
    "cf_crash c = None \<Longrightarrow> i < length (cf_gs c) \<Longrightarrow> cf_gs c ! i = Failed e \<Longrightarrow>
     batch_step run c (c\<lparr>cf_gs := (cf_gs c)[i := Appending e (cf_errs c)]\<rparr>)"
| append_write:
    "cf_crash c = None \<Longrightarrow> i < length (cf_gs c) \<Longrightarrow> cf_gs c ! i = Appending e seen \<Longrightarrow>
     batch_step run c (c\<lparr>cf_errs := seen @ [e], cf_gs := (cf_gs c)[i := Finished], cf_wg := cf_wg c - 1\<rparr>)"

inductive batch_steps :: "(CopyImageSchema \<Rightarrow> ('s, unit) go) \<Rightarrow> 's conf \<Rightarrow> 's conf \<Rightarrow> bool" for run where
  steps_refl: "batch_steps run c c"
| steps_step: "batch_steps run c d \<Longrightarrow> batch_step run d e \<Longrightarrow> batch_steps run c e"

definition start_batch :: "CopyImageSchema list \<Rightarrow> int \<Rightarrow> 's \<Rightarrow> 's conf" where
  "start_batch imgs wg s =
     \<lparr>cf_state = s, cf_errs = [], cf_gs = map Ready imgs, cf_wg = wg, cf_crash = None, cf_log = []\<rparr>"

section \<open>The worker\<close>

definition worker_error :: error where
  "worker_error = errorf ''[Worker] error in batch - refer to console logs'' []"

type_synonym copy_log = "(CopyImageSchema \<times> error option) list"

text \<open>\<open>errArray\<close> is empty when a batch starts, since a batch with errors returns.  \<open>prep i\<close>
  creates the log file of batch \<open>i\<close>.\<close>

inductive worker_loop ::
  "(CopyImageSchema \<Rightarrow> ('s, unit) go) \<Rightarrow> (nat \<Rightarrow> 's \<Rightarrow> 's) \<Rightarrow> BatchSchema \<Rightarrow> CopyImageSchema list \<Rightarrow>
   nat \<Rightarrow> int \<Rightarrow> 's \<Rightarrow> unit outcome \<Rightarrow> 's \<Rightarrow> copy_log \<Rightarrow> bool" for run prep b images where
  loop_end:
    "\<not> i < bs_Count b \<Longrightarrow> worker_loop run prep b images i wg s (Ok ()) s []"
| loop_crash:
    "i < bs_Count b \<Longrightarrow> batch_steps run (start_batch (batch_images b images i) wg (prep i s)) c \<Longrightarrow> cf_crash c = Some p \<Longrightarrow>
     worker_loop run prep b images i wg s (Panic p) (cf_state c) (cf_log c)"
| loop_errors:
    "i < bs_Count b \<Longrightarrow> batch_steps run (start_batch (batch_images b images i) wg (prep i s)) c \<Longrightarrow>
     cf_crash c = None \<Longrightarrow> cf_wg c = 0 \<Longrightarrow> length (cf_errs c) > 0 \<Longrightarrow>
     worker_loop run prep b images i wg s (Err worker_error) (cf_state c) (cf_log c)"
| loop_next:
    "i < bs_Count b \<Longrightarrow> batch_steps run (start_batch (batch_images b images i) wg (prep i s)) c \<Longrightarrow>
     cf_crash c = None \<Longrightarrow> cf_wg c = 0 \<Longrightarrow> length (cf_errs c) = 0 \<Longrightarrow>
     worker_loop run prep b images (Suc i) (if bs_Count b > 1 then cf_wg c + int BATCH_SIZE else cf_wg c) (cf_state c) r s' log \<Longrightarrow>
     worker_loop run prep b images i wg s r s' (cf_log c @ log)"

inductive worker ::
  "(CopyImageSchema \<Rightarrow> ('s, unit) go) \<Rightarrow> (nat \<Rightarrow> 's \<Rightarrow> 's) \<Rightarrow> CopyImageSchema list \<Rightarrow> 's \<Rightarrow> unit outcome \<Rightarrow> 's \<Rightarrow> copy_log \<Rightarrow> bool"
  for run prep where
  worker_fails:
    "b = plan_batches (length images) \<Longrightarrow> worker_loop run prep b images 0 (int (bs_BatchSize b)) s r s' log \<Longrightarrow> r \<noteq> Ok () \<Longrightarrow>
     worker run prep images s r s' log"
| worker_ends:
    "b = plan_batches (length images) \<Longrightarrow> worker_loop run prep b images 0 (int (bs_BatchSize b)) s (Ok ()) s' log \<Longrightarrow>
     \<not> bs_Remainder b > 0 \<Longrightarrow> worker run prep images s (Ok ()) s' log"
| worker_remainder:
    "b = plan_batches (length images) \<Longrightarrow> worker_loop run prep b images 0 (int (bs_BatchSize b)) s (Ok ()) s1 log1 \<Longrightarrow>
     bs_Remainder b > 0 \<Longrightarrow> worker run prep (drop (bs_Count b * BATCH_SIZE) images) s1 r s' log2 \<Longrightarrow>
     worker run prep images s r s' (log1 @ log2)"

definition log_file :: "nat \<Rightarrow> string" where
  "log_file i = ReplaceAll ''logs/worker-{batch}.log'' ''{batch}'' (Itoa i)"

text \<open>The worker on the machine; an error of creating a log file is only logged.\<close>

definition create_log :: "nat \<Rightarrow> 'w machine \<Rightarrow> 'w machine" where
  "create_log i m = snd (on_fs (Create (log_file i)) m)"

definition copy_image :: "'w imglib \<Rightarrow> CopyOptions \<Rightarrow> CopyImageSchema \<Rightarrow> ('w machine, unit) go" where
  "copy_image lib opts img = Mirror_Run lib (ci_Source img) (ci_Destination img) ''copy'' opts"

definition Worker ::
  "'w imglib \<Rightarrow> CopyImageSchema list \<Rightarrow> CopyOptions \<Rightarrow> 'w machine \<Rightarrow> unit outcome \<Rightarrow> 'w machine \<Rightarrow> copy_log \<Rightarrow> bool" where
  "Worker lib images opts = worker (copy_image lib opts) create_log images"

section \<open>Console output\<close>

definition ToLower :: "string \<Rightarrow> string" where
  "ToLower s = map (\<lambda>c. let n = of_char c :: nat in if 65 \<le> n \<and> n \<le> 90 then char_of (n + 32) else c) s"

text \<open>The lines of the worker logs, as they are printed at debug level.\<close>

definition consoleLogFromFile :: "fs \<Rightarrow> string list" where
  "consoleLogFromFile s =
     (case ReadDir ''logs'' s of
        Ok dir \<Rightarrow>
          concat (map (\<lambda>f.
            (''[batch] '' @ f) #
            map ToLower (filter (\<lambda>l. length l > 0)
              (Split (case ReadFile (''logs/'' @ f) s of Ok d \<Rightarrow> d | _ \<Rightarrow> []) [CHR 0x0A])))
            (filter (\<lambda>f. Contains f ''worker'') dir))
      | _ \<Rightarrow> [])"

section \<open>One schedule: the goroutines one after the other\<close>

fun batch_seq :: "(CopyImageSchema \<Rightarrow> ('s, unit) go) \<Rightarrow> CopyImageSchema list \<Rightarrow> 's \<Rightarrow> error list \<Rightarrow>
    (error list \<times> copy_log) outcome \<times> 's" where
  "batch_seq run [] s errs = (Ok (errs, []), s)"
| "batch_seq run (img # imgs) s errs =
     (case run img s of
        (Panic p, s1) \<Rightarrow> (Panic p, s1)
      | (Ok _, s1) \<Rightarrow> (case batch_seq run imgs s1 errs of (Ok (es, l), s2) \<Rightarrow> (Ok (es, (img, None) # l), s2) | r \<Rightarrow> r)
      | (Err e, s1) \<Rightarrow> (case batch_seq run imgs s1 (errs @ [e]) of (Ok (es, l), s2) \<Rightarrow> (Ok (es, (img, Some e) # l), s2) | r \<Rightarrow> r))"

section \<open>What a configuration says about its goroutines\<close>

definition ready_imgs :: "gstate list \<Rightarrow> CopyImageSchema list" where
  "ready_imgs gs = concat (map (\<lambda>g. case g of Ready img \<Rightarrow> [img] | _ \<Rightarrow> []) gs)"

definition unfinished :: "gstate list \<Rightarrow> nat" where
  "unfinished gs = length (filter (\<lambda>g. g \<noteq> Finished) gs)"

definition failing :: "gstate list \<Rightarrow> bool" where
  "failing gs = list_ex (\<lambda>g. case g of Failed _ \<Rightarrow> True | Appending _ _ \<Rightarrow> True | _ \<Rightarrow> False) gs"

definition failed_log :: "copy_log \<Rightarrow> bool" where
  "failed_log l = list_ex (\<lambda>(_, e). e \<noteq> None) l"

lemmas gs_defs = ready_imgs_def unfinished_def failing_def failed_log_def

lemma failed_log_append [simp]: "failed_log (l @ l') \<longleftrightarrow> failed_log l \<or> failed_log l'" "\<not> failed_log []"
  by (simp_all add: failed_log_def)

lemma failed_log_iff: "\<not> failed_log l \<longleftrightarrow> list_all (\<lambda>(_, e). e = None) l"
  by (auto simp: failed_log_def list_ex_iff list_all_iff split_beta)

definition batch_inv :: "CopyImageSchema list \<Rightarrow> int \<Rightarrow> 's conf \<Rightarrow> bool" where
  "batch_inv imgs wg c \<longleftrightarrow>
     mset (map fst (cf_log c)) + mset (ready_imgs (cf_gs c)) = mset imgs \<and>
     cf_wg c = wg - int (length imgs) + int (unfinished (cf_gs c)) \<and>
     (failed_log (cf_log c) \<longleftrightarrow> cf_errs c \<noteq> [] \<or> failing (cf_gs c))"

lemma batch_inv_start: "batch_inv imgs wg (start_batch imgs wg s)"
proof -
  have "ready_imgs (map Ready imgs) = imgs" "unfinished (map Ready imgs) = length imgs" "\<not> failing (map Ready imgs)"
    by (induction imgs) (auto simp: gs_defs)
  then show ?thesis by (simp add: batch_inv_def start_batch_def)
qed

lemma nth_split:
  assumes "i < length gs" and "gs ! i = g"
  obtains xs ys where "gs = xs @ g # ys" and "i = length xs"
proof -
  have "gs = take i gs @ g # drop (Suc i) gs" using assms id_take_nth_drop by metis
  moreover have "i = length (take i gs)" using assms(1) by simp
  ultimately show thesis by (rule that)
qed

lemma batch_step_inv: "batch_step run c d \<Longrightarrow> batch_inv imgs wg c \<Longrightarrow> cf_crash d = None \<Longrightarrow> batch_inv imgs wg d"
proof (induction rule: batch_step.induct)
  case (copy_ok c i img s)
  obtain xs ys where gs: "cf_gs c = xs @ Ready img # ys" and i: "i = length xs"
    by (rule nth_split[OF copy_ok(2,3)]) blast
  show ?case using copy_ok by (auto simp: i gs batch_inv_def gs_defs)
next
  case (copy_err c i img e s)
  obtain xs ys where gs: "cf_gs c = xs @ Ready img # ys" and i: "i = length xs"
    by (rule nth_split[OF copy_err(2,3)]) blast
  show ?case using copy_err by (auto simp: i gs batch_inv_def gs_defs)
next
  case (append_read c i e)
  obtain xs ys where gs: "cf_gs c = xs @ Failed e # ys" and i: "i = length xs"
    by (rule nth_split[OF append_read(2,3)]) blast
  show ?case using append_read by (auto simp: i gs batch_inv_def gs_defs)
next
  case (append_write c i e seen)
  obtain xs ys where gs: "cf_gs c = xs @ Appending e seen # ys" and i: "i = length xs"
    by (rule nth_split[OF append_write(2,3)]) blast
  show ?case using append_write by (auto simp: i gs batch_inv_def gs_defs)
next
  case (copy_panic c i img p s)
  then show ?case by simp
qed

lemma batch_step_crash: "batch_step run c d \<Longrightarrow> cf_crash c = None"
  by (auto elim: batch_step.cases)

lemma batch_steps_inv:
  "batch_steps run c d \<Longrightarrow> batch_inv imgs wg c \<Longrightarrow> cf_crash d = None \<Longrightarrow> batch_inv imgs wg d"
proof (induction rule: batch_steps.induct)
  case (steps_step c d e)
  have "cf_crash d = None" by (rule batch_step_crash[OF steps_step.hyps(2)])
  with steps_step show ?case by (blast intro: batch_step_inv)
qed simp

lemma unfinished_zero: "unfinished gs = 0 \<Longrightarrow> ready_imgs gs = [] \<and> \<not> failing gs"
  by (induction gs) (auto simp: gs_defs split: if_splits)

text \<open>What \<open>wg.Wait\<close> guarantees.\<close>

lemma batch_done:
  assumes "batch_steps run (start_batch imgs (int (length imgs)) s) c" and "cf_crash c = None" and "cf_wg c = 0"
  shows "mset (map fst (cf_log c)) = mset imgs" and "failed_log (cf_log c) \<longleftrightarrow> cf_errs c \<noteq> []"
proof -
  have inv: "batch_inv imgs (int (length imgs)) c" by (rule batch_steps_inv[OF assms(1) batch_inv_start assms(2)])
  with assms(3) have "unfinished (cf_gs c) = 0" by (simp add: batch_inv_def)
  from unfinished_zero[OF this] inv show "mset (map fst (cf_log c)) = mset imgs" "failed_log (cf_log c) \<longleftrightarrow> cf_errs c \<noteq> []"
    by (auto simp: batch_inv_def)
qed

section \<open>Progress and termination\<close>

definition gweight :: "gstate \<Rightarrow> nat" where
  "gweight g = (case g of Ready _ \<Rightarrow> 3 | Failed _ \<Rightarrow> 2 | Appending _ _ \<Rightarrow> 1 | Finished \<Rightarrow> 0)"

definition conf_weight :: "'s conf \<Rightarrow> nat" where
  "conf_weight c = sum_list (map gweight (cf_gs c)) + (if cf_crash c = None then 1 else 0)"

lemma batch_step_weight: "batch_step run c d \<Longrightarrow> conf_weight d < conf_weight c"
proof (induction rule: batch_step.induct)
  case (copy_ok c i img s)
  obtain xs ys where gs: "cf_gs c = xs @ Ready img # ys" and i: "i = length xs"
    by (rule nth_split[OF copy_ok(2,3)]) blast
  show ?case using copy_ok by (auto simp: i gs conf_weight_def gweight_def)
next
  case (copy_err c i img e s)
  obtain xs ys where gs: "cf_gs c = xs @ Ready img # ys" and i: "i = length xs"
    by (rule nth_split[OF copy_err(2,3)]) blast
  show ?case using copy_err by (auto simp: i gs conf_weight_def gweight_def)
next
  case (append_read c i e)
  obtain xs ys where gs: "cf_gs c = xs @ Failed e # ys" and i: "i = length xs"
    by (rule nth_split[OF append_read(2,3)]) blast
  show ?case using append_read by (auto simp: i gs conf_weight_def gweight_def)
next
  case (append_write c i e seen)
  obtain xs ys where gs: "cf_gs c = xs @ Appending e seen # ys" and i: "i = length xs"
    by (rule nth_split[OF append_write(2,3)]) blast
  show ?case using append_write by (auto simp: i gs conf_weight_def gweight_def)
next
  case (copy_panic c i img p s)
  then show ?case by (simp add: conf_weight_def)
qed

lemma batch_progress:
  assumes "unfinished (cf_gs c) > 0" and "cf_crash c = None"
  shows "\<exists>d. batch_step run c d"
proof -
  from assms(1) obtain i where i: "i < length (cf_gs c)" "cf_gs c ! i \<noteq> Finished"
    by (auto simp: unfinished_def filter_empty_conv in_set_conv_nth)
  show ?thesis
  proof (cases "cf_gs c ! i")
    case (Ready img)
    obtain r s where run: "run img (cf_state c) = (r, s)" by fastforce
    show ?thesis
    proof (cases r)
      case (Ok u)
      with run have "run img (cf_state c) = (Ok (), s)" by simp
      from batch_step.copy_ok[of c i _ run, OF assms(2) i(1) Ready this] show ?thesis ..
    next
      case (Err e)
      from batch_step.copy_err[of c i _ run, OF assms(2) i(1) Ready run[unfolded Err]] show ?thesis ..
    next
      case (Panic p)
      from batch_step.copy_panic[of c i _ run, OF assms(2) i(1) Ready run[unfolded Panic]] show ?thesis ..
    qed
  next
    case (Failed e)
    from batch_step.append_read[of c i, OF assms(2) i(1) Failed] show ?thesis ..
  next
    case (Appending e seen)
    from batch_step.append_write[of c i, OF assms(2) i(1) Appending] show ?thesis ..
  qed (use i(2) in simp)
qed

text \<open>Every batch can be run to its end: all goroutines finish, or the program crashes.\<close>

lemma batch_terminates:
  "\<exists>d. batch_steps run c d \<and> (cf_crash d \<noteq> None \<or> unfinished (cf_gs d) = 0)"
proof -
  have "\<exists>d. batch_steps run c d \<and> (cf_crash d \<noteq> None \<or> unfinished (cf_gs d) = 0)" if "batch_steps run c e" for e
    using that
  proof (induction "conf_weight e" arbitrary: e rule: less_induct)
    case less
    show ?case
    proof (cases "cf_crash e \<noteq> None \<or> unfinished (cf_gs e) = 0")
      case False
      then obtain d where d: "batch_step run e d" using batch_progress[of e run] by auto
      with less.hyps[OF batch_step_weight[OF d]] less.prems show ?thesis by (blast intro: steps_step)
    qed (use less.prems in blast)
  qed
  then show ?thesis by (blast intro: steps_refl)
qed

section \<open>Batch after batch\<close>

text \<open>The images in groups of eight, in their order.\<close>

fun chunks :: "'a list \<Rightarrow> 'a list list" where
  "chunks [] = []"
| "chunks (x # xs) = (x # take 7 xs) # chunks (drop 7 xs)"

lemma chunks_step: "xs \<noteq> [] \<Longrightarrow> chunks xs = take 8 xs # chunks (drop 8 xs)"
  by (cases xs) (simp_all add: numeral_eq_Suc)

lemma chunks_split: "k * 8 \<le> length xs \<Longrightarrow> chunks xs = map (\<lambda>i. take 8 (drop (i * 8) xs)) [0..<k] @ chunks (drop (k * 8) xs)"
proof (induction k)
  case (Suc k)
  then have "drop (k * 8) xs \<noteq> []" by simp
  from chunks_step[OF this] Suc show ?case by (simp add: add.commute)
qed simp

lemma chunks_small: "length xs \<le> 8 \<Longrightarrow> xs \<noteq> [] \<Longrightarrow> chunks xs = [xs]"
  using chunks_step[of xs] by simp

lemma batch_images_take:
  "(i + 1) * bs_BatchSize b \<le> length xs \<Longrightarrow> batch_images b xs i = take (bs_BatchSize b) (drop (i * bs_BatchSize b) xs)"
  unfolding batch_images_def by (rule nth_equalityI) (auto simp: algebra_simps)

lemma length_batch_images [simp]: "length (batch_images b xs i) = bs_BatchSize b"
  by (simp add: batch_images_def)

text \<open>The planned batches followed by the chunks of the remainder are the chunks of all images.\<close>

lemma plan_chunks:
  assumes "b = plan_batches (length xs)" and "xs \<noteq> []"
  shows "chunks xs = map (batch_images b xs) [0..<bs_Count b] @ (if bs_Remainder b > 0 then chunks (drop (bs_Count b * BATCH_SIZE) xs) else [])"
proof (cases "length xs < 8")
  case True
  then have "batch_images b xs 0 = xs" using assms(1)
    by (simp add: batch_images_take plan_batches_def BATCH_SIZE_def)
  with True assms show ?thesis by (simp add: chunks_small plan_batches_def BATCH_SIZE_def)
next
  case False
  let ?k = "length xs div 8"
  have b: "bs_Count b = ?k" "bs_BatchSize b = 8" "bs_Remainder b = length xs mod 8"
    using False assms(1) by (simp_all add: plan_batches_def BATCH_SIZE_def)
  have "map (batch_images b xs) [0..<?k] = map (\<lambda>i. take 8 (drop (i * 8) xs)) [0..<?k]"
  proof (rule map_cong[OF refl])
    fix i assume "i \<in> set [0..<?k]"
    then have "(i + 1) * 8 \<le> length xs" by (simp add: less_eq_div_iff_mult_less_eq[symmetric] Suc_le_eq)
    then show "batch_images b xs i = take 8 (drop (i * 8) xs)" using batch_images_take[of i b xs] by (simp add: b)
  qed
  moreover have "length xs mod 8 = 0 \<Longrightarrow> drop (?k * 8) xs = []" by (simp add: mult.commute minus_mod_eq_mult_div[symmetric])
  ultimately show ?thesis using chunks_split[of ?k xs] by (simp add: b BATCH_SIZE_def div_times_less_eq_dividend)
qed

lemma concat_chunks: "concat (chunks xs) = xs"
  by (induction xs rule: chunks.induct) simp_all

lemma take_chunks: "concat (take k (chunks xs)) = take (k * 8) xs"
proof (induction k arbitrary: xs)
  case (Suc k)
  show ?case
  proof (cases "xs = []")
    case False
    then show ?thesis using Suc[of "drop 8 xs"] by (simp add: chunks_step take_add)
  qed simp
qed simp

section \<open>The loop over the batches\<close>

definition planned :: "BatchSchema \<Rightarrow> bool" where
  "planned b \<longleftrightarrow> (bs_Count b > 1 \<longrightarrow> bs_BatchSize b = BATCH_SIZE)"

lemma planned_plan: "planned (plan_batches n)"
  by (simp add: planned_def plan_batches_def)

definition copied :: "copy_log \<Rightarrow> CopyImageSchema list \<Rightarrow> bool" where
  "copied l imgs \<longleftrightarrow> mset (map fst l) = mset imgs"

lemma copied_append: "copied l xs \<Longrightarrow> copied l' ys \<Longrightarrow> copied (l @ l') (xs @ ys)"
  by (simp add: copied_def)

lemma batch_next:
  assumes "planned b" and "i < bs_Count b" and "wg = int (bs_BatchSize b)"
    and "batch_steps run (start_batch (batch_images b images i) wg s) c" and "cf_crash c = None" and "cf_wg c = 0"
  shows "copied (cf_log c) (batch_images b images i)" and "failed_log (cf_log c) \<longleftrightarrow> cf_errs c \<noteq> []"
    and "Suc i < bs_Count b \<Longrightarrow> (if bs_Count b > 1 then cf_wg c + int BATCH_SIZE else cf_wg c) = int (bs_BatchSize b)"
proof -
  have st: "batch_steps run (start_batch (batch_images b images i) (int (length (batch_images b images i))) s) c"
    using assms(3,4) by simp
  from batch_done[OF st assms(5,6)] show "copied (cf_log c) (batch_images b images i)" "failed_log (cf_log c) \<longleftrightarrow> cf_errs c \<noteq> []"
    by (auto simp: copied_def)
  show "Suc i < bs_Count b \<Longrightarrow> (if bs_Count b > 1 then cf_wg c + int BATCH_SIZE else cf_wg c) = int (bs_BatchSize b)"
    using assms(1,6) by (auto simp: planned_def)
qed

text \<open>The log of a worker that stops: the batches \<open>ls\<close> without a failure, then the batch \<open>l\<close> with one.\<close>

definition fails_in :: "copy_log list \<Rightarrow> copy_log \<Rightarrow> copy_log \<Rightarrow> bool" where
  "fails_in ls l log \<longleftrightarrow> log = concat ls @ l \<and> \<not> failed_log (concat ls) \<and> failed_log l"

lemma worker_loop_ok:
  assumes "worker_loop run prep b images i wg s r s' log" and "planned b" and "i < bs_Count b \<Longrightarrow> wg = int (bs_BatchSize b)"
    and "r = Ok ()"
  shows "\<not> failed_log log \<and> (\<exists>ls. log = concat ls \<and> list_all2 copied ls (map (batch_images b images) [i..<bs_Count b]))"
  using assms
proof (induction rule: worker_loop.induct)
  case (loop_next i wg s c r s' log)
  note nb = batch_next[OF loop_next.prems(1) loop_next.hyps(1) loop_next.prems(2)[OF loop_next.hyps(1)] loop_next.hyps(2,3,4)]
  from loop_next.IH[OF loop_next.prems(1) nb(3) loop_next.prems(3)]
  obtain ls where "\<not> failed_log log" "log = concat ls" "list_all2 copied ls (map (batch_images b images) [Suc i..<bs_Count b])" by blast
  with nb(1,2) loop_next.hyps(1,5) show ?case
    by (auto simp: upt_conv_Cons intro!: exI[of _ "cf_log c # ls"])
qed simp_all

lemma worker_loop_err:
  assumes "worker_loop run prep b images i wg s r s' log" and "planned b" and "i < bs_Count b \<Longrightarrow> wg = int (bs_BatchSize b)"
    and "r = Err e"
  shows "e = worker_error \<and>
    (\<exists>ls l k. fails_in ls l log \<and> list_all2 copied (ls @ [l]) (map (batch_images b images) [i..<Suc k]) \<and> i \<le> k \<and> k < bs_Count b)"
  using assms
proof (induction rule: worker_loop.induct)
  case (loop_errors i s wg c)
  note nb = batch_next[OF loop_errors.prems(1) loop_errors.hyps(1) loop_errors.prems(2)[OF loop_errors.hyps(1)] loop_errors.hyps(2,3,4)]
  with loop_errors show ?case by (auto simp: fails_in_def intro!: exI[of _ "[]"] exI[of _ "cf_log c"] exI[of _ i])
next
  case (loop_next i wg s c r s' log)
  note nb = batch_next[OF loop_next.prems(1) loop_next.hyps(1) loop_next.prems(2)[OF loop_next.hyps(1)] loop_next.hyps(2,3,4)]
  from loop_next.IH[OF loop_next.prems(1) nb(3) loop_next.prems(3)]
  obtain ls l k where e: "e = worker_error" and f: "fails_in ls l log"
    and cp: "list_all2 copied (ls @ [l]) (map (batch_images b images) [Suc i..<Suc k])" and k: "Suc i \<le> k" "k < bs_Count b" by blast
  have "fails_in (cf_log c # ls) l (cf_log c @ log)" using f nb(2) loop_next.hyps(5) by (simp add: fails_in_def)
  moreover have "list_all2 copied ((cf_log c # ls) @ [l]) (map (batch_images b images) [i..<Suc k])"
    using cp nb(1) k(1) by (simp add: upt_conv_Cons del: upt_Suc)
  ultimately show ?case using e k by (meson Suc_leD)
qed simp_all

section \<open>The whole worker\<close>

lemma worker_loop_plan:
  assumes "b = plan_batches (length images)" and "worker_loop run prep b images 0 (int (bs_BatchSize b)) s (Ok ()) s' log"
  shows "\<not> failed_log log" and "\<exists>ls. log = concat ls \<and> list_all2 copied ls (map (batch_images b images) [0..<bs_Count b])"
  using worker_loop_ok[OF assms(2)] assms(1) by (simp_all add: planned_plan)

lemma plan_empty: "map (batch_images (plan_batches 0) images) [0..<bs_Count (plan_batches 0)] = [[]]" "bs_Remainder (plan_batches 0) = 0"
  by (simp_all add: plan_batches_def BATCH_SIZE_def batch_images_def)

lemma worker_ok:
  assumes "worker run prep images s r s' log" and "r = Ok ()"
  shows "\<not> failed_log log \<and> (\<exists>ls. log = concat ls \<and> list_all2 copied ls (chunks images))"
  using assms
proof (induction rule: worker.induct)
  case (worker_ends b images s s' log)
  obtain ls where ls: "log = concat ls" "list_all2 copied ls (map (batch_images b images) [0..<bs_Count b])" "\<not> failed_log log"
    using worker_loop_plan[OF worker_ends(1,2)] by blast
  show ?case
  proof (cases "images = []")
    case True
    with ls worker_ends(1) have "log = []" by (auto simp: plan_empty copied_def list_all2_Cons2)
    with True ls(3) show ?thesis by auto
  next
    case False
    from plan_chunks[OF worker_ends(1) this] ls worker_ends(3) show ?thesis by auto
  qed
next
  case (worker_remainder b images s s1 log1 r s' log2)
  from worker_remainder(1,3) have ne: "images \<noteq> []" by (auto simp: plan_empty)
  obtain ls where ls: "log1 = concat ls" "list_all2 copied ls (map (batch_images b images) [0..<bs_Count b])" "\<not> failed_log log1"
    using worker_loop_plan[OF worker_remainder(1,2)] by blast
  obtain ls' where ls': "log2 = concat ls'" "list_all2 copied ls' (chunks (drop (bs_Count b * BATCH_SIZE) images))" "\<not> failed_log log2"
    using worker_remainder.IH worker_remainder.prems by blast
  with ls plan_chunks[OF worker_remainder(1) ne] worker_remainder(3)
  have "log1 @ log2 = concat (ls @ ls')" "list_all2 copied (ls @ ls') (chunks images)" by (auto intro: list_all2_appendI)
  with ls(3) ls'(3) show ?case by (metis failed_log_append(1))
qed simp

lemma worker_err:
  assumes "worker run prep images s r s' log" and "r = Err e"
  shows "e = worker_error \<and> (\<exists>ls l k. fails_in ls l log \<and> list_all2 copied (ls @ [l]) (take (Suc k) (chunks images)))"
  using assms
proof (induction rule: worker.induct)
  case (worker_fails b images s r s' log)
  have "0 < bs_Count b \<Longrightarrow> int (bs_BatchSize b) = int (bs_BatchSize b)" by simp
  from worker_loop_err[OF worker_fails(2) _ this worker_fails.prems] worker_fails(1)
  obtain ls l k where e: "e = worker_error" and f: "fails_in ls l log"
    and cp: "list_all2 copied (ls @ [l]) (map (batch_images b images) [0..<Suc k])" and k: "k < bs_Count b" by (auto simp: planned_plan)
  show ?case
  proof (cases "images = []")
    case True
    then have "\<And>l i. copied l (batch_images b images i) \<Longrightarrow> l = []" using worker_fails(1)
      by (simp add: plan_batches_def BATCH_SIZE_def copied_def batch_images_def)
    moreover have "copied l (batch_images b images k)" using cp by (auto simp: list_all2_append2 append_eq_append_conv2 Cons_eq_append_conv length_Suc_conv)
    ultimately have "l = []" by blast
    with f show ?thesis by (simp add: fails_in_def)
  next
    case False
    have "take (Suc k) (chunks images) = map (batch_images b images) [0..<Suc k]"
      using plan_chunks[OF worker_fails(1) False] k by (simp add: take_map del: upt_Suc)
    with e f cp show ?thesis by metis
  qed
next
  case (worker_remainder b images s s1 log1 r s' log2)
  from worker_remainder(1,3) have ne: "images \<noteq> []" by (auto simp: plan_empty)
  obtain ls where ls: "log1 = concat ls" "list_all2 copied ls (map (batch_images b images) [0..<bs_Count b])" "\<not> failed_log log1"
    using worker_loop_plan[OF worker_remainder(1,2)] by blast
  obtain ls' l k where e: "e = worker_error" and f: "fails_in ls' l log2"
    and cp: "list_all2 copied (ls' @ [l]) (take (Suc k) (chunks (drop (bs_Count b * BATCH_SIZE) images)))"
    using worker_remainder.IH worker_remainder.prems by blast
  have "take (Suc (bs_Count b + k)) (chunks images) =
      map (batch_images b images) [0..<bs_Count b] @ take (Suc k) (chunks (drop (bs_Count b * BATCH_SIZE) images))"
    using plan_chunks[OF worker_remainder(1) ne] worker_remainder(3) by simp
  then have "list_all2 copied ((ls @ ls') @ [l]) (take (Suc (bs_Count b + k)) (chunks images))"
    using list_all2_appendI[OF ls(2) cp] by simp
  moreover have "fails_in (ls @ ls') l (log1 @ log2)" using ls f by (simp add: fails_in_def)
  ultimately show ?case using e by metis
qed simp

section \<open>The goroutines one after the other\<close>

fun loop_seq :: "(CopyImageSchema \<Rightarrow> ('s, unit) go) \<Rightarrow> (nat \<Rightarrow> 's \<Rightarrow> 's) \<Rightarrow> BatchSchema \<Rightarrow> CopyImageSchema list \<Rightarrow> nat list \<Rightarrow> ('s, unit) go" where
  "loop_seq run prep b images [] s = (Ok (), s)"
| "loop_seq run prep b images (i # is) s =
     (case batch_seq run (batch_images b images i) (prep i s) [] of
        (Ok (errs, _), s1) \<Rightarrow> if length errs > 0 then (Err worker_error, s1) else loop_seq run prep b images is s1
      | (Err e, s1) \<Rightarrow> (Err e, s1)
      | (Panic p, s1) \<Rightarrow> (Panic p, s1))"

function worker_seq :: "(CopyImageSchema \<Rightarrow> ('s, unit) go) \<Rightarrow> (nat \<Rightarrow> 's \<Rightarrow> 's) \<Rightarrow> CopyImageSchema list \<Rightarrow> ('s, unit) go" where
  "worker_seq run prep images s =
     (let b = plan_batches (length images) in
      case loop_seq run prep b images [0..<bs_Count b] s of
        (Ok _, s1) \<Rightarrow> if bs_Remainder b > 0 then worker_seq run prep (drop (bs_Count b * BATCH_SIZE) images) s1 else (Ok (), s1)
      | (Err e, s1) \<Rightarrow> (Err e, s1)
      | (Panic p, s1) \<Rightarrow> (Panic p, s1))"
  by pat_completeness auto
termination
proof (relation "measure (\<lambda>(_, _, images, _). length images)")
  fix images :: "CopyImageSchema list" and b :: BatchSchema and run prep s x y and s1 :: 'a
  assume b: "b = plan_batches (length images)" "0 < bs_Remainder b"
  then have "0 < bs_Count b" "images \<noteq> []" by (auto simp: plan_batches_def BATCH_SIZE_def div_greater_zero_iff split: if_splits)
  then show "((run, prep, drop (bs_Count b * BATCH_SIZE) images, s1), run, prep, images, s) \<in> measure (\<lambda>(_, _, images, _). length images)"
    by (simp add: BATCH_SIZE_def)
qed simp

declare worker_seq.simps [simp del]

text \<open>A configuration of the sequential schedule: the first \<open>n\<close> goroutines have ended, the others have not started.\<close>

definition seq_conf :: "'s \<Rightarrow> error list \<Rightarrow> nat \<Rightarrow> CopyImageSchema list \<Rightarrow> int \<Rightarrow> copy_log \<Rightarrow> 's conf" where
  "seq_conf s errs n imgs wg log =
     \<lparr>cf_state = s, cf_errs = errs, cf_gs = replicate n Finished @ map Ready imgs, cf_wg = wg, cf_crash = None, cf_log = log\<rparr>"

lemma replicate_snoc: "replicate n x @ x # ys = replicate (Suc n) x @ ys"
  by (simp add: replicate_append_same[symmetric])

lemma upd_replicate: "(replicate n Finished @ x # gs)[n := y] = replicate n Finished @ y # gs"
  using list_update_length[of "replicate n Finished" x gs y] by simp

lemma seq_step_ok:
  assumes "run img s = (Ok (), s1)"
  shows "batch_step run (seq_conf s errs n (img # imgs) wg log) (seq_conf s1 errs (Suc n) imgs (wg - 1) (log @ [(img, None)]))"
  using batch_step.copy_ok[of "seq_conf s errs n (img # imgs) wg log" n img run s1] assms
  by (simp add: seq_conf_def nth_append upd_replicate replicate_snoc del: replicate_Suc)

lemma seq_step_err:
  assumes "run img s = (Err e, s1)"
  shows "batch_steps run (seq_conf s errs n (img # imgs) wg log) (seq_conf s1 (errs @ [e]) (Suc n) imgs (wg - 1) (log @ [(img, Some e)]))"
proof -
  let ?c0 = "seq_conf s errs n (img # imgs) wg log"
  let ?c1 = "\<lparr>cf_state = s1, cf_errs = errs, cf_gs = replicate n Finished @ Failed e # map Ready imgs, cf_wg = wg, cf_crash = None, cf_log = log @ [(img, Some e)]\<rparr>"
  let ?c2 = "?c1\<lparr>cf_gs := replicate n Finished @ Appending e errs # map Ready imgs\<rparr>"
  have "batch_step run ?c0 ?c1"
    using batch_step.copy_err[of ?c0 n img run e s1] assms by (simp add: seq_conf_def nth_append upd_replicate)
  moreover have "batch_step run ?c1 ?c2"
    using batch_step.append_read[of ?c1 n e run] by (simp add: nth_append upd_replicate)
  moreover have "batch_step run ?c2 (seq_conf s1 (errs @ [e]) (Suc n) imgs (wg - 1) (log @ [(img, Some e)]))"
    using batch_step.append_write[of ?c2 n e errs run] by (simp add: seq_conf_def nth_append upd_replicate replicate_snoc del: replicate_Suc)
  ultimately show ?thesis by (meson batch_steps.intros)
qed

lemma seq_step_panic:
  assumes "run img s = (Panic p, s1)"
  shows "batch_step run (seq_conf s errs n (img # imgs) wg log) ((seq_conf s errs n (img # imgs) wg log)\<lparr>cf_state := s1, cf_crash := Some p\<rparr>)"
  using batch_step.copy_panic[of "seq_conf s errs n (img # imgs) wg log" n img run p s1] assms
  by (simp add: seq_conf_def nth_append)

lemma batch_steps_trans: "batch_steps run c d \<Longrightarrow> batch_steps run d e \<Longrightarrow> batch_steps run c e"
proof (rotate_tac, induction rule: batch_steps.induct)
  case (steps_step d e f)
  then show ?case by (blast intro: batch_steps.steps_step)
qed simp

lemma batch_steps_one: "batch_step run c d \<Longrightarrow> batch_steps run c d"
  by (blast intro: batch_steps.intros)

lemma batch_seq_ok:
  "batch_seq run imgs s errs = (Ok (es, l), s') \<Longrightarrow>
   batch_steps run (seq_conf s errs n imgs wg log) (seq_conf s' es (n + length imgs) [] (wg - int (length imgs)) (log @ l))"
proof (induction imgs arbitrary: s errs l n wg log)
  case (Cons img imgs)
  from Cons.prems consider
      (ok) s1 l' where "run img s = (Ok (), s1)" "batch_seq run imgs s1 errs = (Ok (es, l'), s')" "l = (img, None) # l'"
    | (err) s1 e l' where "run img s = (Err e, s1)" "batch_seq run imgs s1 (errs @ [e]) = (Ok (es, l'), s')" "l = (img, Some e) # l'"
    by (auto split: prod.splits outcome.splits)
  then show ?case
  proof cases
    case ok
    from batch_steps_trans[OF batch_steps_one[OF seq_step_ok[of run img s _ _ _ imgs, OF ok(1)]] Cons.IH[OF ok(2)]] ok(3)
    show ?thesis by (simp add: algebra_simps)
  next
    case err
    from batch_steps_trans[OF seq_step_err[of run img s _ _ _ _ imgs, OF err(1)] Cons.IH[OF err(2)]] err(3)
    show ?thesis by (simp add: algebra_simps)
  qed
qed (simp add: batch_steps.intros)

lemma batch_seq_panic:
  "batch_seq run imgs s errs = (Panic p, s') \<Longrightarrow>
   \<exists>c. batch_steps run (seq_conf s errs n imgs wg log) c \<and> cf_crash c = Some p \<and> cf_state c = s'"
proof (induction imgs arbitrary: s errs n wg log)
  case (Cons img imgs)
  from Cons.prems consider
      (panic) "run img s = (Panic p, s')"
    | (ok) s1 where "run img s = (Ok (), s1)" "batch_seq run imgs s1 errs = (Panic p, s')"
    | (err) s1 e where "run img s = (Err e, s1)" "batch_seq run imgs s1 (errs @ [e]) = (Panic p, s')"
    by (auto split: prod.splits outcome.splits)
  then show ?case
  proof cases
    case panic
    from batch_steps_one[OF seq_step_panic[of run img s p s' errs n imgs wg log, OF panic]] show ?thesis
      by (rule exI[of _ "(seq_conf s errs n (img # imgs) wg log)\<lparr>cf_state := s', cf_crash := Some p\<rparr>", OF conjI]) (simp add: seq_conf_def)
  next
    case ok
    from Cons.IH[OF ok(2)] show ?thesis
      using batch_steps_trans[OF batch_steps_one[OF seq_step_ok[of run img s _ _ _ imgs, OF ok(1)]]] by blast
  next
    case err
    from Cons.IH[OF err(2)] show ?thesis
      using batch_steps_trans[OF seq_step_err[of run img s _ _ _ _ imgs, OF err(1)]] by blast
  qed
qed simp

lemma batch_seq_no_err: "batch_seq run imgs s errs \<noteq> (Err e, s')"
  by (induction imgs arbitrary: s errs) (auto split: prod.splits outcome.splits)

lemma seq_conf_sel [simp]:
  "cf_state (seq_conf s errs n imgs wg l) = s" "cf_errs (seq_conf s errs n imgs wg l) = errs" "cf_wg (seq_conf s errs n imgs wg l) = wg"
  "cf_crash (seq_conf s errs n imgs wg l) = None" "cf_log (seq_conf s errs n imgs wg l) = l"
  by (simp_all add: seq_conf_def)

lemma start_batch_seq: "start_batch imgs wg s = seq_conf s [] 0 imgs wg []"
  by (simp add: start_batch_def seq_conf_def)

lemma loop_seq_schedule:
  assumes "loop_seq run prep b images [i..<bs_Count b] s = (r, s')" and "planned b" and "i < bs_Count b \<Longrightarrow> wg = int (bs_BatchSize b)"
  shows "\<exists>log. worker_loop run prep b images i wg s r s' log"
  using assms(1,3)
proof (induction "bs_Count b - i" arbitrary: i s wg)
  case 0
  then have "r = Ok ()" "s' = s" by simp_all
  with 0 show ?case using loop_end[of i b run prep images wg s] by auto
next
  case (Suc k)
  then have i: "i < bs_Count b" and upt: "[i..<bs_Count b] = i # [Suc i..<bs_Count b]" by (simp_all add: upt_conv_Cons)
  let ?imgs = "batch_images b images i"
  obtain q s1 where q: "batch_seq run ?imgs (prep i s) [] = (q, s1)" by fastforce
  show ?case
  proof (cases q)
    case (Ok el)
    then obtain es l where "el = (es, l)" by fastforce
    with q Ok have "batch_seq run ?imgs (prep i s) [] = (Ok (es, l), s1)" by simp
    from batch_seq_ok[OF this, of 0 wg "[]"] Suc.prems(2)[OF i]
    have st: "batch_steps run (start_batch ?imgs wg (prep i s)) (seq_conf s1 es (bs_BatchSize b) [] 0 l)" by (simp add: start_batch_seq)
    show ?thesis
    proof (cases "es = []")
      case False
      with q Ok \<open>el = (es, l)\<close> Suc.prems(1) upt have "r = Err worker_error" "s' = s1" by simp_all
      with loop_errors[where prep = prep and i = i and s = s, OF i st] False show ?thesis by auto
    next
      case True
      let ?c = "seq_conf s1 es (bs_BatchSize b) [] 0 l"
      let ?wg = "if bs_Count b > 1 then cf_wg ?c + int BATCH_SIZE else cf_wg ?c"
      have "\<exists>log. worker_loop run prep b images (Suc i) ?wg s1 r s' log"
        using q Ok \<open>el = (es, l)\<close> True Suc.prems(1) upt Suc.hyps(2) assms(2) by (intro Suc.hyps(1)) (auto simp: planned_def)
      with loop_next[where prep = prep and i = i and s = s, OF i st] True show ?thesis by auto
    qed
  next
    case (Panic p)
    from batch_seq_panic[OF q[unfolded Panic], of 0 wg "[]"]
    obtain c where "batch_steps run (start_batch ?imgs wg (prep i s)) c" "cf_crash c = Some p" "cf_state c = s1"
      by (auto simp: start_batch_seq)
    with loop_crash[where prep = prep and i = i and s = s, OF i] q Panic Suc.prems(1) upt show ?thesis by fastforce
  qed (use q batch_seq_no_err in force)
qed

lemma worker_seq_unfold:
  assumes "loop_seq run prep b images [0..<bs_Count b] s = (q, s1)" and "b = plan_batches (length images)"
  shows "worker_seq run prep images s =
    (if q = Ok () then if bs_Remainder b > 0 then worker_seq run prep (drop (bs_Count b * BATCH_SIZE) images) s1 else (Ok (), s1) else (q, s1))"
  using assms by (subst worker_seq.simps) (simp add: Let_def split: outcome.split)

lemma worker_seq_schedule: "worker_seq run prep images s = (r, s') \<Longrightarrow> \<exists>log. worker run prep images s r s' log"
proof (induction run prep images s rule: worker_seq.induct)
  case (1 run prep images s)
  let ?b = "plan_batches (length images)"
  obtain q s1 where q: "loop_seq run prep ?b images [0..<bs_Count ?b] s = (q, s1)" by fastforce
  obtain log where log: "worker_loop run prep ?b images 0 (int (bs_BatchSize ?b)) s q s1 log"
    using loop_seq_schedule[of run prep ?b images 0, OF q planned_plan] by blast
  have u: "(if q = Ok () then if bs_Remainder ?b > 0 then worker_seq run prep (drop (bs_Count ?b * BATCH_SIZE) images) s1
      else (Ok (), s1) else (q, s1)) = (r, s')"
    using "1.prems" worker_seq_unfold[OF q refl] by simp
  show ?case
  proof (cases "q = Ok ()")
    case True
    show ?thesis
    proof (cases "bs_Remainder ?b > 0")
      case False
      with u True log show ?thesis by (auto intro: worker_ends)
    next
      case rem: True
      with u True have "worker_seq run prep (drop (bs_Count ?b * BATCH_SIZE) images) s1 = (r, s')" by simp
      from "1"(1)[OF refl q[symmetric] True rem this] show ?thesis using worker_remainder[OF refl log[unfolded True] rem] by blast
    qed
  next
    case False
    with u have "r = q" "s' = s1" by simp_all
    with False log show ?thesis by (blast intro: worker_fails)
  qed
qed

section \<open>Properties\<close>

text \<open>The example images of the witnesses, and a copy that counts its calls and fails for one source.\<close>

definition demo_image :: "nat \<Rightarrow> CopyImageSchema" where
  "demo_image n = \<lparr>ci_Source = ''docker://a/'' @ Itoa n, ci_Destination = ''docker://b/'' @ Itoa n\<rparr>"

definition demo_run :: "string \<Rightarrow> CopyImageSchema \<Rightarrow> (nat, unit) go" where
  "demo_run bad img n = (if ci_Source img = bad then Err (errorf ''denied'' []) else Ok (), Suc n)"

lemma worker_copies_all_parts:
  assumes "worker run prep images s (Ok ()) s' log"
  shows "\<exists>ls. log = concat ls \<and> list_all2 (\<lambda>l imgs. mset (map fst l) = mset imgs) ls (chunks images)"
    and "list_all (\<lambda>(_, e). e = None) log"
proof -
  from worker_ok[OF assms refl] obtain ls where "\<not> failed_log log" "log = concat ls" "list_all2 copied ls (chunks images)" by blast
  then show "\<exists>ls. log = concat ls \<and> list_all2 (\<lambda>l imgs. mset (map fst l) = mset imgs) ls (chunks images)"
    by (auto simp: copied_def[abs_def])
  show "list_all (\<lambda>(_, e). e = None) log" using \<open>\<not> failed_log log\<close>
    unfolding failed_log_def list_ex_iff list_all_iff by blast
qed

text \<open>C5: a worker that returns no error has copied every image exactly once, in batches of
  eight: the log of the copies, in the order in which they ended, is a sequence of groups, and the
  k-th group has the images of the k-th eight images of the argument, whatever the scheduler did
  inside the group.  No copy in the log has failed.\<close>

theorem worker_copies_all:
  assumes "worker run prep images s (Ok ()) s' log"
  shows "(\<exists>ls. log = concat ls \<and> list_all2 (\<lambda>l imgs. mset (map fst l) = mset imgs) ls (chunks images)) \<and>
    list_all (\<lambda>(_, e). e = None) log"
  using worker_copies_all_parts[OF assms] by blast

lemma nth_chunks: "k < length (chunks xs) \<Longrightarrow> chunks xs ! k = take 8 (drop (k * 8) xs)"
proof (induction k arbitrary: xs)
  case 0
  then show ?case by (cases "xs = []") (simp_all add: chunks_step)
next
  case (Suc k)
  then show ?case using Suc.IH[of "drop 8 xs"] by (cases "xs = []") (simp_all add: chunks_step add.commute)
qed

lemma copied_concat: "list_all2 copied ls xss \<Longrightarrow> mset (map fst (concat ls)) = mset (concat xss)"
  by (induction rule: list_all2_induct) (simp_all add: copied_def)

lemma worker_stops_at:
  assumes "worker run prep images s (Err e) s' log"
  shows "\<exists>before failing k. log = before @ failing \<and> \<not> failed_log before \<and> failed_log failing \<and>
    mset (map fst before) = mset (take (k * 8) images) \<and> mset (map fst failing) = mset (take 8 (drop (k * 8) images))"
proof -
  obtain ls l k where f: "fails_in ls l log" and cp: "list_all2 copied (ls @ [l]) (take (Suc k) (chunks images))"
    using worker_err[OF assms refl] by blast
  let ?n = "length ls" and ?c = "chunks images"
  have "length (take (Suc k) ?c) = Suc ?n" using list_all2_lengthD[OF cp] by simp
  then have n: "?n < length ?c" and "take (Suc k) ?c = take (Suc ?n) ?c" by (auto simp: min_def split: if_splits)
  then have "list_all2 copied (ls @ [l]) (take ?n ?c @ [?c ! ?n])" using cp by (simp add: take_Suc_conv_app_nth)
  then have x: "list_all2 copied ls (take ?n ?c)" "copied l (?c ! ?n)" using n by (simp_all add: list_all2_append)
  have "mset (map fst (concat ls)) = mset (take (?n * 8) images)" using copied_concat[OF x(1)] by (simp add: take_chunks)
  moreover have "mset (map fst l) = mset (take 8 (drop (?n * 8) images))" using x(2) nth_chunks[OF n] by (simp add: copied_def)
  ultimately show ?thesis using f unfolding fails_in_def by blast
qed

text \<open>C9: a worker that does not panic returns an error exactly when a copy has failed, although the goroutines
  append to the error slice without a lock; the error is always the same one.  It stops at the first
  batch of eight with a failed copy: the images of the batches before it have been copied without a failure, every
  image of the failing batch has been tried, and no later image was started.\<close>

theorem worker_error_iff_failed_copy:
  assumes "worker run prep images s r s' log" and "\<forall>p. r \<noteq> Panic p"
  shows "((\<exists>e. r = Err e) \<longleftrightarrow> (\<exists>img e. (img, Some e) \<in> set log)) \<and>
    (r = Ok () \<or> r = Err worker_error \<and> (\<exists>before failing k. log = before @ failing \<and>
       list_all (\<lambda>(_, e). e = None) before \<and> list_ex (\<lambda>(_, e). e \<noteq> None) failing \<and>
       mset (map fst before) = mset (take (k * 8) images) \<and> mset (map fst failing) = mset (take 8 (drop (k * 8) images))))"
proof -
  have fl: "failed_log log \<longleftrightarrow> (\<exists>img e. (img, Some e) \<in> set log)" by (auto simp: failed_log_def list_ex_iff)
  show ?thesis
  proof (cases r)
    case (Ok u)
    then show ?thesis using worker_ok[OF assms(1)] fl by auto
  next
    case (Err e)
    then have w: "worker run prep images s (Err e) s' log" using assms(1) by simp
    have "e = worker_error" "failed_log log" using worker_err[OF w refl] by (auto simp: fails_in_def)
    with worker_stops_at[OF w] Err show ?thesis unfolding fl failed_log_iff failed_log_def[symmetric] by auto
  qed (use assms(2) in simp)
qed

lemma batch_never_blocks_parts:
  assumes "batch_steps run (start_batch imgs (int (length imgs)) s) c" and "cf_crash c = None"
  shows "cf_wg c = int (length (filter (\<lambda>g. g \<noteq> Finished) (cf_gs c)))"
    and "cf_wg c \<noteq> 0 \<Longrightarrow> \<exists>d. batch_step run c d"
    and "wfP (\<lambda>d c. batch_step run c d)"
proof -
  show wg: "cf_wg c = int (length (filter (\<lambda>g. g \<noteq> Finished) (cf_gs c)))"
    using batch_steps_inv[OF assms(1) batch_inv_start assms(2)] by (simp add: batch_inv_def unfinished_def)
  show "cf_wg c \<noteq> 0 \<Longrightarrow> \<exists>d. batch_step run c d"
    using batch_progress[OF _ assms(2), of run] wg by (simp add: unfinished_def)
  show "wfP (\<lambda>d c. batch_step run c d)"
    using wfp_if_convertible_to_nat[of "\<lambda>d c. batch_step run c d" conf_weight] batch_step_weight by blast
qed

text \<open>C7: in every state a batch can reach, the counter of the wait group is the number of
  goroutines that have not ended; while it is not zero and nothing has panicked some goroutine can take
  a step, and no schedule is infinite.\<close>

theorem batch_never_blocks:
  assumes "batch_steps run (start_batch imgs (int (length imgs)) s) c" and "cf_crash c = None"
  shows "cf_wg c = int (length (filter (\<lambda>g. g \<noteq> Finished) (cf_gs c))) \<and>
    (cf_wg c \<noteq> 0 \<longrightarrow> (\<exists>d. batch_step run c d)) \<and> wfP (\<lambda>d c. batch_step run c d)"
  using batch_never_blocks_parts[OF assms] by blast

text \<open>C13: the program that runs the goroutines one after the other is one of the schedules of the
  worker: whatever it returns and whatever state it ends in, the worker can return and end in.\<close>

theorem worker_seq_refines:
  assumes "worker_seq run prep images s = (r, s')"
  shows "\<exists>log. worker run prep images s r s' log"
  using assms by (rule worker_seq_schedule)

text \<open>The append without a lock: with two failing copies there is a schedule that loses one of
  the two errors.\<close>

lemma errArray_lost_update:
  assumes "run a s = (Err e1, s1)" and "run b s1 = (Err e2, s2)"
  shows "\<exists>c. batch_steps run (start_batch [a, b] 2 s) c \<and> cf_wg c = 0 \<and> cf_crash c = None \<and>
    cf_errs c = [e2] \<and> cf_log c = [(a, Some e1), (b, Some e2)]"
proof -
  let ?c = "\<lambda>s es gs wg l. \<lparr>cf_state = s, cf_errs = es, cf_gs = gs, cf_wg = wg, cf_crash = None, cf_log = l\<rparr>"
  let ?l = "[(a, Some e1), (b, Some e2)]"
  have "batch_step run (?c s [] [Ready a, Ready b] 2 []) (?c s1 [] [Failed e1, Ready b] 2 [(a, Some e1)])"
    using batch_step.copy_err[of "?c s [] [Ready a, Ready b] 2 []" 0 a run e1 s1] assms by simp
  moreover have "batch_step run (?c s1 [] [Failed e1, Ready b] 2 [(a, Some e1)]) (?c s2 [] [Failed e1, Failed e2] 2 ?l)"
    using batch_step.copy_err[of "?c s1 [] [Failed e1, Ready b] 2 [(a, Some e1)]" 1 b run e2 s2] assms by simp
  moreover have "batch_step run (?c s2 [] [Failed e1, Failed e2] 2 ?l) (?c s2 [] [Appending e1 [], Failed e2] 2 ?l)"
    using batch_step.append_read[of "?c s2 [] [Failed e1, Failed e2] 2 ?l" 0 e1 run] by simp
  moreover have "batch_step run (?c s2 [] [Appending e1 [], Failed e2] 2 ?l) (?c s2 [] [Appending e1 [], Appending e2 []] 2 ?l)"
    using batch_step.append_read[of "?c s2 [] [Appending e1 [], Failed e2] 2 ?l" 1 e2 run] by simp
  moreover have "batch_step run (?c s2 [] [Appending e1 [], Appending e2 []] 2 ?l) (?c s2 [e1] [Finished, Appending e2 []] 1 ?l)"
    using batch_step.append_write[of "?c s2 [] [Appending e1 [], Appending e2 []] 2 ?l" 0 e1 "[]" run] by simp
  moreover have "batch_step run (?c s2 [e1] [Finished, Appending e2 []] 1 ?l) (?c s2 [e2] [Finished, Finished] 0 ?l)"
    using batch_step.append_write[of "?c s2 [e1] [Finished, Appending e2 []] 1 ?l" 1 e2 "[]" run] by simp
  ultimately have "batch_steps run (?c s [] [Ready a, Ready b] 2 []) (?c s2 [e2] [Finished, Finished] 0 ?l)"
    by (meson batch_steps.intros)
  then show ?thesis by (intro exI[of _ "?c s2 [e2] [Finished, Finished] 0 ?l"]) (simp add: start_batch_def)
qed

theorem worker_seq_refines_witness:
  "worker_seq (demo_run ''docker://a/9'') (\<lambda>_ s. s) (map demo_image [0..<10]) 0 = (Err worker_error, 10) \<and>
   (\<exists>log. worker (demo_run ''docker://a/9'') (\<lambda>_ s. s) (map demo_image [0..<10]) 0 (Err worker_error) 10 log)"
proof -
  have r: "worker_seq (demo_run ''docker://a/9'') (\<lambda>_ s. s) (map demo_image [0..<10]) 0 = (Err worker_error, 10)"
    by code_simp
  with worker_seq_refines[OF r] show ?thesis by blast
qed

lemma demo_worker_ok: "\<exists>log. worker (demo_run []) (\<lambda>_ s. s) (map demo_image [0..<10]) 0 (Ok ()) 10 log"
proof (rule worker_seq_schedule)
  show "worker_seq (demo_run []) (\<lambda>_ s. s) (map demo_image [0..<10]) 0 = (Ok (), 10)" by code_simp
qed

lemma demo_worker_err: "\<exists>log. worker (demo_run ''docker://a/9'') (\<lambda>_ s. s) (map demo_image [0..<10]) 0 (Err worker_error) 10 log"
proof (rule worker_seq_schedule)
  show "worker_seq (demo_run ''docker://a/9'') (\<lambda>_ s. s) (map demo_image [0..<10]) 0 = (Err worker_error, 10)" by code_simp
qed

theorem worker_copies_all_witness:
  "\<exists>log. worker (demo_run []) (\<lambda>_ s. s) (map demo_image [0..<10]) 0 (Ok ()) 10 log \<and>
     (\<exists>ls. log = concat ls \<and> list_all2 (\<lambda>l imgs. mset (map fst l) = mset imgs) ls (chunks (map demo_image [0..<10])))"
  using demo_worker_ok worker_copies_all[of "demo_run []" "\<lambda>_ s. s" "map demo_image [0..<10]" 0 10] by blast

theorem worker_error_iff_failed_copy_witness:
  "\<exists>log. worker (demo_run ''docker://a/9'') (\<lambda>_ s. s) (map demo_image [0..<10]) 0 (Err worker_error) 10 log \<and>
     (\<exists>img e. (img, Some e) \<in> set log)"
  using demo_worker_err worker_error_iff_failed_copy[of "demo_run ''docker://a/9''" "\<lambda>_ s. s" "map demo_image [0..<10]" 0 "Err worker_error" 10]
  by blast

theorem batch_never_blocks_witness:
  "\<exists>d. batch_step (demo_run []) (start_batch [demo_image 0] 1 0) d"
  using batch_never_blocks[of "demo_run []" "[demo_image 0]" 0 "start_batch [demo_image 0] 1 0"]
  by (simp add: start_batch_def batch_steps.intros)

end
