(* ===== verification/Collector_Common.thy ===== *)
theory Collector_Common
  imports Manifest Mirror_Copy
begin

text \<open>
  What the three collectors share: the transport prefixes, the regular expressions that pick the
  index files of a layout, and the walk over a directory that emits an image for every file picked.

  A file name is matched character by character (names in UTF-8 with other than ASCII characters
  are outside the model of the dot).  \<open>filepath.Walk\<close> hands the cleaned path to the
  function, for the root too.
\<close>

definition dockerProtocol :: string where "dockerProtocol = ''docker://''"
definition ociProtocol :: string where "ociProtocol = ''oci://''"
definition ociProtocolTrimmed :: string where "ociProtocolTrimmed = ''oci:''"
definition dirProtocol :: string where "dirProtocol = ''dir://''"
definition dirProtocolTrimmed :: string where "dirProtocolTrimmed = ''dir:''"
definition diskToMirror :: string where "diskToMirror = ''diskToMirror''"
definition mirrorToDisk :: string where "mirrorToDisk = ''mirrorToDisk''"
definition operatorImageDir :: string where "operatorImageDir = ''operator-images''"
definition releaseImageDir :: string where "releaseImageDir = ''release-images''"
definition additionalImagesDir :: string where "additionalImagesDir = ''additional-images''"
definition operatorImageExtractDir :: string where "operatorImageExtractDir = ''hold-operator''"
definition releaseImageExtractDir :: string where "releaseImageExtractDir = ''hold-release''"
definition blobsDir :: string where "blobsDir = ''blobs/sha256''"

lemma mode_distinct [simp]: "mirrorToDisk \<noteq> diskToMirror" "diskToMirror \<noteq> mirrorToDisk"
  by (simp_all add: mirrorToDisk_def diskToMirror_def)

section \<open>The regular expressions index.json and manifest.json\<close>

text \<open>\<open>regexp.Compile(stem + ".json")\<close> is not anchored, and its dot is any character but a newline.\<close>

fun name_matches :: "string \<Rightarrow> string \<Rightarrow> bool" where
  "name_matches stem [] = False"
| "name_matches stem (c # cs) =
     ((case strip_prefix stem (c # cs) of
         Some (d # r) \<Rightarrow> d \<noteq> CHR 0x0A \<and> HasPrefix r ''json''
       | _ \<Rightarrow> False) \<or> name_matches stem cs)"

lemma name_matches_iff:
  assumes "stem \<noteq> []"
  shows "name_matches stem s \<longleftrightarrow> (\<exists>a d b. s = a @ stem @ [d] @ ''json'' @ b \<and> d \<noteq> CHR 0x0A)"
proof (induction s)
  case (Cons c cs)
  have head: "(case strip_prefix stem (c # cs) of Some (d # r) \<Rightarrow> d \<noteq> CHR 0x0A \<and> HasPrefix r ''json'' | _ \<Rightarrow> False) \<longleftrightarrow>
      (\<exists>d b. c # cs = stem @ [d] @ ''json'' @ b \<and> d \<noteq> CHR 0x0A)"
    by (auto simp: strip_prefix_Some HasPrefix_iff split: option.splits list.splits)
  have "(\<exists>a d b. c # cs = a @ stem @ [d] @ ''json'' @ b \<and> d \<noteq> CHR 0x0A) \<longleftrightarrow>
      (\<exists>d b. c # cs = stem @ [d] @ ''json'' @ b \<and> d \<noteq> CHR 0x0A) \<or> (\<exists>a d b. cs = a @ stem @ [d] @ ''json'' @ b \<and> d \<noteq> CHR 0x0A)"
    (is "?l \<longleftrightarrow> ?h \<or> ?t")
  proof
    assume ?l
    then obtain a d b where eq: "c # cs = a @ stem @ [d] @ ''json'' @ b" "d \<noteq> CHR 0x0A" by blast
    show "?h \<or> ?t"
    proof (cases a)
      case (Cons x a')
      with eq have "cs = a' @ stem @ [d] @ ''json'' @ b" by simp
      with eq(2) show ?thesis by blast
    qed (use eq in auto)
  next
    assume "?h \<or> ?t"
    then consider d b where "c # cs = [] @ stem @ [d] @ ''json'' @ b" "d \<noteq> CHR 0x0A"
      | a d b where "c # cs = (c # a) @ stem @ [d] @ ''json'' @ b" "d \<noteq> CHR 0x0A" by auto
    then show ?l by cases blast+
  qed
  with Cons head show ?case by simp
qed (use assms in simp)

section \<open>Walks that emit images\<close>

text \<open>The function the operator and additional image collectors hand to \<open>Walk\<close>: a path reported
  with an error is skipped.\<close>

definition visit :: "(path \<Rightarrow> bool) \<Rightarrow> (path \<Rightarrow> 'a outcome) \<Rightarrow> path \<Rightarrow> error option \<Rightarrow> 'a list \<Rightarrow> 'a list outcome" where
  "visit pick emit p err acc =
     (if err = None \<and> pick p then ok_map (\<lambda>x. acc @ [x]) (emit p) else Ok acc)"

text \<open>The paths a walk reports without an error.\<close>

definition walk_found :: "string \<Rightarrow> fs \<Rightarrow> path list" where
  "walk_found root s = map fst (filter (\<lambda>(_, e). e = None) (walk_calls root s))"

lemma walk_visit:
  assumes "\<And>p. p \<in> set (map fst (filter (\<lambda>(_, e). e = None) calls)) \<Longrightarrow> pick p \<Longrightarrow> emit p = Ok (f p)"
  shows "walk_with (visit pick emit) calls acc =
    (let r = acc @ map f (filter pick (map fst (filter (\<lambda>(_, e). e = None) calls))) in (Ok r, r))"
  using assms
proof (induction calls arbitrary: acc)
  case (Cons c calls)
  obtain p e where c: "c = (p, e)" by fastforce
  show ?case using Cons.prems[of p] Cons.IH[OF Cons.prems] c
    by (cases e) (auto simp: visit_def Let_def)
qed (simp add: Let_def)

lemma Walk_visit:
  assumes "\<And>p. p \<in> set (walk_found root s) \<Longrightarrow> pick p \<Longrightarrow> emit p = Ok (f p)"
  shows "fst (Walk root (visit pick emit) acc s) = Ok (acc @ map f (filter pick (walk_found root s)))"
  using walk_visit[of "walk_calls root s" pick emit f acc] assms by (simp add: Walk_def walk_found_def Let_def)

lemma walk_visit_keeps:
  assumes "walk_with (visit pick emit) calls acc = (Ok out, out')"
  shows "out' = out \<and> (\<exists>new. out = acc @ new \<and> (\<forall>p. (p, None) \<in> set calls \<longrightarrow> pick p \<longrightarrow> (\<exists>x \<in> set new. emit p = Ok x)))"
  using assms
proof (induction calls arbitrary: acc)
  case (Cons c calls)
  obtain p e where c: "c = (p, e)" by fastforce
  show ?case
  proof (cases "e = None \<and> pick p")
    case True
    with Cons.prems c obtain x where x: "emit p = Ok x" "walk_with (visit pick emit) calls (acc @ [x]) = (Ok out, out')"
      by (cases "emit p") (auto simp: visit_def[of pick emit p])
    from Cons.IH[OF x(2)] x(1) c show ?thesis by fastforce
  next
    case False
    with Cons.prems c have "walk_with (visit pick emit) calls acc = (Ok out, out')" by (auto simp: visit_def[of pick emit p])
    from Cons.IH[OF this] c False show ?thesis by fastforce
  qed
qed simp

lemma walk_with_Ok_acc: "fst (walk_with f calls acc) = Ok x \<Longrightarrow> walk_with f calls acc = (Ok x, x)"
proof (induction calls arbitrary: acc)
  case (Cons c calls)
  obtain p e where c: "c = (p, e)" by fastforce
  with Cons show ?case by (cases "f p e acc") auto
qed simp

lemma visit_no_err: "\<not> is_err (emit p) \<Longrightarrow> \<not> is_err (visit pick emit p e acc)"
  by (cases "emit p") (auto simp: visit_def)

lemma walk_no_err: "(\<And>p e acc. \<not> is_err (f p e acc)) \<Longrightarrow> \<not> is_err (fst (walk_with f calls acc))"
proof (induction calls arbitrary: acc)
  case (Cons c calls)
  obtain p e where c: "c = (p, e)" by fastforce
  from Cons.prems[of p e acc] Cons.IH[OF Cons.prems] c show ?case by (cases "f p e acc") auto
qed simp

section \<open>Directories of images\<close>

text \<open>\<open>registry/ns/name:tag\<close> is kept in the directory \<open>name/tag\<close>.\<close>

definition image_index_dir :: "string \<Rightarrow> string outcome" where
  "image_index_dir ref =
     (let hld = Split ref ''/'' in ok_map (\<lambda>x. ReplaceAll x '':'' ''/'') (go_index_int hld (int (length hld) - 1)))"

lemma image_index_dir_Ok: "image_index_dir ref = Ok (ReplaceAll (last (Split ref ''/'')) '':'' ''/'')"
proof -
  have "length (Split ref ''/'') > 0" by simp
  then show ?thesis by (simp add: image_index_dir_def Let_def last_conv_nth nat_diff_distrib')
qed

definition nil_deref :: string where
  "nil_deref = ''invalid memory address or nil pointer dereference''"

section \<open>Values for the witnesses\<close>

definition empty_fs :: fs where
  "empty_fs = \<lparr>fs_nodes = [], fs_fault = (\<lambda>_ _. None)\<rparr>"

text \<open>Decoders that read one payload with one image each, whatever the text.\<close>

definition demo_release_schema :: ReleaseSchema where
  "demo_release_schema =
     \<lparr>rs_Kind = ''ImageStream'', rs_APIVersion = [],
      rs_Metadata = \<lparr>rm_Name = [], rm_CreationTimestamp = [],
        rm_Annotations = \<lparr>ma_ReleaseOpenshiftIoFromImageStream = [], ma_ReleaseOpenshiftIoFromRelease = []\<rparr>\<rparr>,
      rs_Spec = \<lparr>sc_LookupPolicy = \<lparr>lp_Local = False\<rparr>,
        sc_Tags = [\<lparr>tg_Name = ''cli'', 
          tg_Annotations = \<lparr>an_IoOpenshiftBuildCommitID = [], an_IoOpenshiftBuildCommitRef = [], an_IoOpenshiftBuildSourceLocation = [],
            an_IoOpenshiftBuildVersionDisplayNames = [], an_IoOpenshiftBuildVersions = []\<rparr>,
          tg_From = \<lparr>fr_Kind = ''DockerImage'', fr_Name = ''quay.io/ocp/release@sha256:11''\<rparr>,
          tg_Generation = JNull, tg_ImportPolicy = (), tg_ReferencePolicy = \<lparr>rf_Type = []\<rparr>\<rparr>]\<rparr>,
      rs_Status = \<lparr>su_DockerImageRepository = []\<rparr>\<rparr>"

definition demo_codecs :: codecs where
  "demo_codecs =
     \<lparr>cd_oci = (\<lambda>_. Ok None), cd_ocs = (\<lambda>_. Ok None), cd_release = (\<lambda>_. Ok demo_release_schema), cd_olm = (\<lambda>_. Ok []),
      cd_targz = (\<lambda>_. Ok ([], None))\<rparr>"

end
