(* ===== verification/Additional_Collector.thy ===== *)
theory Additional_Collector
  imports Collector_Common
begin

text \<open>
  The additional images: \<open>pkg/additional/collector.go\<close>.

  \<open>AdditionalImagesCollector\<close> has the two modes of the method.  The loops follow the source: the
  first error of the image parser ends the collection with that error, a directory that cannot be
  created ends it with an empty list and no error.  The receiver's fields \<open>Config\<close> and \<open>Opts\<close>
  are arguments.  The collection of new images is related to the loop \<open>collect_new\<close>, whose laws
  come from the interpretation \<open>fsc\<close>.
\<close>

section \<open>Model\<close>

definition add_customImageParser :: "string \<Rightarrow> ImageRefSchema outcome" where
  "add_customImageParser ref =
     (let parts = Split ref ''/'' in
      if length parts < 3 then Err (errorf ''[customImageParser] image url seems to be wrong %s '' [ref])
      else
        let component = parts ! 2;
            component = (if Contains (parts ! 2) ''@'' then Split (parts ! 2) ''@'' ! 0 else component);
            component = (if Contains (parts ! 2) '':'' then Split (parts ! 2) '':'' ! 0 else component)
        in Ok \<lparr>ir_Repository = parts ! 0, ir_Namespace = parts ! 1, ir_Component = component\<rparr>)"

definition add_errMsg :: "error \<Rightarrow> error" where
  "add_errMsg e = Errorf ''[AdditionalImagesCollector] %v '' [] [e]"

definition add_cache_dir :: "CopyOptions \<Rightarrow> ImageRefSchema \<Rightarrow> string" where
  "add_cache_dir opts irs =
     Join [gl_Dir (co_Global opts), additionalImagesDir, ir_Namespace irs, ir_Component irs] ''/''"

definition add_schema :: "CopyOptions \<Rightarrow> string \<Rightarrow> Image \<Rightarrow> CopyImageSchema" where
  "add_schema opts cacheDir img =
     \<lparr>ci_Source = dockerProtocol @ im_Name img,
      ci_Destination = (Split (co_Destination opts) ''://'' ! 0 @ '':'') @ cacheDir\<rparr>"

fun add_new_images :: "CopyOptions \<Rightarrow> Image list \<Rightarrow> CopyImageSchema list \<Rightarrow> (fs, CopyImageSchema list) go" where
  "add_new_images opts [] allImages = go_return allImages"
| "add_new_images opts (img # imgs) allImages =
     (case add_customImageParser (im_Name img) of
        Err e \<Rightarrow> go_fail (add_errMsg e)
      | Panic p \<Rightarrow> go_panic p
      | Ok irs \<Rightarrow> (\<lambda>s.
          let cacheDir = add_cache_dir opts irs in
          if absent cacheDir s then
            go_try (MkdirAll cacheDir) (\<lambda>r. case r of
                Inl _ \<Rightarrow> go_return []
              | Inr _ \<Rightarrow> add_new_images opts imgs (allImages @ [add_schema opts cacheDir img])) s
          else add_new_images opts imgs allImages s))"

definition add_emit :: "CopyOptions \<Rightarrow> path \<Rightarrow> CopyImageSchema outcome" where
  "add_emit opts p =
     (let hld = Split (dir_of p) additionalImagesDir in
      ok_map (\<lambda>rest. \<lparr>ci_Source = ociProtocolTrimmed @ dir_of p, ci_Destination = co_Destination opts @ rest\<rparr>)
        (go_index hld 1))"

definition add_visit :: "CopyOptions \<Rightarrow> path \<Rightarrow> error option \<Rightarrow> CopyImageSchema list \<Rightarrow> CopyImageSchema list outcome" where
  "add_visit opts = visit (\<lambda>p. name_matches ''index'' (base_of p)) (add_emit opts)"

text \<open>The error of \<open>Walk\<close> is returned after the loop, which keeps the last one.\<close>

fun add_disk_images ::
  "CopyOptions \<Rightarrow> Image list \<Rightarrow> error option \<Rightarrow> CopyImageSchema list \<Rightarrow> fs \<Rightarrow> CopyImageSchema list outcome" where
  "add_disk_images opts [] e allImages s = (case e of None \<Rightarrow> Ok allImages | Some x \<Rightarrow> Err x)"
| "add_disk_images opts (addImg # imgs) e allImages s =
     (let imagesDir = Replace1 (im_Name addImg) ''dir://'' [] in
      case Walk imagesDir (add_visit opts) allImages s of
        (Ok _, imgs') \<Rightarrow> add_disk_images opts imgs None imgs' s
      | (Err x, imgs') \<Rightarrow> add_disk_images opts imgs (Some x) imgs' s
      | (Panic m, _) \<Rightarrow> Panic m)"

definition AdditionalImagesCollector :: "CopyOptions \<Rightarrow> ImageSetConfiguration \<Rightarrow> (fs, CopyImageSchema list) go" where
  "AdditionalImagesCollector opts config =
     go_bind (if co_Mode opts = mirrorToDisk then add_new_images opts (cfg_AdditionalImages config) [] else go_return []) (\<lambda>allImages.
       if co_Mode opts = diskToMirror
       then (\<lambda>s. (add_disk_images opts (cfg_AdditionalImages config) None allImages s, s))
       else go_return allImages)"

section \<open>Laws\<close>

lemma add_customImageParser_no_panic [simp]: "add_customImageParser ref \<noteq> Panic p"
  by (simp add: add_customImageParser_def Let_def)

definition add_key :: "CopyOptions \<Rightarrow> Image \<Rightarrow> string outcome" where
  "add_key opts img = ok_map (add_cache_dir opts) (add_customImageParser (im_Name img))"

text \<open>The loop is the caching loop of \<open>collect_new\<close>, except for what it returns when that fails.\<close>

lemma add_new_images_collect:
  "collect_new absent MkdirAll (add_key opts) imgs s = (q, t) \<Longrightarrow>
   add_new_images opts imgs acc s = (r, s') \<Longrightarrow>
   s' = t \<and> (case q of Ok ys \<Rightarrow> r = Ok (acc @ map (\<lambda>(k, i). add_schema opts k i) ys) | _ \<Rightarrow> r = Ok [] \<or> is_err r)"
proof (induction imgs arbitrary: acc s q t)
  case (Cons img imgs)
  show ?case
  proof (cases "add_customImageParser (im_Name img)")
    case (Ok irs)
    let ?d = "add_cache_dir opts irs"
    have key: "add_key opts img = Ok ?d" by (simp add: add_key_def Ok)
    show ?thesis
    proof (cases "absent ?d s")
      case False
      with Cons Ok key show ?thesis by simp
    next
      case True
      obtain m u where m: "MkdirAll ?d s = (m, u)" by fastforce
      show ?thesis
      proof (cases m)
        case mk: (Ok _)
        obtain q' t' where q': "collect_new absent MkdirAll (add_key opts) imgs u = (q', t')" by fastforce
        have "add_new_images opts imgs (acc @ [add_schema opts ?d img]) u = (r, s')"
          using Cons.prems(2) True Ok m mk by (simp add: Let_def)
        note IH = Cons.IH[OF q' this]
        have c: "collect_new absent MkdirAll (add_key opts) (img # imgs) s = (ok_map (\<lambda>ys. (?d, img) # ys) q', t')"
          using True key m mk q' by (cases q') (simp_all add: go_bind_def go_lift_def go_return_def)
        from IH c Cons.prems(1) show ?thesis by (cases q') auto
      next
        case (Err e)
        with Cons.prems True Ok key m show ?thesis by (auto simp: Let_def)
      next
        case (Panic p)
        with m show ?thesis by simp
      qed
    qed
  qed (use Cons.prems in \<open>auto simp: add_key_def go_prim_defs\<close>)
qed auto

lemma add_collected:
  assumes "co_Mode opts = mirrorToDisk" and "AdditionalImagesCollector opts config s = (Ok out, s')" and "out \<noteq> []"
  obtains ys where "collect_new absent MkdirAll (add_key opts) (cfg_AdditionalImages config) s = (Ok ys, s')"
    and "out = map (\<lambda>(k, i). add_schema opts k i) ys"
proof -
  have "add_new_images opts (cfg_AdditionalImages config) [] s = (Ok out, s')"
    using assms(1,2) unfolding AdditionalImagesCollector_def by (auto elim!: go_bind_OkE)
  moreover obtain q t where q: "collect_new absent MkdirAll (add_key opts) (cfg_AdditionalImages config) s = (q, t)" by fastforce
  ultimately have "s' = t" "case q of Ok ys \<Rightarrow> out = map (\<lambda>(k, i). add_schema opts k i) ys | _ \<Rightarrow> out = []"
    using add_new_images_collect by (cases q; fastforce)+
  with that q assms(3) show thesis by (cases q) auto
qed

lemma add_schema_inj: "ci_Destination (add_schema opts k i) = ci_Destination (add_schema opts k' i') \<longleftrightarrow> k = k'"
  by (simp add: add_schema_def)

lemma add_collector_again:
  assumes "co_Mode opts = mirrorToDisk" and "collect_new absent MkdirAll (add_key opts) (cfg_AdditionalImages config) s = (Ok ys, s')"
  shows "AdditionalImagesCollector opts config s' = (Ok [], s')"
proof -
  obtain r t where r: "add_new_images opts (cfg_AdditionalImages config) [] s' = (r, t)" by fastforce
  from add_new_images_collect[OF fsc.collect_again[OF assms(2)] this] have "r = Ok []" "t = s'" by auto
  with r assms(1) show ?thesis by (simp add: AdditionalImagesCollector_def go_bind_def go_return_def)
qed

lemma add_visit_no_err: "\<not> is_err (add_visit opts p e acc)"
proof -
  have "\<not> is_err (add_emit opts p)" by (simp add: add_emit_def go_index_def Let_def)
  then show ?thesis unfolding add_visit_def by (rule visit_no_err)
qed

lemma add_disk_images_found:
  assumes "add_disk_images opts imgs e acc s = Ok out" and "img \<in> set imgs"
    and "p \<in> set (walk_found (Replace1 (im_Name img) ''dir://'' []) s)" and "name_matches ''index'' (base_of p)"
  shows "\<exists>x \<in> set out. add_emit opts p = Ok x"
proof -
  have step: "\<exists>new. out' = acc @ new \<and> (\<forall>p \<in> set (walk_found root s). name_matches ''index'' (base_of p) \<longrightarrow> (\<exists>x \<in> set new. add_emit opts p = Ok x))"
    if "Walk root (add_visit opts) acc s = (Ok o', out')" for root acc o' out'
    using walk_visit_keeps[of "\<lambda>p. name_matches ''index'' (base_of p)" "add_emit opts" "walk_calls root s" acc o' out'] that
    by (fastforce simp: Walk_def add_visit_def walk_found_def)
  have no_err: "Walk root (add_visit opts) acc s \<noteq> (Err x, out')" for root acc x out'
    using walk_no_err[of "add_visit opts" "walk_calls root s" acc] add_visit_no_err by (auto simp: Walk_def)
  have keep: "add_disk_images opts imgs e acc s = Ok out \<Longrightarrow> set acc \<subseteq> set out" for imgs e acc
  proof (induction imgs arbitrary: e acc)
    case (Cons a imgs)
    then show ?case using step no_err by (fastforce simp: Let_def split: prod.splits outcome.splits)
  qed (auto split: option.splits)
  from assms(1,2) show ?thesis
  proof (induction imgs arbitrary: e acc)
    case (Cons a imgs)
    let ?root = "Replace1 (im_Name a) ''dir://'' []"
    from Cons.prems(1) no_err obtain o' out' where w: "Walk ?root (add_visit opts) acc s = (Ok o', out')"
      and rest: "add_disk_images opts imgs None out' s = Ok out"
      by (auto simp: Let_def split: prod.splits outcome.splits)
    show ?case
    proof (cases "img = a")
      case True
      with step[OF w] assms(3,4) have "\<exists>x \<in> set out'. add_emit opts p = Ok x" by auto
      with keep[OF rest] show ?thesis by blast
    qed (use Cons.prems(2) Cons.IH[OF rest] in auto)
  qed simp
qed

section \<open>Properties\<close>

lemma AdditionalImagesCollector_caches_parts:
  assumes "co_Mode opts = mirrorToDisk" and "AdditionalImagesCollector opts config s = (Ok out, s')" and "out \<noteq> []"
  shows "distinct (map ci_Destination out)"
    and "\<And>c. c \<in> set out \<Longrightarrow> \<exists>img irs. img \<in> set (cfg_AdditionalImages config) \<and> add_customImageParser (im_Name img) = Ok irs \<and>
           c = add_schema opts (add_cache_dir opts irs) img \<and> absent (add_cache_dir opts irs) s \<and> \<not> absent (add_cache_dir opts irs) s'"
    and "\<And>img irs. img \<in> set (cfg_AdditionalImages config) \<Longrightarrow> add_customImageParser (im_Name img) = Ok irs \<Longrightarrow>
           absent (add_cache_dir opts irs) s \<Longrightarrow>
           \<exists>c \<in> set out. \<exists>d. ci_Destination c = Split (co_Destination opts) ''://'' ! 0 @ '':'' @ d \<and> prefix (path_of (add_cache_dir opts irs)) (path_of d)"
    and "AdditionalImagesCollector opts config s' = (Ok [], s')"
proof -
  obtain ys where ys: "collect_new absent MkdirAll (add_key opts) (cfg_AdditionalImages config) s = (Ok ys, s')"
    and out: "out = map (\<lambda>(k, i). add_schema opts k i) ys" by (rule add_collected[OF assms])
  have "map ci_Destination out = map (\<lambda>k. Split (co_Destination opts) ''://'' ! 0 @ '':'' @ k) (map fst ys)"
    by (auto simp: out add_schema_def)
  then show "distinct (map ci_Destination out)"
    using fsc.collect_distinct[OF ys] by (simp add: distinct_map inj_on_def)
  show "\<exists>img irs. img \<in> set (cfg_AdditionalImages config) \<and> add_customImageParser (im_Name img) = Ok irs \<and>
      c = add_schema opts (add_cache_dir opts irs) img \<and> absent (add_cache_dir opts irs) s \<and> \<not> absent (add_cache_dir opts irs) s'"
    if "c \<in> set out" for c
    using that fsc.collect_emitted[OF ys] by (fastforce simp: out add_key_def ok_map_eq_Ok)
  show "\<exists>c \<in> set out. \<exists>d. ci_Destination c = Split (co_Destination opts) ''://'' ! 0 @ '':'' @ d \<and> prefix (path_of (add_cache_dir opts irs)) (path_of d)"
    if "img \<in> set (cfg_AdditionalImages config)" "add_customImageParser (im_Name img) = Ok irs" "absent (add_cache_dir opts irs) s" for img irs
  proof -
    have "add_key opts img = Ok (add_cache_dir opts irs)" using that(2) by (simp add: add_key_def)
    from fsc.collect_covered[OF ys that(1) this that(3)] obtain k i where "(k, i) \<in> set ys" "path_covers k (add_cache_dir opts irs)" by auto
    then show ?thesis by (force simp: out add_schema_def path_covers_def)
  qed
  show "AdditionalImagesCollector opts config s' = (Ok [], s')" by (rule add_collector_again[OF assms(1) ys])
qed

text \<open>C33: a run in mirrorToDisk mode that returns images: the destinations are distinct, every image
  returned is an image of the configuration whose cache directory was absent before and exists
  afterwards, every image of the configuration with an absent cache directory shares it (or has it as
  a parent) with an image returned, and a second run returns nothing and changes nothing.\<close>

theorem AdditionalImagesCollector_caches:
  assumes "co_Mode opts = mirrorToDisk" and "AdditionalImagesCollector opts config s = (Ok out, s')" and "out \<noteq> []"
  shows "distinct (map ci_Destination out) \<and>
    (\<forall>c \<in> set out. \<exists>img irs. img \<in> set (cfg_AdditionalImages config) \<and> add_customImageParser (im_Name img) = Ok irs \<and>
       c = add_schema opts (add_cache_dir opts irs) img \<and> absent (add_cache_dir opts irs) s \<and> \<not> absent (add_cache_dir opts irs) s') \<and>
    (\<forall>img \<in> set (cfg_AdditionalImages config). \<forall>irs. add_customImageParser (im_Name img) = Ok irs \<longrightarrow> absent (add_cache_dir opts irs) s \<longrightarrow>
       (\<exists>c \<in> set out. \<exists>d. ci_Destination c = Split (co_Destination opts) ''://'' ! 0 @ '':'' @ d \<and> prefix (path_of (add_cache_dir opts irs)) (path_of d))) \<and>
    AdditionalImagesCollector opts config s' = (Ok [], s')"
  by (intro conjI ballI allI impI) (rule AdditionalImagesCollector_caches_parts[OF assms]; assumption)+

text \<open>C15: what mirrorToDisk stores for registry/namespace/component is found again by diskToMirror and
  pushed to namespace/component under the destination, from the directory mirrorToDisk chose: for
  an index.json in that directory that the walk of the configured directory reaches.\<close>

theorem AdditionalImagesCollector_roundtrip:
  assumes "add_customImageParser ref = Ok irs" and "cacheDir = add_cache_dir opts irs"
    and "path_str (path_of cacheDir) = cacheDir" and "path_of cacheDir \<noteq> [''/'']"
    and "\<not> Contains (gl_Dir (co_Global opts)) additionalImagesDir"
    and "\<not> Contains (ir_Namespace irs) additionalImagesDir" and "\<not> Contains (ir_Component irs) additionalImagesDir"
    and "co_Mode opts' = diskToMirror" and "AdditionalImagesCollector opts' config s = (Ok out, s')"
    and "img \<in> set (cfg_AdditionalImages config)"
    and "path_of cacheDir @ [''index.json''] \<in> set (walk_found (Replace1 (im_Name img) ''dir://'' []) s)"
  shows "\<lparr>ci_Source = ''oci:'' @ cacheDir,
          ci_Destination = co_Destination opts' @ ''/'' @ ir_Namespace irs @ ''/'' @ ir_Component irs\<rparr> \<in> set out"
proof -
  let ?p = "path_of cacheDir @ [''index.json'']"
  have out: "add_disk_images opts' (cfg_AdditionalImages config) None [] s = Ok out"
    using assms(8,9) by (auto simp: AdditionalImagesCollector_def go_bind_def go_return_def)
  have "name_matches ''index'' (base_of ?p)" by (simp add: base_of_def) code_simp
  from add_disk_images_found[OF out assms(10,11) this] obtain x where x: "x \<in> set out" "add_emit opts' ?p = Ok x" by blast
  have dir: "dir_of ?p = cacheDir" using assms(3) by (simp add: dir_of_def)
  have n: "CHR ''/'' \<notin> set additionalImagesDir" "additionalImagesDir \<noteq> []" "\<not> Contains [] additionalImagesDir"
    by (simp_all add: additionalImagesDir_def Contains_iff)
  have "\<not> Contains ([] @ CHR ''/'' # ir_Namespace irs @ CHR ''/'' # ir_Component irs) additionalImagesDir"
    by (intro Contains_no_cross n assms(6,7))
  from Split_after_slash[OF n(1,2) assms(5) this[simplified]]
  have "Split cacheDir additionalImagesDir = [gl_Dir (co_Global opts) @ ''/'', ''/'' @ ir_Namespace irs @ ''/'' @ ir_Component irs]"
    by (simp add: assms(2) add_cache_dir_def)
  with x(2) dir have "x = \<lparr>ci_Source = ''oci:'' @ cacheDir,
      ci_Destination = co_Destination opts' @ ''/'' @ ir_Namespace irs @ ''/'' @ ir_Component irs\<rparr>"
    by (simp add: add_emit_def Let_def ociProtocolTrimmed_def)
  with x(1) show ?thesis by simp
qed
section \<open>Witnesses\<close>

definition demo_images :: "string list \<Rightarrow> ImageSetConfiguration" where
  "demo_images names =
     zero_config\<lparr>isc_Spec := (isc_Spec zero_config)\<lparr>sp_Mirror := (cfg_Mirror zero_config)\<lparr>mi_AdditionalImages := map (\<lambda>n. \<lparr>im_Name = n\<rparr>) names\<rparr>\<rparr>\<rparr>"

definition demo_m2d :: CopyOptions where
  "demo_m2d = demo_opts\<lparr>co_Global := demo_global\<lparr>gl_Dir := ''work''\<rparr>\<rparr>"

definition demo_d2m :: CopyOptions where
  "demo_d2m = demo_opts\<lparr>co_Mode := diskToMirror, co_Destination := ''docker://reg''\<rparr>"

definition demo_disk :: fs where
  "demo_disk =
     \<lparr>fs_nodes = [([''work''], Dir), ([''work'', ''additional-images''], Dir), ([''work'', ''additional-images'', ''ns''], Dir),
                  ([''work'', ''additional-images'', ''ns'', ''app''], Dir),
                  ([''work'', ''additional-images'', ''ns'', ''app'', ''index.json''], File [])],
      fs_fault = (\<lambda>_ _. None)\<rparr>"

lemma demo_collect:
  "fst (AdditionalImagesCollector demo_m2d (demo_images [''quay.io/ns/app:v1'']) empty_fs) =
   Ok [\<lparr>ci_Source = ''docker://quay.io/ns/app:v1'', ci_Destination = ''oci:work/additional-images/ns/app''\<rparr>]"
  by code_simp

theorem AdditionalImagesCollector_caches_witness:
  "AdditionalImagesCollector demo_m2d (demo_images [''quay.io/ns/app:v1''])
     (snd (AdditionalImagesCollector demo_m2d (demo_images [''quay.io/ns/app:v1'']) empty_fs)) =
   (Ok [], snd (AdditionalImagesCollector demo_m2d (demo_images [''quay.io/ns/app:v1'']) empty_fs))"
proof (rule AdditionalImagesCollector_caches[THEN conjunct2, THEN conjunct2, THEN conjunct2])
  show "co_Mode demo_m2d = mirrorToDisk" by code_simp
  show "AdditionalImagesCollector demo_m2d (demo_images [''quay.io/ns/app:v1'']) empty_fs =
    (Ok [\<lparr>ci_Source = ''docker://quay.io/ns/app:v1'', ci_Destination = ''oci:work/additional-images/ns/app''\<rparr>],
     snd (AdditionalImagesCollector demo_m2d (demo_images [''quay.io/ns/app:v1'']) empty_fs))"
    using demo_collect by (metis prod.collapse)
qed simp

theorem AdditionalImagesCollector_roundtrip_witness:
  "\<exists>out. AdditionalImagesCollector demo_d2m (demo_images [''dir://work'']) demo_disk = (Ok out, demo_disk) \<and>
     \<lparr>ci_Source = ''oci:work/additional-images/ns/app'', ci_Destination = ''docker://reg/ns/app''\<rparr> \<in> set out"
proof -
  let ?irs = "\<lparr>ir_Repository = ''quay.io'', ir_Namespace = ''ns'', ir_Component = ''app''\<rparr>"
  have out: "AdditionalImagesCollector demo_d2m (demo_images [''dir://work'']) demo_disk =
      (Ok [\<lparr>ci_Source = ''oci:work/additional-images/ns/app'', ci_Destination = ''docker://reg/ns/app''\<rparr>], demo_disk)"
  proof (rule prod_eqI)
    show "fst (AdditionalImagesCollector demo_d2m (demo_images [''dir://work'']) demo_disk) =
      fst (Ok [\<lparr>ci_Source = ''oci:work/additional-images/ns/app'', ci_Destination = ''docker://reg/ns/app''\<rparr>], demo_disk)" by code_simp
  qed (simp add: AdditionalImagesCollector_def go_bind_def go_return_def demo_d2m_def)
  have "\<lparr>ci_Source = ''oci:'' @ ''work/additional-images/ns/app'',
      ci_Destination = co_Destination demo_d2m @ ''/'' @ ir_Namespace ?irs @ ''/'' @ ir_Component ?irs\<rparr>
    \<in> set [\<lparr>ci_Source = ''oci:work/additional-images/ns/app'', ci_Destination = ''docker://reg/ns/app''\<rparr>]"
    by (rule AdditionalImagesCollector_roundtrip[where ref = "''quay.io/ns/app:v1''" and irs = ?irs and opts = demo_m2d and
        img = "\<lparr>im_Name = ''dir://work''\<rparr>", OF _ _ _ _ _ _ _ _ out])
       code_simp+
  then show ?thesis using out by auto
qed

end
