(* ===== verification/Release_Collector.thy ===== *)
theory Release_Collector
  imports Collector_Common
begin

text \<open>
  The release images: \<open>pkg/release/collector.go\<close>.

  \<open>ReleaseImageCollector\<close> has the two modes of the method.  In mirrorToDisk mode every release
  the Cincinnati service names is copied once, its layers are extracted, and the images of its
  payload that are not cached yet are returned (\<open>batcWorkerConverter\<close>); the service is the argument
  \<open>getReleases\<close> (the interface \<open>CincinnatiInterface\<close>, provided by theory \<open>Release\<close>).  In
  diskToMirror mode the layout on disk is walked and every image directory is matched with the image of
  the payload that has its name.  Reading the log file back for the debug output is not modelled.
\<close>

section \<open>Converting the images of a payload\<close>

definition rel_errMsg :: "error \<Rightarrow> error" where
  "rel_errMsg e = Errorf ''[ReleaseImageCollector] %v '' [] [e]"

definition releaseManifests :: string where "releaseManifests = ''release-manifests''"
definition imageReferences :: string where "imageReferences = ''image-references''"
definition releaseImageExtractFullPath :: string where
  "releaseImageExtractFullPath = releaseManifests @ ''/'' @ imageReferences"
definition rel_logFile :: string where "rel_logFile = ''logs/release.log''"

definition rel_schema :: "string \<Rightarrow> RelatedImage \<Rightarrow> CopyImageSchema" where
  "rel_schema dir img =
     \<lparr>ci_Source = dockerProtocol @ ri_Image img,
      ci_Destination = dirProtocolTrimmed @ Join [dir, ''images'', ri_Name img] ''/''\<rparr>"

fun batcWorkerConverter :: "string \<Rightarrow> RelatedImage list \<Rightarrow> CopyImageSchema list \<Rightarrow> (fs, CopyImageSchema list) go" where
  "batcWorkerConverter dir [] result = go_return result"
| "batcWorkerConverter dir (img # images) result = (\<lambda>s.
     if absent (dir @ ''/images/'' @ ri_Name img) s then
       go_bind (MkdirAll (dir @ ''/images/'' @ ri_Name img)) (\<lambda>_.
         batcWorkerConverter dir images (result @ [rel_schema dir img])) s
     else batcWorkerConverter dir images result s)"

fun findRelatedImage :: "string \<Rightarrow> RelatedImage list \<Rightarrow> string" where
  "findRelatedImage name [] = []"
| "findRelatedImage name (img # imgs) =
     (if name = ri_Name img then Join (tl (Split (ri_Image img) ''/'')) ''/'' else findRelatedImage name imgs)"

section \<open>mirrorToDisk\<close>

text \<open>The copy of a release image and the images of its payload.\<close>

definition copy_release :: "'w imglib \<Rightarrow> CopyOptions \<Rightarrow> string \<Rightarrow> string \<Rightarrow> ('w machine, unit) go" where
  "copy_release lib opts dir source = (\<lambda>m.
     if absent dir (mc_fs m) then
       go_bind (go_map_err rel_errMsg (on_fs (MkdirAll dir))) (\<lambda>_.
         go_map_err rel_errMsg (Mirror_Run lib (dockerProtocol @ source) (ociProtocolTrimmed @ dir) ''copy'' opts)) m
     else go_return () m)"

definition release_payload :: "codecs \<Rightarrow> string \<Rightarrow> string \<Rightarrow> (fs, RelatedImage list) go" where
  "release_payload cd dir cacheDir =
     go_bind (\<lambda>s. (GetImageIndex cd dir s, s)) (\<lambda>idx.
       case idx of
         None \<Rightarrow> go_panic nil_deref
       | Some oci \<Rightarrow>
           if length (oci_Manifests oci) = 0 then go_fail (errorf ''image index not found '' [])
           else
             go_bind (go_lift (go_index (Split (om_Digest (oci_Manifests oci ! 0)) '':'') 1)) (\<lambda>manifest.
             go_bind (\<lambda>s. (GetImageManifest cd (Join [dir, blobsDir, manifest] ''/'') s, s)) (\<lambda>mfst.
             go_bind (ExtractLayersOCI cd (Join [dir, blobsDir] ''/'') cacheDir releaseManifests mfst) (\<lambda>_.
               \<lambda>s. (GetReleaseSchema cd (Join [cacheDir, releaseImageExtractFullPath] ''/'') s, s)))))"

definition collect_release :: "'w imglib \<Rightarrow> codecs \<Rightarrow> CopyOptions \<Rightarrow> CopyImageSchema \<Rightarrow> ('w machine, CopyImageSchema list) go" where
  "collect_release lib cd opts value =
     go_bind (go_lift (image_index_dir (ci_Source value))) (\<lambda>imageIndexDir.
       let cacheDir = Join [gl_Dir (co_Global opts), releaseImageExtractDir, imageIndexDir] ''/'';
           dir = Join [gl_Dir (co_Global opts), releaseImageDir, imageIndexDir] ''/''
       in go_bind (copy_release lib opts dir (ci_Source value)) (\<lambda>_.
          go_bind (go_map_err rel_errMsg (on_fs (release_payload cd dir cacheDir))) (\<lambda>allRelatedImages.
            go_map_err rel_errMsg (on_fs (batcWorkerConverter dir allRelatedImages [])))))"

fun collect_releases ::
  "'w imglib \<Rightarrow> codecs \<Rightarrow> CopyOptions \<Rightarrow> CopyImageSchema list \<Rightarrow> CopyImageSchema list \<Rightarrow> ('w machine, CopyImageSchema list) go" where
  "collect_releases lib cd opts [] allImages = go_return allImages"
| "collect_releases lib cd opts (value # releases) allImages =
     go_bind (collect_release lib cd opts value) (\<lambda>tmpImages.
       collect_releases lib cd opts releases (allImages @ tmpImages))"

section \<open>diskToMirror\<close>

definition rel_visit :: "CopyOptions \<Rightarrow> RelatedImage list \<Rightarrow> path \<Rightarrow> error option \<Rightarrow> CopyImageSchema list \<Rightarrow> CopyImageSchema list outcome" where
  "rel_visit opts allRelatedImages p err allImages =
     (case err of
        Some e \<Rightarrow> Err e
      | None \<Rightarrow>
          if name_matches ''manifest'' (base_of p) then
            (let component = Split (dir_of p) ''/'';
                 img = findRelatedImage (component ! (length component - 1)) allRelatedImages
             in if length img > 0
                then Ok (allImages @ [\<lparr>ci_Source = dirProtocolTrimmed @ dir_of p, ci_Destination = co_Destination opts @ ''/'' @ img\<rparr>])
                else Ok allImages)
          else Ok allImages)"

text \<open>When the walk fails, the method returns the error of compiling the regular expression, which is
  nil: an empty list and no error.\<close>

definition disk_releases :: "codecs \<Rightarrow> CopyOptions \<Rightarrow> string \<Rightarrow> CopyImageSchema list \<Rightarrow> fs \<Rightarrow> CopyImageSchema list outcome" where
  "disk_releases cd opts release allImages s =
     (let str = Replace1 (Replace1 release ''release-images'' ''hold-release'') ''dir://'' []
      in ok_bind (map_err rel_errMsg (GetReleaseSchema cd (str @ ''/'' @ releaseImageExtractFullPath) s)) (\<lambda>allRelatedImages.
        let imagesDir = Replace1 release ''dir://'' [] @ ''/images''
        in case Walk imagesDir (rel_visit opts allRelatedImages) allImages s of
             (Ok _, imgs) \<Rightarrow> Ok imgs
           | (Err _, _) \<Rightarrow> Ok []
           | (Panic p, _) \<Rightarrow> Panic p))"

section \<open>The collector\<close>

definition ReleaseImageCollector ::
  "'w imglib \<Rightarrow> codecs \<Rightarrow> ('w machine, CopyImageSchema list) go \<Rightarrow> CopyOptions \<Rightarrow> ImageSetConfiguration \<Rightarrow>
   ('w machine, CopyImageSchema list) go" where
  "ReleaseImageCollector lib cd getReleases opts config =
     go_bind
       (if co_Mode opts = mirrorToDisk then
          go_bind getReleases (\<lambda>releases.
          go_try (on_fs (Create rel_logFile)) (\<lambda>_.
            collect_releases lib cd opts releases []))
        else go_return []) (\<lambda>allImages.
       if co_Mode opts = diskToMirror
       then ask_fs (disk_releases cd opts (pf_Release (cfg_Platform config)) allImages)
       else go_return allImages)"

section \<open>Laws of the converter\<close>

definition rel_key :: "string \<Rightarrow> RelatedImage \<Rightarrow> string outcome" where
  "rel_key dir img = Ok (dir @ ''/images/'' @ ri_Name img)"

lemma batcWorkerConverter_collect:
  "batcWorkerConverter dir images acc s =
     (case collect_new absent MkdirAll (rel_key dir) images s of
        (q, t) \<Rightarrow> (ok_map (\<lambda>ys. acc @ map (rel_schema dir \<circ> snd) ys) q, t))"
proof (induction images arbitrary: acc s)
  case (Cons img images)
  let ?d = "dir @ ''/images/'' @ ri_Name img"
  show ?case
  proof (cases "absent ?d s")
    case True
    obtain m u where m: "MkdirAll ?d s = (m, u)" by fastforce
    obtain q t where "collect_new absent MkdirAll (rel_key dir) images u = (q, t)" by fastforce
    with True m Cons show ?thesis
      by (cases m; cases q) (simp_all add: rel_key_def[of dir img] go_bind_def go_lift_def go_return_def)
  qed (use Cons in \<open>simp add: rel_key_def[of dir img] go_bind_def go_lift_def\<close>)
qed (simp add: go_return_def)

lemma batcWorkerConverter_Ok:
  assumes "batcWorkerConverter dir images [] s = (Ok out, s')"
  obtains ys where "collect_new absent MkdirAll (rel_key dir) images s = (Ok ys, s')" and "out = map (rel_schema dir \<circ> snd) ys"
proof -
  obtain q t where q: "collect_new absent MkdirAll (rel_key dir) images s = (q, t)" by fastforce
  with assms have "ok_map (\<lambda>ys. map (rel_schema dir \<circ> snd) ys) q = Ok out" "t = s'" by (simp_all add: batcWorkerConverter_collect)
  with q that show thesis by (auto simp: ok_map_eq_Ok)
qed

section \<open>Laws of the walk\<close>

text \<open>The image of a found index file, if the payload has one of its name.\<close>

definition rel_found :: "CopyOptions \<Rightarrow> RelatedImage list \<Rightarrow> path \<Rightarrow> CopyImageSchema list" where
  "rel_found opts imgs p =
     (let img = findRelatedImage (last (Split (dir_of p) ''/'')) imgs in
      if name_matches ''manifest'' (base_of p) \<and> img \<noteq> []
      then [\<lparr>ci_Source = dirProtocolTrimmed @ dir_of p, ci_Destination = co_Destination opts @ ''/'' @ img\<rparr>] else [])"

lemma rel_visit_None: "rel_visit opts imgs p None acc = Ok (acc @ rel_found opts imgs p)"
  by (simp add: rel_visit_def rel_found_def Let_def last_conv_nth)

lemma rel_visit_Some: "rel_visit opts imgs p (Some e) acc = Err e"
  by (simp add: rel_visit_def)

lemma walk_rel_visit:
  "fst (walk_with (rel_visit opts imgs) calls acc) =
     (case filter (\<lambda>(_, e). e \<noteq> None) calls of
        [] \<Rightarrow> Ok (acc @ concat (map (rel_found opts imgs \<circ> fst) calls))
      | (_, e) # _ \<Rightarrow> Err (the e))"
proof (induction calls arbitrary: acc)
  case (Cons c calls)
  obtain p e where c: "c = (p, e)" by fastforce
  then show ?case by (cases e) (auto simp: rel_visit_None rel_visit_Some Cons.IH comp_def split: list.splits)
qed simp

lemma findRelatedImage_Some:
  "findRelatedImage name imgs =
     (case find (\<lambda>i. ri_Name i = name) imgs of None \<Rightarrow> [] | Some i \<Rightarrow> Join (tl (Split (ri_Image i) ''/'')) ''/'')"
  by (induction imgs) auto

section \<open>Properties\<close>

lemma batcWorkerConverter_caches_parts:
  assumes "batcWorkerConverter dir images [] s = (Ok out, s')"
  shows "distinct (map ci_Destination out)"
    and "\<And>c. c \<in> set out \<Longrightarrow> \<exists>img \<in> set images. c = rel_schema dir img \<and>
           absent (dir @ ''/images/'' @ ri_Name img) s \<and> \<not> absent (dir @ ''/images/'' @ ri_Name img) s'"
    and "\<And>img. img \<in> set images \<Longrightarrow> absent (dir @ ''/images/'' @ ri_Name img) s \<Longrightarrow>
           \<exists>other \<in> set images. rel_schema dir other \<in> set out \<and>
             prefix (path_of (dir @ ''/images/'' @ ri_Name img)) (path_of (dir @ ''/images/'' @ ri_Name other))"
    and "batcWorkerConverter dir images [] s' = (Ok [], s')"
proof -
  obtain ys where ys: "collect_new absent MkdirAll (rel_key dir) images s = (Ok ys, s')" and out: "out = map (rel_schema dir \<circ> snd) ys"
    by (rule batcWorkerConverter_Ok[OF assms])
  have key: "x \<in> set images \<and> k = dir @ ''/images/'' @ ri_Name x \<and> absent k s \<and> \<not> absent k s'" if "(k, x) \<in> set ys" for k x
    using fsc.collect_emitted[OF ys that] by (simp add: rel_key_def)
  have "map ci_Destination out = map (\<lambda>k. dirProtocolTrimmed @ k) (map fst ys)"
    using key by (auto simp: out rel_schema_def)
  then show "distinct (map ci_Destination out)"
    using fsc.collect_distinct[OF ys] by (simp add: distinct_map inj_on_def)
  show "\<exists>img \<in> set images. c = rel_schema dir img \<and>
      absent (dir @ ''/images/'' @ ri_Name img) s \<and> \<not> absent (dir @ ''/images/'' @ ri_Name img) s'" if "c \<in> set out" for c
    using that key by (fastforce simp: out)
  show "\<exists>other \<in> set images. rel_schema dir other \<in> set out \<and>
      prefix (path_of (dir @ ''/images/'' @ ri_Name img)) (path_of (dir @ ''/images/'' @ ri_Name other))"
    if "img \<in> set images" "absent (dir @ ''/images/'' @ ri_Name img) s" for img
    using fsc.collect_covered[OF ys that(1) rel_key_def that(2)] key by (force simp: out path_covers_def)
  show "batcWorkerConverter dir images [] s' = (Ok [], s')"
    using fsc.collect_again[OF ys] by (simp add: batcWorkerConverter_collect)
qed

text \<open>C34: the converter of a release payload: the destinations it returns are distinct, every
  image returned is one of the payload whose directory was absent before and exists afterwards,
  every image of the payload with an absent directory has its directory created for an image
  returned, and a second run returns nothing and changes nothing.\<close>

theorem batcWorkerConverter_caches:
  assumes "batcWorkerConverter dir images [] s = (Ok out, s')"
  shows "distinct (map ci_Destination out) \<and>
    (\<forall>c \<in> set out. \<exists>img \<in> set images. c = rel_schema dir img \<and>
       absent (dir @ ''/images/'' @ ri_Name img) s \<and> \<not> absent (dir @ ''/images/'' @ ri_Name img) s') \<and>
    (\<forall>img \<in> set images. absent (dir @ ''/images/'' @ ri_Name img) s \<longrightarrow>
       (\<exists>other \<in> set images. rel_schema dir other \<in> set out \<and>
         prefix (path_of (dir @ ''/images/'' @ ri_Name img)) (path_of (dir @ ''/images/'' @ ri_Name other)))) \<and>
    batcWorkerConverter dir images [] s' = (Ok [], s')"
  by (intro conjI ballI allI impI) (rule batcWorkerConverter_caches_parts[OF assms]; assumption)+

lemma ReleaseImageCollector_disk_parts:
  assumes "co_Mode opts = diskToMirror"
    and "GetReleaseSchema cd (Replace1 (Replace1 (pf_Release (cfg_Platform config)) ''release-images'' ''hold-release'') ''dir://'' []
           @ ''/'' @ releaseImageExtractFullPath) (mc_fs m) = Ok imgs"
    and "calls = walk_calls (Replace1 (pf_Release (cfg_Platform config)) ''dir://'' [] @ ''/images'') (mc_fs m)"
  shows "list_all (\<lambda>(_, e). e = None) calls \<Longrightarrow>
      ReleaseImageCollector lib cd getReleases opts config m = (Ok (concat (map (rel_found opts imgs \<circ> fst) calls)), m)"
    and "\<not> list_all (\<lambda>(_, e). e = None) calls \<Longrightarrow> ReleaseImageCollector lib cd getReleases opts config m = (Ok [], m)"
proof -
  let ?w = "walk_with (rel_visit opts imgs) calls []"
  have r: "ReleaseImageCollector lib cd getReleases opts config m =
      ((case ?w of (Ok _, is) \<Rightarrow> Ok is | (Err _, _) \<Rightarrow> Ok [] | (Panic p, _) \<Rightarrow> Panic p), m)"
    using assms by (simp add: ReleaseImageCollector_def disk_releases_def ask_fs_def Walk_def Let_def go_bind_def go_return_def)
  show "ReleaseImageCollector lib cd getReleases opts config m = (Ok (concat (map (rel_found opts imgs \<circ> fst) calls)), m)"
    if "list_all (\<lambda>(_, e). e = None) calls"
  proof -
    from that have "filter (\<lambda>(_, e). e \<noteq> None) calls = []" by (auto simp: filter_empty_conv list_all_iff)
    then have "fst ?w = Ok (concat (map (rel_found opts imgs \<circ> fst) calls))" by (simp add: walk_rel_visit)
    from walk_with_Ok_acc[OF this] r show ?thesis by simp
  qed
  show "ReleaseImageCollector lib cd getReleases opts config m = (Ok [], m)" if "\<not> list_all (\<lambda>(_, e). e = None) calls"
  proof -
    from that obtain x xs where "filter (\<lambda>(_, e). e \<noteq> None) calls = x # xs"
      by (cases "filter (\<lambda>(_, e). e \<noteq> None) calls") (auto simp: filter_empty_conv list_all_iff)
    then have "\<exists>e. fst ?w = Err e" by (auto simp: walk_rel_visit split: prod.splits)
    with r show ?thesis by (cases ?w) auto
  qed
qed
section \<open>Witnesses\<close>

text \<open>C35: in diskToMirror mode with a readable release payload the collector changes nothing; if the
  walk of the image directory meets no error it returns exactly the index files found, in the order of the
  walk, whose directory name is the name of an image of the payload, each with that image's path as
  destination; if the walk meets an error, the error is lost and the collector returns an empty
  list.\<close>

theorem ReleaseImageCollector_disk:
  assumes "co_Mode opts = diskToMirror"
    and "GetReleaseSchema cd (Replace1 (Replace1 (pf_Release (cfg_Platform config)) ''release-images'' ''hold-release'') ''dir://'' []
           @ ''/'' @ releaseImageExtractFullPath) (mc_fs m) = Ok imgs"
    and "calls = walk_calls (Replace1 (pf_Release (cfg_Platform config)) ''dir://'' [] @ ''/images'') (mc_fs m)"
  shows "ReleaseImageCollector lib cd getReleases opts config m =
    (if list_all (\<lambda>(_, e). e = None) calls then Ok (concat (map (rel_found opts imgs \<circ> fst) calls)) else Ok [], m)"
  using ReleaseImageCollector_disk_parts[OF assms, of lib getReleases] by simp

definition demo_payload :: "RelatedImage list" where
  "demo_payload = [\<lparr>ri_Name = ''cli'', ri_Image = ''quay.io/ocp/release@sha256:11''\<rparr>, \<lparr>ri_Name = ''etcd'', ri_Image = ''quay.io/ocp/release@sha256:22''\<rparr>]"

theorem batcWorkerConverter_caches_witness:
  "batcWorkerConverter ''d'' demo_payload [] (snd (batcWorkerConverter ''d'' demo_payload [] empty_fs)) =
   (Ok [], snd (batcWorkerConverter ''d'' demo_payload [] empty_fs))"
proof (rule batcWorkerConverter_caches[THEN conjunct2, THEN conjunct2, THEN conjunct2])
  have "fst (batcWorkerConverter ''d'' demo_payload [] empty_fs) = Ok (map (rel_schema ''d'') demo_payload)" by code_simp
  then show "batcWorkerConverter ''d'' demo_payload [] empty_fs =
      (Ok (map (rel_schema ''d'') demo_payload), snd (batcWorkerConverter ''d'' demo_payload [] empty_fs))"
    by (metis prod.collapse)
qed

definition demo_release_config :: ImageSetConfiguration where
  "demo_release_config = set_Platform (\<lambda>p. p\<lparr>pf_Release := ''dir://release-images/ocp/4.13''\<rparr>) zero_config"

definition demo_release_disk :: "unit machine" where
  "demo_release_disk =
     \<lparr>mc_fs = \<lparr>fs_nodes =
        [([''hold-release'', ''ocp'', ''4.13'', ''release-manifests'', ''image-references''], File []),
         ([''release-images'', ''ocp'', ''4.13'', ''images''], Dir),
         ([''release-images'', ''ocp'', ''4.13'', ''images'', ''cli''], Dir),
         ([''release-images'', ''ocp'', ''4.13'', ''images'', ''cli'', ''manifest.json''], File [])],
        fs_fault = (\<lambda>_ _. None)\<rparr>, mc_world = ()\<rparr>"

theorem ReleaseImageCollector_disk_witness:
  "ReleaseImageCollector demo_lib demo_codecs (go_return []) (demo_opts\<lparr>co_Mode := diskToMirror, co_Destination := ''docker://reg''\<rparr>)
     demo_release_config demo_release_disk =
   (Ok [\<lparr>ci_Source = ''dir:release-images/ocp/4.13/images/cli'', ci_Destination = ''docker://reg/ocp/release@sha256:11''\<rparr>], demo_release_disk)"
proof -
  let ?opts = "demo_opts\<lparr>co_Mode := diskToMirror, co_Destination := ''docker://reg''\<rparr>"
  let ?calls = "walk_calls (Replace1 (pf_Release (cfg_Platform demo_release_config)) ''dir://'' [] @ ''/images'') (mc_fs demo_release_disk)"
  have schema: "GetReleaseSchema demo_codecs
      (Replace1 (Replace1 (pf_Release (cfg_Platform demo_release_config)) ''release-images'' ''hold-release'') ''dir://'' []
        @ ''/'' @ releaseImageExtractFullPath) (mc_fs demo_release_disk) =
      Ok [\<lparr>ri_Name = ''cli'', ri_Image = ''quay.io/ocp/release@sha256:11''\<rparr>]" by code_simp
  have none: "list_all (\<lambda>(_, e). e = None) ?calls" by code_simp
  have mode: "co_Mode ?opts = diskToMirror" by simp
  have "concat (map (rel_found ?opts [\<lparr>ri_Name = ''cli'', ri_Image = ''quay.io/ocp/release@sha256:11''\<rparr>] \<circ> fst) ?calls) =
      [\<lparr>ci_Source = ''dir:release-images/ocp/4.13/images/cli'', ci_Destination = ''docker://reg/ocp/release@sha256:11''\<rparr>]" by code_simp
  with ReleaseImageCollector_disk[OF mode schema refl, of demo_lib "go_return []"] none show ?thesis by simp
qed


section \<open>From disk to mirror\<close>

lemma findRelatedImage_distinct:
  "distinct (map ri_Name imgs) \<Longrightarrow> img \<in> set imgs \<Longrightarrow> findRelatedImage (ri_Name img) imgs = Join (tl (Split (ri_Image img) ''/'')) ''/''"
  by (induction imgs) (auto simp: image_iff)

text \<open>C16: what mirrorToDisk stores for an image of a release payload is found again by diskToMirror: for an
  image the converter returned, once the copy has left a manifest.json in its destination directory and
  the walk of the release directory reaches it without an error, the collector returns an image
  whose source is the destination the converter chose, and whose destination is the path of the
  original reference, without its registry, under the destination of the command.\<close>

theorem ReleaseImageCollector_roundtrip:
  assumes "batcWorkerConverter dir images [] s = (Ok out, s')" and "c \<in> set out" and "ci_Destination c = ''dir:'' @ d"
    and "distinct (map ri_Name images)"
    and "list_all (\<lambda>i. name_ok (ri_Name i) \<and> Join (tl (Split (ri_Image i) ''/'')) ''/'' \<noteq> []) images"
    and "path_str (path_of dir) = dir" and "path_of dir \<noteq> []" and "path_of dir \<noteq> [''/'']"
    and "co_Mode opts = diskToMirror" and "pf_Release (cfg_Platform config) = ''dir://'' @ dir"
    and "GetReleaseSchema cd (Replace1 (Replace1 (''dir://'' @ dir) ''release-images'' ''hold-release'') ''dir://'' []
           @ ''/'' @ releaseImageExtractFullPath) (mc_fs m) = Ok images"
    and "list_all (\<lambda>(_, e). e = None) (walk_calls (dir @ ''/images'') (mc_fs m))"
    and "path_of d @ [''manifest.json''] \<in> set (walk_found (dir @ ''/images'') (mc_fs m))"
  shows "\<exists>out' img. ReleaseImageCollector lib cd getReleases opts config m = (Ok out', m) \<and> img \<in> set images \<and>
    ci_Source c = ''docker://'' @ ri_Image img \<and>
    \<lparr>ci_Source = ci_Destination c, ci_Destination = co_Destination opts @ ''/'' @ Join (tl (Split (ri_Image img) ''/'')) ''/''\<rparr> \<in> set out'"
proof -
  obtain img where img: "img \<in> set images" and c: "c = rel_schema dir img"
    using batcWorkerConverter_caches_parts(2)[OF assms(1,2)] by blast
  have d: "d = (dir @ ''/images'') @ ''/'' @ ri_Name img" using assms(3) c by (simp add: rel_schema_def dirProtocolTrimmed_def)
  have ok: "name_ok (ri_Name img)" "Join (tl (Split (ri_Image img) ''/'')) ''/'' \<noteq> []" using assms(5) img by (auto simp: list_all_iff)
  have ne: "dir \<noteq> []" using assms(6) path_str_not_empty[of dir] by metis
  have pi: "path_of (dir @ ''/images'') = path_of dir @ [''images'']" using path_of_snoc[OF ne, of "''images''"] by simp
  have pd: "path_of d = path_of (dir @ ''/images'') @ [ri_Name img]"
    unfolding d using ok by (intro path_of_snoc) (auto simp: name_ok_def)
  have sd: "path_str (path_of d) = d"
    using path_str_snoc[of "path_of dir @ [''images'']" "ri_Name img"] path_str_snoc[OF assms(7,8), of "''images''"] assms(6,7) d
    unfolding pd pi by simp
  let ?p = "path_of d @ [''manifest.json'']"
  have dir: "dir_of ?p = d" by (simp add: dir_of_def sd)
  have base: "name_matches ''manifest'' (base_of ?p)" by (simp add: base_of_def) code_simp
  have "last (Split d ''/'') = ri_Name img"
    using Split_char_snoc[of "CHR ''/''" "ri_Name img" "dir @ ''/images''"] ok by (simp add: d name_ok_def)
  then have "rel_found opts images ?p = [\<lparr>ci_Source = ci_Destination c,
      ci_Destination = co_Destination opts @ ''/'' @ Join (tl (Split (ri_Image img) ''/'')) ''/''\<rparr>]"
    using findRelatedImage_distinct[OF assms(4) img] ok base dir assms(3) by (simp add: rel_found_def dirProtocolTrimmed_def)
  moreover have "Replace1 (pf_Release (cfg_Platform config)) ''dir://'' [] = dir"
    unfolding assms(10) by (subst Replace1_prefix) simp_all
  ultimately show ?thesis
    using ReleaseImageCollector_disk_parts(1)[OF assms(9) assms(11)[folded assms(10)] refl, of lib getReleases] assms(12,13) img c
    by (force simp: walk_found_def rel_schema_def dockerProtocol_def)
qed

theorem ReleaseImageCollector_roundtrip_witness:
  "\<exists>out'. ReleaseImageCollector demo_lib demo_codecs (go_return []) (demo_opts\<lparr>co_Mode := diskToMirror, co_Destination := ''docker://reg''\<rparr>)
     demo_release_config demo_release_disk = (Ok out', demo_release_disk) \<and>
   \<lparr>ci_Source = ''dir:release-images/ocp/4.13/images/cli'', ci_Destination = ''docker://reg/ocp/release@sha256:11''\<rparr> \<in> set out'"
proof -
  let ?dir = "''release-images/ocp/4.13''" and ?img = "\<lparr>ri_Name = ''cli'', ri_Image = ''quay.io/ocp/release@sha256:11''\<rparr>"
  let ?opts = "demo_opts\<lparr>co_Mode := diskToMirror, co_Destination := ''docker://reg''\<rparr>"
  let ?b = "batcWorkerConverter ?dir [?img] [] empty_fs"
  have "fst ?b = Ok [rel_schema ?dir ?img]" by code_simp
  then have b: "?b = (Ok [rel_schema ?dir ?img], snd ?b)" by (simp add: prod_eq_iff)
  have c: "ci_Destination (rel_schema ?dir ?img) = ''dir:'' @ ''release-images/ocp/4.13/images/cli''" by code_simp
  have names: "list_all (\<lambda>i. name_ok (ri_Name i) \<and> Join (tl (Split (ri_Image i) ''/'')) ''/'' \<noteq> []) [?img]" by code_simp
  have dir: "path_str (path_of ?dir) = ?dir" "path_of ?dir \<noteq> []" "path_of ?dir \<noteq> [''/'']" by code_simp+
  have cfg: "pf_Release (cfg_Platform demo_release_config) = ''dir://'' @ ?dir" by code_simp
  have schema: "GetReleaseSchema demo_codecs (Replace1 (Replace1 (''dir://'' @ ?dir) ''release-images'' ''hold-release'') ''dir://'' []
      @ ''/'' @ releaseImageExtractFullPath) (mc_fs demo_release_disk) = Ok [?img]" by code_simp
  have calls: "list_all (\<lambda>(_, e). e = None) (walk_calls (?dir @ ''/images'') (mc_fs demo_release_disk))" by code_simp
  have found: "path_of ''release-images/ocp/4.13/images/cli'' @ [''manifest.json''] \<in>
      set (walk_found (?dir @ ''/images'') (mc_fs demo_release_disk))" by code_simp
  have mode: "co_Mode ?opts = diskToMirror" by simp
  have img: "Join (tl (Split ''quay.io/ocp/release@sha256:11'' ''/'')) ''/'' = ''ocp/release@sha256:11''" by code_simp
  have mem: "rel_schema ?dir ?img \<in> set [rel_schema ?dir ?img]" and d1: "distinct (map ri_Name [?img])" by simp_all
  from ReleaseImageCollector_roundtrip[OF b mem c d1 names dir mode cfg schema calls found, of demo_lib "go_return []"]
  show ?thesis by (auto simp: c img)
qed

end
