(* ===== verification/Operator_Collector.thy ===== *)
theory Operator_Collector
  imports Collector_Common
begin

text \<open>
  The operator images: \<open>pkg/operator/collector.go\<close>.

  \<open>OperatorImageCollector\<close> has the two modes of the method.  In mirrorToDisk mode every catalog is
  copied (a failing copy is only logged), its manifest and configuration are read, its layers
  extracted and its related images selected; \<open>relatedImages\<close> and \<open>dir\<close> are the variables of the
  method, so that what the last catalog assigned is what is converted.  The iteration over the map
  of related images is in the order of the list that represents it, one of the orders Go may take.
  \<open>stamp n\<close> is the name the code derives from the current time for an image without a name when it emits
  image number \<open>n\<close>.
\<close>

section \<open>Parsing and converting\<close>

definition op_customImageParser :: "string \<Rightarrow> ImageRefSchema outcome" where
  "op_customImageParser ref =
     (let parts = Split ref ''/'' in
      if length parts < 3 then Err (errorf ''[customImageParser] image url seems to be wrong %s '' [ref])
      else
        let component = (if Contains (parts ! 2) ''@'' then Split (parts ! 2) ''@'' ! 0 else parts ! 2)
        in Ok \<lparr>ir_Repository = parts ! 0, ir_Namespace = parts ! 1, ir_Component = component\<rparr>)"

definition component_dir :: "string \<Rightarrow> string \<Rightarrow> ImageRefSchema \<Rightarrow> string" where
  "component_dir dir bundle irs = Join [dir, bundle, ir_Namespace irs] ''/''"

definition op_schema :: "string \<Rightarrow> string \<Rightarrow> string \<Rightarrow> ImageRefSchema \<Rightarrow> RelatedImage \<Rightarrow> CopyImageSchema" where
  "op_schema stamp dir bundle irs img =
     (let name = (if length (ri_Name img) = 0 then stamp else ri_Name img)
      in \<lparr>ci_Source = dockerProtocol @ ri_Image img,
          ci_Destination = dirProtocolTrimmed @ Join [dir, bundle, ir_Namespace irs, name] ''/''\<rparr>)"

fun convert_bundle ::
  "(nat \<Rightarrow> string) \<Rightarrow> string \<Rightarrow> string \<Rightarrow> RelatedImage list \<Rightarrow> CopyImageSchema list \<Rightarrow> (fs, CopyImageSchema list) go" where
  "convert_bundle stamp dir bundle [] result = go_return result"
| "convert_bundle stamp dir bundle (img # relatedImgs) result =
     go_bind (go_lift (op_customImageParser (ri_Image img))) (\<lambda>irs s.
       if absent (component_dir dir bundle irs) s then
         go_bind (MkdirAll (component_dir dir bundle irs)) (\<lambda>_.
           convert_bundle stamp dir bundle relatedImgs (result @ [op_schema (stamp (length result)) dir bundle irs img])) s
       else convert_bundle stamp dir bundle relatedImgs result s)"

fun batchWorkerConverter :: "(nat \<Rightarrow> string) \<Rightarrow> string \<Rightarrow> images_map \<Rightarrow> CopyImageSchema list \<Rightarrow> (fs, CopyImageSchema list) go" where
  "batchWorkerConverter stamp dir [] result = go_return result"
| "batchWorkerConverter stamp dir ((bundle, relatedImgs) # images) result =
     go_bind (convert_bundle stamp dir bundle relatedImgs result) (batchWorkerConverter stamp dir images)"

section \<open>The packages of the configuration\<close>

text \<open>A package with several channels keeps the last one, a package without channels has no entry.\<close>

definition compare_entry :: "Operator \<Rightarrow> IncludeChannel \<Rightarrow> ISCPackage" where
  "compare_entry ops channel =
     \<lparr>pk_Channel = ic_Name channel, pk_MinVersion = ib_MinVersion (ic_IncludeBundle channel),
      pk_MaxVersion = ib_MaxVersion (ic_IncludeBundle channel), pk_Full = op_Full ops\<rparr>"

definition compare_map :: "Operator list \<Rightarrow> (string \<times> ISCPackage) list" where
  "compare_map operators =
     foldl (\<lambda>m ops. foldl (\<lambda>m pkg. foldl (\<lambda>m channel. map_put (ip_Name pkg) (compare_entry ops channel) m) m (ip_Channels pkg))
              m (op_Packages ops)) [] operators"

section \<open>mirrorToDisk\<close>

definition op_logsFile :: string where "op_logsFile = ''logs/operator.log''"

definition copy_catalog :: "'w imglib \<Rightarrow> CopyOptions \<Rightarrow> string \<Rightarrow> string \<Rightarrow> string \<Rightarrow> ('w machine, unit) go" where
  "copy_catalog lib opts dir cacheDir catalog = (\<lambda>m.
     if absent cacheDir (mc_fs m) then
       go_bind (on_fs (MkdirAll dir)) (\<lambda>_.
         go_try (Mirror_Run lib (dockerProtocol @ catalog) (ociProtocolTrimmed @ dir) ''copy'' opts) (\<lambda>_. go_return ())) m
     else go_return () m)"

definition catalog_layout :: "codecs \<Rightarrow> string \<Rightarrow> string \<Rightarrow> string \<Rightarrow> (fs, string) go" where
  "catalog_layout cd dir cacheDir catalog =
     go_bind (\<lambda>s. (GetImageIndex cd dir s, s)) (\<lambda>idx.
       case idx of
         None \<Rightarrow> go_panic nil_deref
       | Some oci \<Rightarrow>
           if length (oci_Manifests oci) = 0 then go_fail (errorf ''[OperatorImageCollector] no manifests found for %s '' [catalog])
           else if \<not> Contains (om_Digest (oci_Manifests oci ! 0)) ''sha256''
           then go_fail (errorf ''[OperatorImageCollector] the disgets seems to incorrect for %s '' [catalog])
           else
             go_bind (go_lift (go_index (Split (om_Digest (oci_Manifests oci ! 0)) '':'') 1)) (\<lambda>manifest.
             go_bind (\<lambda>s. (GetImageManifest cd (Join [dir, blobsDir, manifest] ''/'') s, s)) (\<lambda>mfst.
               case mfst of
                 None \<Rightarrow> go_panic nil_deref
               | Some oci' \<Rightarrow>
                   go_bind (go_lift (go_index (Split (om_Digest (oci_Config oci')) '':'') 1)) (\<lambda>config.
                   go_bind (\<lambda>s. (GetOperatorConfig cd (Join [dir, blobsDir, config] ''/'') s, s)) (\<lambda>ocs.
                     case ocs of
                       None \<Rightarrow> go_panic nil_deref
                     | Some cfg \<Rightarrow>
                         let label = ol_OperatorsOperatorframeworkIoIndexConfigsV1 (oc_Labels (ocs_Config cfg))
                         in go_bind (ExtractLayersOCI cd (Join [dir, blobsDir] ''/'') cacheDir label (Some oci')) (\<lambda>_.
                              go_return label))))))"

text \<open>The directory and the related images of one catalog.\<close>

definition collect_catalog ::
  "'w imglib \<Rightarrow> codecs \<Rightarrow> CopyOptions \<Rightarrow> (string \<times> ISCPackage) list \<Rightarrow> Operator \<Rightarrow> ('w machine, string \<times> images_map) go" where
  "collect_catalog lib cd opts compare op =
     go_bind (go_lift (image_index_dir (op_Catalog op))) (\<lambda>imageIndexDir.
       let cacheDir = Join [gl_Dir (co_Global opts), operatorImageExtractDir, imageIndexDir] ''/'';
           dir = Join [gl_Dir (co_Global opts), operatorImageDir, imageIndexDir] ''/''
       in go_bind (copy_catalog lib opts dir cacheDir (op_Catalog op)) (\<lambda>_.
          go_bind (on_fs (catalog_layout cd dir cacheDir (op_Catalog op))) (\<lambda>label.
          go_bind (ask_fs (if length (op_Packages op) = 0 then GetRelatedImagesFromCatalog cd cacheDir label
                           else GetRelatedImagesFromCatalogByFilter cd cacheDir label op compare)) (\<lambda>relatedImages.
            go_return (dir, relatedImages)))))"

fun collect_catalogs ::
  "'w imglib \<Rightarrow> codecs \<Rightarrow> CopyOptions \<Rightarrow> (string \<times> ISCPackage) list \<Rightarrow> Operator list \<Rightarrow> string \<times> images_map \<Rightarrow>
   ('w machine, string \<times> images_map) go" where
  "collect_catalogs lib cd opts compare [] acc = go_return acc"
| "collect_catalogs lib cd opts compare (op # ops) acc =
     go_bind (collect_catalog lib cd opts compare op) (collect_catalogs lib cd opts compare ops)"

section \<open>diskToMirror\<close>

definition op_emit :: "CopyOptions \<Rightarrow> path \<Rightarrow> CopyImageSchema outcome" where
  "op_emit opts p =
     (let hld = Split (dir_of p) operatorImageDir in
      if length hld = 0 then Err (errorf ''[OperatorImageCollector] %v %s'' [''no directory found for operator-images '', path_str p])
      else ok_map (\<lambda>rest. \<lparr>ci_Source = ociProtocolTrimmed @ dir_of p, ci_Destination = co_Destination opts @ rest\<rparr>)
             (go_index hld 1))"

definition op_visit :: "CopyOptions \<Rightarrow> string \<Rightarrow> path \<Rightarrow> error option \<Rightarrow> CopyImageSchema list \<Rightarrow> CopyImageSchema list outcome" where
  "op_visit opts pkg = visit (\<lambda>p. name_matches ''index'' (base_of p) \<and> Contains (path_str p) pkg) (op_emit opts)"

text \<open>The pairs of a directory and a package, in the order of the two loops; the error of the last
  walk is returned after them.\<close>

fun disk_operators ::
  "CopyOptions \<Rightarrow> (string \<times> string) list \<Rightarrow> error option \<Rightarrow> CopyImageSchema list \<Rightarrow> fs \<Rightarrow> CopyImageSchema list outcome" where
  "disk_operators opts [] e allImages s = (case e of None \<Rightarrow> Ok allImages | Some x \<Rightarrow> Err x)"
| "disk_operators opts ((imagesDir, pkg) # todo) e allImages s =
     (case Walk imagesDir (op_visit opts pkg) allImages s of
        (Ok _, imgs) \<Rightarrow> disk_operators opts todo None imgs s
      | (Err x, imgs) \<Rightarrow> disk_operators opts todo (Some x) imgs s
      | (Panic p, _) \<Rightarrow> Panic p)"

definition disk_todo :: "Operator list \<Rightarrow> (string \<times> string) list" where
  "disk_todo operators =
     concat (map (\<lambda>op. map (\<lambda>pkg. (Replace1 (op_Catalog op) ''dir://'' [], ip_Name pkg)) (op_Packages op)) operators)"

section \<open>The collector\<close>

definition OperatorImageCollector ::
  "'w imglib \<Rightarrow> codecs \<Rightarrow> (nat \<Rightarrow> string) \<Rightarrow> CopyOptions \<Rightarrow> ImageSetConfiguration \<Rightarrow> ('w machine, CopyImageSchema list) go" where
  "OperatorImageCollector lib cd stamp opts config =
     (let operators = cfg_Operators config; compare = compare_map operators in
      go_bind
        (if co_Mode opts = mirrorToDisk then
           go_try (on_fs (Create op_logsFile)) (\<lambda>_.
           go_bind (collect_catalogs lib cd opts compare operators ([], [])) (\<lambda>(dir, relatedImages).
             on_fs (batchWorkerConverter stamp dir relatedImages [])))
         else go_return []) (\<lambda>allImages.
        if co_Mode opts = diskToMirror
        then ask_fs (disk_operators opts (disk_todo operators) None allImages)
        else go_return allImages))"

section \<open>Laws of the converter\<close>

definition bundle_images :: "images_map \<Rightarrow> (string \<times> RelatedImage) list" where
  "bundle_images images = concat (map (\<lambda>(bundle, imgs). map (Pair bundle) imgs) images)"

definition op_key :: "string \<Rightarrow> string \<times> RelatedImage \<Rightarrow> string outcome" where
  "op_key dir bi = ok_map (component_dir dir (fst bi)) (op_customImageParser (ri_Image (snd bi)))"

text \<open>The images emitted from number \<open>n\<close> on.\<close>

definition emitted_from :: "(nat \<Rightarrow> string) \<Rightarrow> string \<Rightarrow> nat \<Rightarrow> (string \<times> RelatedImage) list \<Rightarrow> CopyImageSchema list" where
  "emitted_from stamp dir n bis =
     map (\<lambda>(i, bundle, img). op_schema (stamp i) dir bundle (case op_customImageParser (ri_Image img) of Ok irs \<Rightarrow> irs) img) (enumerate n bis)"

lemma emitted_from_simps [simp]:
  "emitted_from stamp dir n [] = []"
  "emitted_from stamp dir n ((bundle, img) # bis) =
     op_schema (stamp n) dir bundle (case op_customImageParser (ri_Image img) of Ok irs \<Rightarrow> irs) img # emitted_from stamp dir (Suc n) bis"
  by (simp_all add: emitted_from_def)

lemma emitted_from_append: "emitted_from stamp dir n (xs @ ys) = emitted_from stamp dir n xs @ emitted_from stamp dir (n + length xs) ys"
  by (simp add: emitted_from_def enumerate_append_eq)

lemma length_emitted_from [simp]: "length (emitted_from stamp dir n bis) = length bis"
  by (simp add: emitted_from_def)

lemma collect_new_append:
  "collect_new missing create key (xs @ ys) =
     go_bind (collect_new missing create key xs) (\<lambda>a. go_bind (collect_new missing create key ys) (\<lambda>b. go_return (a @ b)))"
proof (induction xs)
  case (Cons x xs)
  show ?case
    by (rule ext) (auto simp: Cons go_bind_def go_lift_def go_return_def split: prod.splits outcome.splits)
qed (auto simp: go_bind_def go_return_def fun_eq_iff split: prod.splits outcome.splits)

lemma convert_bundle_collect:
  "convert_bundle stamp dir bundle imgs acc s =
     (case collect_new absent MkdirAll (op_key dir) (map (Pair bundle) imgs) s of
        (q, t) \<Rightarrow> (ok_map (\<lambda>ys. acc @ emitted_from stamp dir (length acc) (map snd ys)) q, t))"
proof (induction imgs arbitrary: acc s)
  case (Cons img imgs)
  show ?case
  proof (cases "op_customImageParser (ri_Image img)")
    case (Ok irs)
    let ?d = "component_dir dir bundle irs"
    have key: "op_key dir (bundle, img) = Ok ?d" by (simp add: op_key_def Ok)
    show ?thesis
    proof (cases "absent ?d s")
      case True
      obtain m u where m: "MkdirAll ?d s = (m, u)" by fastforce
      obtain q t where "collect_new absent MkdirAll (op_key dir) (map (Pair bundle) imgs) u = (q, t)" by fastforce
      with True m Cons Ok key show ?thesis
        by (cases m; cases q) (simp_all add: go_bind_def go_lift_def go_return_def)
    qed (use Cons Ok key in \<open>simp add: go_bind_def go_lift_def\<close>)
  qed (simp_all add: op_key_def go_bind_def go_lift_def)
qed (simp add: go_return_def)

lemma batchWorkerConverter_collect:
  "batchWorkerConverter stamp dir images acc s =
     (case collect_new absent MkdirAll (op_key dir) (bundle_images images) s of
        (q, t) \<Rightarrow> (ok_map (\<lambda>ys. acc @ emitted_from stamp dir (length acc) (map snd ys)) q, t))"
proof (induction images arbitrary: acc s)
  case (Cons x images)
  obtain bdl imgs where x: "x = (bdl, imgs)" by fastforce
  obtain q t where q: "collect_new absent MkdirAll (op_key dir) (map (Pair bdl) imgs) s = (q, t)" by fastforce
  obtain q' t' where q': "collect_new absent MkdirAll (op_key dir) (bundle_images images) t = (q', t')" by fastforce
  have b: "bundle_images ((bdl, imgs) # images) = map (Pair bdl) imgs @ bundle_images images" by (simp add: bundle_images_def)
  from q q' Cons.IH show ?case
    by (cases q; cases q') (simp_all add: b x collect_new_append convert_bundle_collect go_bind_def go_return_def emitted_from_append)
qed (simp add: bundle_images_def go_return_def)

lemma compare_inner:
  "map_of (foldl (\<lambda>m (k, v). map_put k v m) m kvs) = map_of m ++ map_of (rev kvs)"
proof (induction kvs arbitrary: m)
  case (Cons kv kvs)
  then show ?case by (cases kv) (auto simp: map_add_def fun_eq_iff split: option.splits)
qed simp

definition compare_entries :: "Operator list \<Rightarrow> (string \<times> ISCPackage) list" where
  "compare_entries operators =
     concat (map (\<lambda>ops. concat (map (\<lambda>pkg. map (\<lambda>ch. (ip_Name pkg, compare_entry ops ch)) (ip_Channels pkg)) (op_Packages ops))) operators)"

lemma foldl_concat_map: "foldl (\<lambda>m x. foldl g m (f x)) m xs = foldl g m (concat (map f xs))"
  by (induction xs arbitrary: m) simp_all

lemma compare_map_foldl: "compare_map operators = foldl (\<lambda>m (k, v). map_put k v m) [] (compare_entries operators)"
proof -
  have chs: "foldl (\<lambda>m channel. map_put (ip_Name pkg) (compare_entry ops channel) m) m chs =
      foldl (\<lambda>m (k, v). map_put k v m) m (map (\<lambda>ch. (ip_Name pkg, compare_entry ops ch)) chs)" for ops pkg m chs
    by (induction chs arbitrary: m) simp_all
  show ?thesis by (simp add: compare_map_def compare_entries_def chs foldl_concat_map)
qed
section \<open>Properties\<close>

text \<open>The package filter of the configuration: a package has the channel, the bounds and the full
  flag of the last channel listed for its name over all catalogs, and packages without channels have
  no entry.\<close>

lemma compare_map_last:
  "map_of (compare_map operators) =
   map_of (rev (concat (map (\<lambda>ops. concat (map (\<lambda>pkg. map (\<lambda>ch. (ip_Name pkg, compare_entry ops ch)) (ip_Channels pkg)) (op_Packages ops))) operators)))"
  using compare_inner[of "[]" "compare_entries operators"] by (simp add: compare_map_foldl compare_entries_def)

lemma batchWorkerConverter_OkE:
  assumes "batchWorkerConverter stamp dir images [] s = (Ok out, s')"
  obtains ys where "collect_new absent MkdirAll (op_key dir) (bundle_images images) s = (Ok ys, s')"
    and "out = emitted_from stamp dir 0 (map snd ys)"
proof -
  obtain q t where "collect_new absent MkdirAll (op_key dir) (bundle_images images) s = (q, t)" by fastforce
  with assms that show thesis by (auto simp: batchWorkerConverter_collect ok_map_eq_Ok)
qed

lemma op_key_Ok: "op_key dir (b, img) = Ok k \<longleftrightarrow> (\<exists>irs. op_customImageParser (ri_Image img) = Ok irs \<and> k = component_dir dir b irs)"
  by (auto simp: op_key_def ok_map_eq_Ok)

lemma in_emitted_from:
  assumes "c \<in> set (emitted_from stamp dir n bis)"
  obtains i b img where "(b, img) \<in> set bis" "c = op_schema (stamp i) dir b (case op_customImageParser (ri_Image img) of Ok irs \<Rightarrow> irs) img"
proof -
  from assms obtain i b img where i: "(i, b, img) \<in> set (enumerate n bis)"
    and c: "c = op_schema (stamp i) dir b (case op_customImageParser (ri_Image img) of Ok irs \<Rightarrow> irs) img"
    by (auto simp: emitted_from_def)
  from i have "(b, img) \<in> set bis" by (metis in_set_zipE enumerate_eq_zip)
  from this c show thesis by (rule that)
qed

text \<open>C36: the converter of the related images, for every order in which Go iterates the map: every image
  it returns is a related image of a bundle of the catalog, read from its registry and stored under its name (or
  a time stamp, if it has none) in the directory of the bundle and its namespace, which was absent before and exists
  afterwards; afterwards the directories of all related images exist, and a second run returns nothing and
  changes nothing.\<close>

theorem batchWorkerConverter_new_images:
  assumes "batchWorkerConverter stamp dir images [] s = (Ok out, s')"
  shows "(\<forall>c \<in> set out. \<exists>bundle imgs img irs k name. (bundle, imgs) \<in> set images \<and> img \<in> set imgs \<and>
      op_customImageParser (ri_Image img) = Ok irs \<and> k = dir @ ''/'' @ bundle @ ''/'' @ ir_Namespace irs \<and>
      ci_Source c = ''docker://'' @ ri_Image img \<and> ci_Destination c = ''dir:'' @ k @ ''/'' @ name \<and>
      (name = ri_Name img \<or> ri_Name img = [] \<and> name \<in> range stamp) \<and> absent k s \<and> \<not> absent k s') \<and>
    (\<forall>(bundle, imgs) \<in> set images. \<forall>img \<in> set imgs. \<exists>irs. op_customImageParser (ri_Image img) = Ok irs \<and>
      \<not> absent (dir @ ''/'' @ bundle @ ''/'' @ ir_Namespace irs) s') \<and>
    batchWorkerConverter stamp dir images [] s' = (Ok [], s')"
proof -
  obtain ys where ys: "collect_new absent MkdirAll (op_key dir) (bundle_images images) s = (Ok ys, s')"
    and out: "out = emitted_from stamp dir 0 (map snd ys)" by (rule batchWorkerConverter_OkE[OF assms])
  have dirs: "component_dir dir b irs = dir @ ''/'' @ b @ ''/'' @ ir_Namespace irs" for b irs by (simp add: component_dir_def)
  have "\<exists>bundle imgs img irs k name. (bundle, imgs) \<in> set images \<and> img \<in> set imgs \<and>
      op_customImageParser (ri_Image img) = Ok irs \<and> k = dir @ ''/'' @ bundle @ ''/'' @ ir_Namespace irs \<and>
      ci_Source c = ''docker://'' @ ri_Image img \<and> ci_Destination c = ''dir:'' @ k @ ''/'' @ name \<and>
      (name = ri_Name img \<or> ri_Name img = [] \<and> name \<in> range stamp) \<and> absent k s \<and> \<not> absent k s'" if c: "c \<in> set out" for c
  proof -
    obtain i b img where bi: "(b, img) \<in> set (map snd ys)" "c = op_schema (stamp i) dir b (case op_customImageParser (ri_Image img) of Ok irs \<Rightarrow> irs) img"
      using c unfolding out by (rule in_emitted_from)
    then obtain k where "(k, b, img) \<in> set ys" by auto
    from fsc.collect_emitted[OF ys this] obtain irs where e: "(b, img) \<in> set (bundle_images images)" "op_customImageParser (ri_Image img) = Ok irs"
      "k = dir @ ''/'' @ b @ ''/'' @ ir_Namespace irs" "absent k s" "\<not> absent k s'" by (auto simp: op_key_Ok dirs)
    moreover obtain imgs where "(b, imgs) \<in> set images" "img \<in> set imgs" using e(1) by (auto simp: bundle_images_def)
    moreover have "ci_Source c = ''docker://'' @ ri_Image img"
      "ci_Destination c = ''dir:'' @ k @ ''/'' @ (if ri_Name img = [] then stamp i else ri_Name img)"
      using bi(2) e(2,3) by (simp_all add: op_schema_def Let_def dockerProtocol_def dirProtocolTrimmed_def)
    ultimately show ?thesis
      by (intro exI[of _ b] exI[of _ imgs] exI[of _ img] exI[of _ irs] exI[of _ k] exI[of _ "if ri_Name img = [] then stamp i else ri_Name img"]) simp
  qed
  moreover have "\<exists>irs. op_customImageParser (ri_Image img) = Ok irs \<and> \<not> absent (dir @ ''/'' @ b @ ''/'' @ ir_Namespace irs) s'"
    if "(b, imgs) \<in> set images" "img \<in> set imgs" for b imgs img
  proof -
    have "(b, img) \<in> set (bundle_images images)" using that by (force simp: bundle_images_def)
    from fsc.collect_present[OF ys this] show ?thesis by (auto simp: op_key_Ok dirs)
  qed
  moreover have "batchWorkerConverter stamp dir images [] s' = (Ok [], s')"
    using fsc.collect_again[OF ys] by (simp add: batchWorkerConverter_collect)
  ultimately show ?thesis by blast
qed

text \<open>Only one of two images that a bundle has in one namespace is copied.\<close>

lemma one_image_per_namespace:
  "fst (batchWorkerConverter (\<lambda>_. ''n'') ''d''
     [(''op.v1'', [\<lparr>ri_Name = ''a'', ri_Image = ''quay.io/ns/a@sha256:1''\<rparr>, \<lparr>ri_Name = ''b'', ri_Image = ''quay.io/ns/b@sha256:2''\<rparr>])] []
     empty_fs) =
   Ok [\<lparr>ci_Source = ''docker://quay.io/ns/a@sha256:1'', ci_Destination = ''dir:d/op.v1/ns/a''\<rparr>]"
  by code_simp

theorem batchWorkerConverter_new_images_witness:
  "let imgs = [(''op.v1'', [\<lparr>ri_Name = ''a'', ri_Image = ''quay.io/ns/a@sha256:1''\<rparr>, \<lparr>ri_Name = [], ri_Image = ''quay.io/b/b@sha256:2''\<rparr>])];
       s' = snd (batchWorkerConverter (\<lambda>_. ''n'') ''d'' imgs [] empty_fs)
   in fst (batchWorkerConverter (\<lambda>_. ''n'') ''d'' imgs [] empty_fs) =
        Ok [\<lparr>ci_Source = ''docker://quay.io/ns/a@sha256:1'', ci_Destination = ''dir:d/op.v1/ns/a''\<rparr>,
            \<lparr>ci_Source = ''docker://quay.io/b/b@sha256:2'', ci_Destination = ''dir:d/op.v1/b/n''\<rparr>] \<and>
      batchWorkerConverter (\<lambda>_. ''n'') ''d'' imgs [] s' = (Ok [], s')"
  unfolding Let_def
proof (rule conjI)
  let ?run = "batchWorkerConverter (\<lambda>_. ''n'') ''d''
     [(''op.v1'', [\<lparr>ri_Name = ''a'', ri_Image = ''quay.io/ns/a@sha256:1''\<rparr>, \<lparr>ri_Name = [], ri_Image = ''quay.io/b/b@sha256:2''\<rparr>])] []"
  let ?out = "[\<lparr>ci_Source = ''docker://quay.io/ns/a@sha256:1'', ci_Destination = ''dir:d/op.v1/ns/a''\<rparr>,
    \<lparr>ci_Source = ''docker://quay.io/b/b@sha256:2'', ci_Destination = ''dir:d/op.v1/b/n''\<rparr>]"
  show first: "fst (?run empty_fs) = Ok ?out" by code_simp
  have "?run empty_fs = (Ok ?out, snd (?run empty_fs))" by (rule prod_eqI) (simp_all only: first fst_conv snd_conv)
  from batchWorkerConverter_new_images[OF this, THEN conjunct2, THEN conjunct2]
  show "?run (snd (?run empty_fs)) = (Ok [], snd (?run empty_fs))" .
qed

section \<open>Walking the operators on disk\<close>

lemma Split_two: "sep \<noteq> [] \<Longrightarrow> Contains x sep \<Longrightarrow> length (Split x sep) \<ge> 2"
proof -
  assume sep: "sep \<noteq> []" and "Contains x sep"
  then obtain a b where "Cut sep x = Some (a, b)" using Cut_None_iff[of sep x] by (cases "Cut sep x") auto
  then have "Split x sep = a # Split b sep" using sep by (simp add: Split.simps[of x sep])
  moreover have "Split b sep \<noteq> []" using sep by simp
  ultimately show ?thesis by (cases "Split b sep") auto
qed

definition op_found :: "CopyOptions \<Rightarrow> path \<Rightarrow> CopyImageSchema" where
  "op_found opts p = \<lparr>ci_Source = ''oci:'' @ dir_of p, ci_Destination = co_Destination opts @ Split (dir_of p) operatorImageDir ! 1\<rparr>"

lemma op_emit_Ok: "Contains (dir_of p) operatorImageDir \<Longrightarrow> op_emit opts p = Ok (op_found opts p)"
  using Split_two[of operatorImageDir "dir_of p"]
  by (auto simp: op_emit_def op_found_def Let_def ociProtocolTrimmed_def operatorImageDir_def)

lemma disk_operators_Ok:
  assumes "\<And>root pkg p. (root, pkg) \<in> set todo \<Longrightarrow> p \<in> set (walk_found root s) \<Longrightarrow>
      name_matches ''index'' (base_of p) \<Longrightarrow> Contains (path_str p) pkg \<Longrightarrow> Contains (dir_of p) operatorImageDir"
  shows "disk_operators opts todo None acc s =
    Ok (acc @ concat (map (\<lambda>(root, pkg). map (op_found opts)
      (filter (\<lambda>p. name_matches ''index'' (base_of p) \<and> Contains (path_str p) pkg) (walk_found root s))) todo))"
  using assms
proof (induction todo arbitrary: acc)
  case (Cons rp todo)
  obtain root pkg where rp: "rp = (root, pkg)" by fastforce
  let ?pick = "\<lambda>p. name_matches ''index'' (base_of p) \<and> Contains (path_str p) pkg"
  let ?out = "acc @ map (op_found opts) (filter ?pick (walk_found root s))"
  have "fst (Walk root (op_visit opts pkg) acc s) = Ok ?out"
    unfolding op_visit_def using Cons.prems[of root pkg] by (intro Walk_visit op_emit_Ok) (simp add: rp)
  then have "Walk root (op_visit opts pkg) acc s = (Ok ?out, ?out)" unfolding Walk_def by (rule walk_with_Ok_acc)
  moreover have "disk_operators opts todo None ?out s = Ok (?out @ concat (map (\<lambda>(root, pkg). map (op_found opts)
      (filter (\<lambda>p. name_matches ''index'' (base_of p) \<and> Contains (path_str p) pkg) (walk_found root s))) todo))"
    by (rule Cons.IH) (use Cons.prems in auto)
  ultimately show ?case by (simp add: rp)
qed simp

text \<open>C37: in diskToMirror mode, when every index file found lies below operator-images, the
  collector changes nothing and returns, for every package of every catalog, the index files of the walk
  whose path has the package's name in it, in the order of the walk: the directory as source, the part
  of the directory after operator-images appended to the destination.\<close>

theorem OperatorImageCollector_disk:
  assumes "co_Mode opts = diskToMirror"
    and "\<And>root pkg p. (root, pkg) \<in> set (disk_todo (cfg_Operators config)) \<Longrightarrow> p \<in> set (walk_found root (mc_fs m)) \<Longrightarrow>
           name_matches ''index'' (base_of p) \<Longrightarrow> Contains (path_str p) pkg \<Longrightarrow> Contains (dir_of p) operatorImageDir"
  shows "OperatorImageCollector lib cd stamp opts config m =
    (Ok (concat (map (\<lambda>(root, pkg).
       map (op_found opts)
         (filter (\<lambda>p. name_matches ''index'' (base_of p) \<and> Contains (path_str p) pkg) (walk_found root (mc_fs m))))
       (disk_todo (cfg_Operators config)))), m)"
  using disk_operators_Ok[of "disk_todo (cfg_Operators config)" "mc_fs m" opts "[]", OF assms(2)] assms(1)
  by (simp add: OperatorImageCollector_def Let_def ask_fs_def go_bind_def go_return_def)

definition demo_operator :: "string \<Rightarrow> string \<Rightarrow> Operator" where
  "demo_operator catalog pkg =
     \<lparr>op_IncludeConfig = \<lparr>inc_Packages = [\<lparr>ip_Name = pkg, ip_Channels = [], ip_IncludeBundle = \<lparr>ib_MinVersion = [], ib_MaxVersion = [], ib_MinBundle = []\<rparr>\<rparr>]\<rparr>,
      op_Catalog = catalog, op_TargetName = [], op_TargetTag = [], op_Full = False, op_SkipDependencies = False, op_OriginalRef = []\<rparr>"

definition demo_operators :: ImageSetConfiguration where
  "demo_operators =
     zero_config\<lparr>isc_Spec := (isc_Spec zero_config)\<lparr>sp_Mirror := (cfg_Mirror zero_config)\<lparr>mi_Operators := [demo_operator ''dir://work'' ''aws'']\<rparr>\<rparr>\<rparr>"

definition demo_operator_disk :: "unit machine" where
  "demo_operator_disk =
     \<lparr>mc_fs = \<lparr>fs_nodes = [([''work''], Dir), ([''work'', ''operator-images'', ''aws'', ''index.json''], File []),
                         ([''work'', ''operator-images'', ''gcp'', ''index.json''], File [])],
              fs_fault = (\<lambda>_ _. None)\<rparr>, mc_world = ()\<rparr>"

theorem OperatorImageCollector_disk_witness:
  "OperatorImageCollector demo_lib demo_codecs (\<lambda>_. []) (demo_opts\<lparr>co_Mode := diskToMirror, co_Destination := ''docker://reg''\<rparr>)
     demo_operators demo_operator_disk =
   (Ok [\<lparr>ci_Source = ''oci:work/operator-images/aws'', ci_Destination = ''docker://reg/aws''\<rparr>], demo_operator_disk)"
proof -
  let ?opts = "demo_opts\<lparr>co_Mode := diskToMirror, co_Destination := ''docker://reg''\<rparr>"
  have all: "list_all (\<lambda>(root, pkg). list_all (\<lambda>p. name_matches ''index'' (base_of p) \<longrightarrow> Contains (path_str p) pkg \<longrightarrow> Contains (dir_of p) operatorImageDir)
      (walk_found root (mc_fs demo_operator_disk))) (disk_todo (cfg_Operators demo_operators))" by code_simp
  have "OperatorImageCollector demo_lib demo_codecs (\<lambda>_. []) ?opts demo_operators demo_operator_disk =
    (Ok (concat (map (\<lambda>(root, pkg). map (op_found ?opts)
         (filter (\<lambda>p. name_matches ''index'' (base_of p) \<and> Contains (path_str p) pkg) (walk_found root (mc_fs demo_operator_disk))))
       (disk_todo (cfg_Operators demo_operators)))), demo_operator_disk)"
    by (rule OperatorImageCollector_disk) (use all in \<open>auto simp: list_all_iff\<close>)
  moreover have "concat (map (\<lambda>(root, pkg). map (op_found ?opts)
         (filter (\<lambda>p. name_matches ''index'' (base_of p) \<and> Contains (path_str p) pkg) (walk_found root (mc_fs demo_operator_disk))))
       (disk_todo (cfg_Operators demo_operators))) = [\<lparr>ci_Source = ''oci:work/operator-images/aws'', ci_Destination = ''docker://reg/aws''\<rparr>]"
    by code_simp
  ultimately show ?thesis by simp
qed

end
