(* ===== verification/Config.thy ===== *)
theory Config
  imports Go_FS Api_V1alpha2
begin

text \<open>
  Loading and checking the image set configuration: \<open>pkg/config/load.go\<close>,
  \<open>defaults.go\<close>, \<open>validate.go\<close>, \<open>metadata.go\<close>.

  The YAML and JSON syntax and the parser of image references are the record \<open>config_codec\<close>.  The
  strict JSON decoder returns what it has filled in up to an error together with the error, and so does
  \<open>ReadConfig\<close>: its caller may go on with the value.  The group and version of a type are taken
  apart as \<open>k8s.io/apimachinery\<close> does.  The decoders report errors and do not panic; the branches for a
  panic only make the functions total.
\<close>

section \<open>Group, version, kind\<close>

definition ParseGroupVersion :: "string \<Rightarrow> (string \<times> string) option" where
  "ParseGroupVersion gv =
     (if length gv = 0 \<or> gv = ''/'' then Some ([], [])
      else if count_list gv (CHR ''/'') = 0 then Some ([], gv)
      else if count_list gv (CHR ''/'') = 1 then Cut ''/'' gv
      else None)"

definition FromAPIVersionAndKind :: "string \<Rightarrow> string \<Rightarrow> GroupVersionKind" where
  "FromAPIVersionAndKind apiVersion kind =
     (case ParseGroupVersion apiVersion of
        Some (g, v) \<Rightarrow> \<lparr>gvk_Group = g, gvk_Version = v, gvk_Kind = kind\<rparr>
      | None \<Rightarrow> \<lparr>gvk_Group = [], gvk_Version = [], gvk_Kind = kind\<rparr>)"

definition TypeMeta_GroupVersionKind :: "TypeMeta \<Rightarrow> GroupVersionKind" where
  "TypeMeta_GroupVersionKind t = FromAPIVersionAndKind (tm_APIVersion t) (tm_Kind t)"

definition gvk_empty :: "GroupVersionKind \<Rightarrow> bool" where
  "gvk_empty g = (gvk_Group g = [] \<and> gvk_Version g = [] \<and> gvk_Kind g = [])"

definition ToAPIVersionAndKind :: "GroupVersionKind \<Rightarrow> TypeMeta" where
  "ToAPIVersionAndKind g =
     (if gvk_empty g then \<lparr>tm_Kind = [], tm_APIVersion = []\<rparr>
      else \<lparr>tm_Kind = gvk_Kind g,
            tm_APIVersion = (if length (gvk_Group g) > 0 then gvk_Group g @ ''/'' @ gvk_Version g else gvk_Version g)\<rparr>)"

section \<open>Decoders\<close>

record config_codec =
  cc_YAMLToJSON :: "string \<Rightarrow> string outcome"
  cc_TypeMeta :: "string \<Rightarrow> TypeMeta outcome"
  cc_Config :: "string \<Rightarrow> ImageSetConfiguration \<times> error option"
  cc_Metadata :: "string \<Rightarrow> Metadata \<times> error option"
  cc_EncodeMetadata :: "TypeMeta \<Rightarrow> MetadataSpec \<Rightarrow> string outcome"
  cc_Parse :: "string \<Rightarrow> DockerImageReference outcome"
  cc_Exact :: "DockerImageReference \<Rightarrow> string"

section \<open>Defaults\<close>

definition completeReleaseArchitectures :: "ImageSetConfiguration \<Rightarrow> ImageSetConfiguration" where
  "completeReleaseArchitectures cfg =
     (if length (cfg_Channels cfg) \<noteq> 0 \<and> length (pf_Architectures (cfg_Platform cfg)) = 0
      then set_Platform (\<lambda>p. p\<lparr>pf_Architectures := [DefaultPlatformArchitecture]\<rparr>) cfg else cfg)"

definition config_Complete :: "ImageSetConfiguration \<Rightarrow> ImageSetConfiguration" where
  "config_Complete cfg = completeReleaseArchitectures cfg"

section \<open>Validation\<close>

fun unique_catalogs :: "config_codec \<Rightarrow> Operator list \<Rightarrow> string list \<Rightarrow> error option" where
  "unique_catalogs cc [] seen = None"
| "unique_catalogs cc (ctlg # ctlgs) seen =
     (case Operator_GetUniqueName (cc_Parse cc) (cc_Exact cc) ctlg of
        Err e \<Rightarrow> Some e
      | Panic m \<Rightarrow> Some (errorf m [])
      | Ok ctlgName \<Rightarrow>
          if ctlgName \<in> set seen then Some (errorf ''catalog %q: duplicate found in configuration'' [ctlgName])
          else unique_catalogs cc ctlgs (ctlgName # seen))"

definition validateOperatorOptions :: "config_codec \<Rightarrow> ImageSetConfiguration \<Rightarrow> error option" where
  "validateOperatorOptions cc cfg = unique_catalogs cc (cfg_Operators cfg) []"

fun unique_channels :: "ReleaseChannel list \<Rightarrow> string list \<Rightarrow> error option" where
  "unique_channels [] seen = None"
| "unique_channels (channel # channels) seen =
     (if rc_Name channel \<in> set seen
      then Some (errorf ''release channel %q: duplicate found in configuration'' [rc_Name channel])
      else unique_channels channels (rc_Name channel # seen))"

definition validateReleaseChannels :: "ImageSetConfiguration \<Rightarrow> error option" where
  "validateReleaseChannels cfg = unique_channels (cfg_Channels cfg) []"

definition NewAggregate :: "error list \<Rightarrow> error option" where
  "NewAggregate errs = (if errs = [] then None else Some (Errorf ''[%v]'' [] errs))"

definition validationChecks :: "config_codec \<Rightarrow> (ImageSetConfiguration \<Rightarrow> error option) list" where
  "validationChecks cc = [validateOperatorOptions cc, validateReleaseChannels]"

definition config_Validate :: "config_codec \<Rightarrow> ImageSetConfiguration \<Rightarrow> error option" where
  "config_Validate cc cfg =
     NewAggregate (concat (map (\<lambda>check. case check cfg of None \<Rightarrow> [] | Some e \<Rightarrow> [Errorf ''invalid configuration: %v'' [] [e]])
       (validationChecks cc)))"

section \<open>Loading\<close>

definition config_gvk :: GroupVersionKind where
  "config_gvk = GroupVersion_WithKind ImageSetConfigurationKind"

definition metadata_gvk :: GroupVersionKind where
  "metadata_gvk = GroupVersion_WithKind MetadataKind"

definition gvk_text :: "GroupVersionKind \<Rightarrow> string" where
  "gvk_text g = gvk_Group g @ ''/'' @ gvk_Version g @ '', Kind='' @ gvk_Kind g"

definition LoadConfig :: "config_codec \<Rightarrow> string \<Rightarrow> ImageSetConfiguration \<times> error option" where
  "LoadConfig cc data =
     (case cc_YAMLToJSON cc data of
        Ok js \<Rightarrow>
          (case cc_Config cc js of
             (c, Some err) \<Rightarrow> (c, Some (Errorf ''decode %s: %v'' [gvk_text config_gvk] [err]))
           | (c, None) \<Rightarrow> (c\<lparr>isc_TypeMeta := ToAPIVersionAndKind config_gvk\<rparr>, None))
      | Err err \<Rightarrow> (zero_config, Some (Errorf ''yaml to json %s: %v'' [gvk_text config_gvk] [err]))
      | Panic m \<Rightarrow> (zero_config, Some (errorf m [])))"

definition LoadMetadata :: "config_codec \<Rightarrow> string \<Rightarrow> Metadata \<times> error option" where
  "LoadMetadata cc data =
     (case cc_Metadata cc data of
        (m, Some err) \<Rightarrow> (m, Some (Errorf ''decode %s: %v'' [gvk_text metadata_gvk] [err]))
      | (m, None) \<Rightarrow> (m\<lparr>me_TypeMeta := ToAPIVersionAndKind metadata_gvk\<rparr>, None))"

text \<open>\<open>Metadata.MarshalJSON\<close> of \<open>pkg/api/v1alpha2/type_metadata.go\<close>; it sets the type of its receiver.\<close>

definition Metadata_MarshalJSON :: "config_codec \<Rightarrow> (Metadata, string) go" where
  "Metadata_MarshalJSON cc m =
     (let m' = m\<lparr>me_TypeMeta := ToAPIVersionAndKind metadata_gvk\<rparr>
      in (map_err (\<lambda>e. Errorf ''encode %s: %v'' [gvk_text metadata_gvk] [e]) (cc_EncodeMetadata cc (me_TypeMeta m') (me_Spec m')), m'))"

definition getTypeMeta :: "config_codec \<Rightarrow> string \<Rightarrow> TypeMeta outcome" where
  "getTypeMeta cc data = map_err (\<lambda>e. Errorf ''get type meta: %v'' [] [e]) (cc_TypeMeta cc data)"

definition ReadConfig :: "config_codec \<Rightarrow> string \<Rightarrow> fs \<Rightarrow> ImageSetConfiguration \<times> error option" where
  "ReadConfig cc configPath s =
     (case ok_bind (ReadFile (path_str (path_of configPath)) s) (\<lambda>data. ok_map (Pair data) (getTypeMeta cc data)) of
        Ok (data, typeMeta) \<Rightarrow>
          if TypeMeta_GroupVersionKind typeMeta = config_gvk then
            (case LoadConfig cc data of
               (c, Some err) \<Rightarrow> (c, Some err)
             | (c, None) \<Rightarrow> let c' = config_Complete c in (c', config_Validate cc c'))
          else (zero_config, Some (errorf ''config GVK not recognized: %s'' [gvk_text (TypeMeta_GroupVersionKind typeMeta)]))
      | Err err \<Rightarrow> (zero_config, Some err)
      | Panic m \<Rightarrow> (zero_config, Some (errorf m [])))"

section \<open>Directories of the workspace\<close>

definition PublishDir :: string where "PublishDir = ''publish''"
definition config_MetadataFile :: string where "config_MetadataFile = ''.metadata.json''"
definition MetadataBasePath :: string where
  "MetadataBasePath = path_str (path_of (PublishDir @ ''/'' @ config_MetadataFile))"

section \<open>Laws\<close>

text \<open>The names of the catalogs as the check for duplicates compares them.\<close>

definition catalog_name :: "config_codec \<Rightarrow> Operator \<Rightarrow> string outcome" where
  "catalog_name cc = Operator_GetUniqueName (cc_Parse cc) (cc_Exact cc)"

lemma unique_catalogs_None:
  "unique_catalogs cc ops seen = None \<longleftrightarrow>
   (\<exists>ns. ok_mapM (catalog_name cc) ops = Ok ns \<and> distinct ns \<and> set ns \<inter> set seen = {})"
proof (induction ops arbitrary: seen)
  case (Cons op ops)
  show ?case
  proof (cases "catalog_name cc op")
    case (Ok n)
    with Cons show ?thesis by (auto simp: catalog_name_def ok_map_eq_Ok ok_bind_eq_Ok)
  qed (auto simp: catalog_name_def)
qed simp

lemma unique_channels_None:
  "unique_channels chs seen = None \<longleftrightarrow> distinct (map rc_Name chs) \<and> set (map rc_Name chs) \<inter> set seen = {}"
  by (induction chs arbitrary: seen) auto

lemma config_Validate_None:
  "config_Validate cc cfg = None \<longleftrightarrow>
   (\<exists>ns. ok_mapM (catalog_name cc) (cfg_Operators cfg) = Ok ns \<and> distinct ns) \<and> distinct (map rc_Name (cfg_Channels cfg))"
proof -
  have "config_Validate cc cfg = None \<longleftrightarrow> validateOperatorOptions cc cfg = None \<and> validateReleaseChannels cfg = None"
    by (auto simp: config_Validate_def NewAggregate_def validationChecks_def split: option.splits)
  then show ?thesis
    by (simp add: validateOperatorOptions_def validateReleaseChannels_def unique_catalogs_None unique_channels_None)
qed

lemma config_gvk_meta: "TypeMeta_GroupVersionKind (ToAPIVersionAndKind config_gvk) = config_gvk"
  by code_simp

lemma config_Complete_idem: "config_Complete (config_Complete cfg) = config_Complete cfg"
  by (simp add: config_Complete_def completeReleaseArchitectures_def)

lemma isc_TypeMeta_Complete [simp]: "isc_TypeMeta (config_Complete cfg) = isc_TypeMeta cfg"
  by (simp add: config_Complete_def completeReleaseArchitectures_def set_Platform_def)

lemma ReadConfig_loaded:
  assumes "ReadFile (path_str (path_of configPath)) s = Ok data" and "getTypeMeta cc data = Ok t"
    and "TypeMeta_GroupVersionKind t = config_gvk" and "LoadConfig cc data = (c, None)"
  shows "ReadConfig cc configPath s = (config_Complete c, config_Validate cc (config_Complete c))"
  using assms by (simp add: ReadConfig_def Let_def)

lemma ReadConfig_accepts:
  assumes "ReadConfig cc configPath s = (c, None)"
  obtains data t c0 where "ReadFile (path_str (path_of configPath)) s = Ok data" and "getTypeMeta cc data = Ok t"
    and "TypeMeta_GroupVersionKind t = config_gvk" and "LoadConfig cc data = (c0, None)"
    and "c = config_Complete c0" and "config_Validate cc c = None"
  using assms by (auto simp: ReadConfig_def Let_def ok_bind_eq_Ok ok_map_eq_Ok split: outcome.splits if_splits prod.splits option.splits)

lemma LoadConfig_meta: "LoadConfig cc data = (c, None) \<Longrightarrow> isc_TypeMeta c = ToAPIVersionAndKind config_gvk"
  by (auto simp: LoadConfig_def split: outcome.splits prod.splits option.splits)

lemma config_Complete_sel [simp]:
  "cfg_Operators (config_Complete c) = cfg_Operators c" "cfg_Channels (config_Complete c) = cfg_Channels c"
  by (simp_all add: config_Complete_def completeReleaseArchitectures_def set_Platform_def)

lemma config_Complete_archs: "cfg_Channels c \<noteq> [] \<Longrightarrow> pf_Architectures (cfg_Platform (config_Complete c)) \<noteq> []"
  by (simp add: config_Complete_def completeReleaseArchitectures_def)

text \<open>Metadata is loaded as it was marshalled, if the decoder reads what the encoder writes.\<close>

lemma LoadMetadata_MarshalJSON:
  assumes "Metadata_MarshalJSON cc m = (Ok data, m')"
    and "\<And>t sp d. cc_EncodeMetadata cc t sp = Ok d \<Longrightarrow> cc_Metadata cc d = (\<lparr>me_TypeMeta = t, me_Spec = sp\<rparr>, None)"
  shows "LoadMetadata cc data = (m', None)" and "me_Spec m' = me_Spec m"
proof -
  have m': "m' = m\<lparr>me_TypeMeta := ToAPIVersionAndKind metadata_gvk\<rparr>"
    and enc: "cc_EncodeMetadata cc (ToAPIVersionAndKind metadata_gvk) (me_Spec m) = Ok data"
    using assms(1) by (auto simp: Metadata_MarshalJSON_def Let_def)
  show "LoadMetadata cc data = (m', None)" using assms(2)[OF enc] by (simp add: LoadMetadata_def m')
  show "me_Spec m' = me_Spec m" by (simp add: m')
qed

section \<open>Properties\<close>

lemma ReadConfig_well_formed_parts:
  assumes "ReadConfig cc configPath s = (c, None)"
  shows "TypeMeta_GroupVersionKind (isc_TypeMeta c) = config_gvk"
    and "distinct (map rc_Name (cfg_Channels c))"
    and "\<exists>ns. ok_mapM (Operator_GetUniqueName (cc_Parse cc) (cc_Exact cc)) (cfg_Operators c) = Ok ns \<and> distinct ns"
    and "cfg_Channels c \<noteq> [] \<Longrightarrow> pf_Architectures (cfg_Platform c) \<noteq> []"
    and "config_Complete c = c"
proof -
  from assms obtain c0 data where c: "LoadConfig cc data = (c0, None)" "c = config_Complete c0" "config_Validate cc c = None"
    by (rule ReadConfig_accepts)
  show "TypeMeta_GroupVersionKind (isc_TypeMeta c) = config_gvk"
    using LoadConfig_meta[OF c(1)] config_gvk_meta by (simp add: c(2))
  from c(3) show "distinct (map rc_Name (cfg_Channels c))"
    and "\<exists>ns. ok_mapM (Operator_GetUniqueName (cc_Parse cc) (cc_Exact cc)) (cfg_Operators c) = Ok ns \<and> distinct ns"
    by (simp_all add: config_Validate_None catalog_name_def)
  show "cfg_Channels c \<noteq> [] \<Longrightarrow> pf_Architectures (cfg_Platform c) \<noteq> []"
    using config_Complete_archs[of c0] by (simp add: c(2))
  show "config_Complete c = c" by (simp add: c(2) config_Complete_idem)
qed

text \<open>C8: a configuration that is read without an error is well formed: it has the group, version and
  kind of an image set configuration, the names of its release channels are distinct, its catalogs have
  distinct names, it has an architecture if it has a channel, and completing it again changes
  nothing.\<close>

theorem ReadConfig_well_formed:
  assumes "ReadConfig cc configPath s = (c, None)"
  shows "TypeMeta_GroupVersionKind (isc_TypeMeta c) = config_gvk \<and>
    distinct (map rc_Name (cfg_Channels c)) \<and>
    (\<exists>ns. ok_mapM (Operator_GetUniqueName (cc_Parse cc) (cc_Exact cc)) (cfg_Operators c) = Ok ns \<and> distinct ns) \<and>
    (cfg_Channels c = [] \<or> pf_Architectures (cfg_Platform c) \<noteq> []) \<and>
    config_Complete c = c"
  using ReadConfig_well_formed_parts[OF assms] by blast

definition demo_config_codec :: config_codec where
  "demo_config_codec =
     \<lparr>cc_YAMLToJSON = (\<lambda>d. Ok d),
      cc_TypeMeta = (\<lambda>_. Ok \<lparr>tm_Kind = ''ImageSetConfiguration'', tm_APIVersion = ''mirror.openshift.io/v1alpha2''\<rparr>),
      cc_Config = (\<lambda>d. (set_Platform (\<lambda>p. p\<lparr>pf_Channels := map (\<lambda>n. \<lparr>rc_Name = n, rc_Type = TypeOCP, rc_MinVersion = [], rc_MaxVersion = [],
          rc_ShortestPath = False, rc_Full = False\<rparr>) (Split d '','')\<rparr>) zero_config, None)),
      cc_Metadata = (\<lambda>_. (NewMetadata, None)),
      cc_EncodeMetadata = (\<lambda>_ _. Ok []), cc_Parse = (\<lambda>_. Err (errorf ''invalid'' [])), cc_Exact = dr_Name\<rparr>"

definition demo_config_fs :: "string \<Rightarrow> fs" where
  "demo_config_fs text = \<lparr>fs_nodes = [([''isc.yaml''], File text)], fs_fault = (\<lambda>_ _. None)\<rparr>"

lemma demo_config_channels:
  "let c = fst (ReadConfig demo_config_codec ''./isc.yaml'' (demo_config_fs ''stable,fast'')) in
   map rc_Name (cfg_Channels c) = [''stable'', ''fast''] \<and> pf_Architectures (cfg_Platform c) = [''amd64'']"
  by code_simp

lemma demo_config_accepted: "snd (ReadConfig demo_config_codec ''./isc.yaml'' (demo_config_fs ''stable,fast'')) = None"
  by code_simp

theorem ReadConfig_well_formed_witness:
  "distinct (map rc_Name (cfg_Channels (fst (ReadConfig demo_config_codec ''./isc.yaml'' (demo_config_fs ''stable,fast'')))))"
  by (rule ReadConfig_well_formed[where cc = demo_config_codec and configPath = "''./isc.yaml''" and s = "demo_config_fs ''stable,fast''", THEN conjunct2, THEN conjunct1])
     (simp add: prod_eq_iff demo_config_accepted)

lemma ReadConfig_rejects_duplicates_parts:
  assumes "ReadFile (path_str (path_of configPath)) s = Ok data" and "getTypeMeta cc data = Ok t"
    and "TypeMeta_GroupVersionKind t = config_gvk" and "LoadConfig cc data = (c, None)"
  shows "fst (ReadConfig cc configPath s) = config_Complete c"
    and "snd (ReadConfig cc configPath s) \<noteq> None \<longleftrightarrow>
      \<not> distinct (map rc_Name (cfg_Channels c)) \<or>
      \<not> (\<exists>ns. ok_mapM (Operator_GetUniqueName (cc_Parse cc) (cc_Exact cc)) (cfg_Operators c) = Ok ns \<and> distinct ns)"
  using config_Validate_None[of cc "config_Complete c"]
  by (auto simp: ReadConfig_loaded[OF assms] catalog_name_def)

text \<open>C38: a file that decodes as an image set configuration is rejected exactly when two release channels
  have the same name, or a catalog has no valid name, or two catalogs have the same name; the
  configuration is returned in either case.\<close>

theorem ReadConfig_rejects_duplicates:
  assumes "ReadFile (path_str (path_of configPath)) s = Ok data" and "getTypeMeta cc data = Ok t"
    and "TypeMeta_GroupVersionKind t = config_gvk" and "LoadConfig cc data = (c, None)"
  shows "fst (ReadConfig cc configPath s) = config_Complete c \<and>
    (snd (ReadConfig cc configPath s) \<noteq> None \<longleftrightarrow>
      \<not> distinct (map rc_Name (cfg_Channels c)) \<or>
      \<not> (\<exists>ns. ok_mapM (Operator_GetUniqueName (cc_Parse cc) (cc_Exact cc)) (cfg_Operators c) = Ok ns \<and> distinct ns))"
  using ReadConfig_rejects_duplicates_parts[OF assms] by blast

theorem ReadConfig_rejects_duplicates_witness:
  "snd (ReadConfig demo_config_codec ''./isc.yaml'' (demo_config_fs ''fast,fast'')) \<noteq> None"
proof -
  let ?data = "''fast,fast''"
  let ?c = "fst (LoadConfig demo_config_codec ?data)"
  have none: "snd (LoadConfig demo_config_codec ?data) = None" by code_simp
  have content: "ReadFile (path_str (path_of ''./isc.yaml'')) (demo_config_fs ?data) = Ok ?data" by code_simp
  have meta: "getTypeMeta demo_config_codec ?data = Ok \<lparr>tm_Kind = ''ImageSetConfiguration'', tm_APIVersion = ''mirror.openshift.io/v1alpha2''\<rparr>"
    by code_simp
  have gvk: "TypeMeta_GroupVersionKind \<lparr>tm_Kind = ''ImageSetConfiguration'', tm_APIVersion = ''mirror.openshift.io/v1alpha2''\<rparr> = config_gvk"
    by code_simp
  have load: "LoadConfig demo_config_codec ?data = (?c, None)" by (simp add: prod_eq_iff none)
  have "\<not> distinct (map rc_Name (cfg_Channels ?c))" by code_simp
  with ReadConfig_rejects_duplicates[OF content meta gvk load] show ?thesis by blast
qed

end
