(* ===== verification/Diff.thy ===== *)
theory Diff
  imports Config Mirror_Copy Api_V1alpha3
begin

text \<open>
  What changed since the last run: \<open>pkg/diff/diff.go\<close>, \<open>schema.go\<close>.

  The metadata file \<open>.metadata.toml\<close> lists the runs with the configuration each used; the one marked
  current is the last.  \<open>DeleteImages\<close> compares its configuration with the one of this run, computes the
  images to delete, hands them to \<open>MirrorDelete.DeleteImage\<close>, which does nothing, and writes the
  metadata of this run.  The TOML syntax is the record \<open>toml_codec\<close>, the clock the argument
  \<open>now\<close>.  \<open>reflect.DeepEqual\<close> is equality; it tells nil slices from empty ones, which the
  model does not distinguish.  Maps are association lists, so the order in which the images
  to delete are listed is one of those Go may take.
\<close>

section \<open>schema.go\<close>

record Item =
  it_Value :: int
  it_Timestamp :: int
  it_Imagesetconfig :: string
  it_Current :: bool
  it_Destination :: string

record Sequence =
  sq_Item :: "Item list"

record SequenceSchema =
  ss_Title :: string
  ss_Owner :: string
  ss_Sequence :: Sequence

record toml_codec =
  tc_decode :: "string \<Rightarrow> SequenceSchema outcome"
  tc_encode :: "SequenceSchema \<Rightarrow> string \<times> error option"

definition metadataFile :: string where "metadataFile = ''.metadata.toml''"

section \<open>Metadata\<close>

definition readMetaData :: "toml_codec \<Rightarrow> string \<Rightarrow> fs \<Rightarrow> SequenceSchema outcome" where
  "readMetaData tc dir s = ok_bind (ReadFile (dir @ ''/'' @ metadataFile) s) (tc_decode tc)"

definition getPreviousISC :: "SequenceSchema \<Rightarrow> (string \<times> string) outcome" where
  "getPreviousISC metadata =
     (let (dest, isc) = foldl (\<lambda>(dest, isc) item. if it_Current item then (it_Destination item, it_Imagesetconfig item) else (dest, isc))
                          ([], []) (sq_Item (ss_Sequence metadata))
      in if length isc = 0 then Err (errorf ''no current imagesetconfig found'' []) else Ok (dest, isc))"

definition GetAllMetadata ::
  "toml_codec \<Rightarrow> config_codec \<Rightarrow> string \<Rightarrow> fs \<Rightarrow> (SequenceSchema \<times> ImageSetConfiguration) outcome" where
  "GetAllMetadata tc cc dir s =
     ok_bind (readMetaData tc dir s) (\<lambda>metadata.
     ok_bind (getPreviousISC metadata) (\<lambda>(_, isc).
       case ReadConfig cc isc s of
         (_, Some err) \<Rightarrow> Err err
       | (prevCfg, None) \<Rightarrow> Ok (metadata, prevCfg)))"

definition isc_file :: "string \<Rightarrow> nat \<Rightarrow> string" where
  "isc_file dir n = dir @ ''/.imagesetconfig-'' @ Itoa n @ ''.yaml''"

definition new_item :: "int \<Rightarrow> string \<Rightarrow> string \<Rightarrow> SequenceSchema \<Rightarrow> Item" where
  "new_item now dir dest sch =
     (let n = length (sq_Item (ss_Sequence sch))
      in \<lparr>it_Value = int n, it_Timestamp = now, it_Imagesetconfig = isc_file dir n, it_Current = True, it_Destination = dest\<rparr>)"

definition add_item :: "int \<Rightarrow> string \<Rightarrow> string \<Rightarrow> SequenceSchema \<Rightarrow> SequenceSchema" where
  "add_item now dir dest sch =
     sch\<lparr>ss_Sequence := \<lparr>sq_Item = map (\<lambda>i. i\<lparr>it_Current := False\<rparr>) (sq_Item (ss_Sequence sch)) @ [new_item now dir dest sch]\<rparr>\<rparr>"

definition WriteMetadata :: "toml_codec \<Rightarrow> int \<Rightarrow> CopyOptions \<Rightarrow> string \<Rightarrow> string \<Rightarrow> SequenceSchema \<Rightarrow> (fs, unit) go" where
  "WriteMetadata tc now opts dir dest sch =
     (let sch' = add_item now dir dest sch; f = dir @ ''/'' @ metadataFile
      in go_bind (Create f) (\<lambda>_.
         case tc_encode tc sch' of
           (written, Some err) \<Rightarrow> go_bind (WriteFile f written) (\<lambda>_. go_fail err)
         | (written, None) \<Rightarrow>
             go_bind (WriteFile f written) (\<lambda>_.
             go_bind (\<lambda>s. (ReadFile (gl_ConfigPath (co_Global opts)) s, s)) (\<lambda>data.
               WriteFile (it_Imagesetconfig (new_item now dir dest sch)) data))))"

section \<open>Differences\<close>

record DiffSchema =
  df_from :: string
  df_found :: bool

definition previous :: DiffSchema where "previous = \<lparr>df_from = ''previous'', df_found = False\<rparr>"
definition current :: DiffSchema where "current = \<lparr>df_from = ''current'', df_found = False\<rparr>"
definition both :: DiffSchema where "both = \<lparr>df_from = ''both'', df_found = True\<rparr>"

type_synonym diff_map = "(string \<times> DiffSchema) list"

definition CheckDiff :: "ImageSetConfiguration \<Rightarrow> ImageSetConfiguration \<Rightarrow> bool" where
  "CheckDiff config prevCfg = (if config \<noteq> prevCfg then True else False)"

text \<open>The loop over the current objects for a previous one; \<open>nested\<close> is what the loop body does
  between the two assignments.\<close>

fun diff_inner :: "('a \<Rightarrow> string) \<Rightarrow> ('a \<Rightarrow> 'a \<Rightarrow> diff_map \<Rightarrow> diff_map) \<Rightarrow> 'a \<Rightarrow> 'a list \<Rightarrow> diff_map \<Rightarrow> diff_map" where
  "diff_inner key nested pr [] images = images"
| "diff_inner key nested pr (r # rs) images =
     (let images = map_put (key r) current images;
          images = nested pr r images;
          images = (if r = pr then map_put (key pr) both images else images)
      in diff_inner key nested pr rs images)"

fun diff_loop :: "('a \<Rightarrow> string) \<Rightarrow> ('a \<Rightarrow> 'a \<Rightarrow> diff_map \<Rightarrow> diff_map) \<Rightarrow> 'a list \<Rightarrow> 'a list \<Rightarrow> diff_map \<Rightarrow> diff_map" where
  "diff_loop key nested [] cur images = images"
| "diff_loop key nested (pr # prs) cur images =
     diff_loop key nested prs cur (diff_inner key nested pr cur (map_put (key pr) previous images))"

definition no_nested :: "'a \<Rightarrow> 'a \<Rightarrow> diff_map \<Rightarrow> diff_map" where
  "no_nested pr r images = images"

definition diff_packages :: "Operator \<Rightarrow> Operator \<Rightarrow> diff_map \<Rightarrow> diff_map" where
  "diff_packages prOp op = diff_loop ip_Name no_nested (op_Packages prOp) (op_Packages op)"

definition calculateDiff :: "ImageSetConfiguration \<Rightarrow> ImageSetConfiguration \<Rightarrow> diff_map" where
  "calculateDiff prevConfig cfg =
     diff_loop im_Name no_nested (cfg_AdditionalImages prevConfig) (cfg_AdditionalImages cfg)
       (diff_loop op_Catalog diff_packages (cfg_Operators prevConfig) (cfg_Operators cfg)
         (diff_loop rc_Name no_nested (cfg_Channels prevConfig) (cfg_Channels cfg) []))"

definition diff_customImageParser :: "string \<Rightarrow> ImageRefSchema outcome" where
  "diff_customImageParser ref =
     (let parts = Split ref ''/'' in
      if length parts < 3 then Err (errorf ''[customImageParser] image url seems to be wrong %s '' [ref])
      else
        let component = (if Contains (parts ! 2) ''@'' then Split (parts ! 2) ''@'' ! 0 else parts ! 2)
        in Ok \<lparr>ir_Repository = parts ! 0, ir_Namespace = parts ! 1, ir_Component = component\<rparr>)"

fun diff_batchWorkerConverter :: "string \<Rightarrow> diff_map \<Rightarrow> string list outcome" where
  "diff_batchWorkerConverter destination [] = Ok []"
| "diff_batchWorkerConverter destination ((k, v) # imgs) =
     (if \<not> df_found v \<and> df_from v = ''previous'' then
        ok_bind (diff_customImageParser k) (\<lambda>i.
          ok_map (\<lambda>rest. (destination @ ir_Namespace i @ ''/'' @ ir_Component i) # rest) (diff_batchWorkerConverter destination imgs))
      else diff_batchWorkerConverter destination imgs)"

section \<open>DeleteImages\<close>

text \<open>\<open>MirrorDelete.DeleteImage\<close> of \<open>pkg/mirror/mirror.go\<close>.\<close>

definition DeleteImage :: "string \<Rightarrow> ('w machine, unit) go" where
  "DeleteImage img = go_return ()"

fun delete_all :: "string list \<Rightarrow> ('w machine, unit) go" where
  "delete_all [] = go_return ()"
| "delete_all (s # imgs) = go_bind (DeleteImage s) (\<lambda>_. delete_all imgs)"

definition diff_err :: "string \<Rightarrow> error \<Rightarrow> error" where
  "diff_err what e = Errorf (''[DeleteImages] '' @ what @ '' %v '') [] [e]"

definition DeleteImages ::
  "toml_codec \<Rightarrow> config_codec \<Rightarrow> int \<Rightarrow> CopyOptions \<Rightarrow> ImageSetConfiguration \<Rightarrow> ('w machine, unit) go" where
  "DeleteImages tc cc now opts config =
     go_bind (go_map_err (diff_err ''metadata'') (ask_fs (GetAllMetadata tc cc (gl_Dir (co_Global opts))))) (\<lambda>(metadata, prevCfg).
     go_bind
       (if CheckDiff config prevCfg \<and> \<not> gl_Force (co_Global opts) then
          go_bind (go_lift (diff_batchWorkerConverter (co_Destination opts) (calculateDiff prevCfg config))) delete_all
        else go_return ()) (\<lambda>_.
       on_fs (WriteMetadata tc now opts (gl_Dir (co_Global opts)) (co_Destination opts) metadata)))"

section \<open>Laws of the difference\<close>

lemmas diff_defs = previous_def current_def both_def

lemma diff_values_distinct [simp]: "current \<noteq> previous" "both \<noteq> previous" "previous \<noteq> current" "previous \<noteq> both"
  by (simp_all add: diff_defs)

lemma diff_inner_flat:
  "map_of (diff_inner key no_nested pr rs m) n \<in>
     (if n \<in> key ` set rs then {Some current, Some both} else {map_of m n})"
proof (induction rs arbitrary: m)
  case (Cons r rs)
  from Cons.IH[of "if r = pr then map_put (key pr) both (map_put (key r) current m) else map_put (key r) current m"]
  show ?case by (auto simp: no_nested_def Let_def split: if_splits)
qed simp

lemma diff_loop_flat:
  "map_of (diff_loop key no_nested prs cur m) n \<in>
     (if n \<in> key ` set prs \<and> n \<notin> key ` set cur then {Some previous}
      else if n \<in> key ` set cur \<and> prs \<noteq> [] then {Some current, Some both}
      else {map_of m n})"
proof (induction prs arbitrary: m)
  case (Cons pr prs)
  let ?m = "diff_inner key no_nested pr cur (map_put (key pr) previous m)"
  have i: "map_of ?m n \<in> (if n \<in> key ` set cur then {Some current, Some both} else {map_of (map_put (key pr) previous m) n})"
    by (rule diff_inner_flat)
  from Cons.IH[of ?m] i show ?case by (cases "prs = []") (auto split: if_splits)
qed simp

lemma distinct_diff_inner:
  assumes "\<And>pr r m. distinct (map fst m) \<Longrightarrow> distinct (map fst (nested pr r m))"
  shows "distinct (map fst m) \<Longrightarrow> distinct (map fst (diff_inner key nested pr rs m))"
  by (induction rs arbitrary: m) (simp_all add: Let_def distinct_map_put assms)

lemma distinct_diff_loop:
  assumes "\<And>pr r m. distinct (map fst m) \<Longrightarrow> distinct (map fst (nested pr r m))"
  shows "distinct (map fst m) \<Longrightarrow> distinct (map fst (diff_loop key nested prs cur m))"
  by (induction prs arbitrary: m) (simp_all add: distinct_map_put distinct_diff_inner assms)

lemma distinct_calculateDiff: "distinct (map fst (calculateDiff prev cfg))"
  unfolding calculateDiff_def
  by (intro distinct_diff_loop) (simp_all add: no_nested_def diff_packages_def distinct_diff_loop)

lemma diff_converter_Ok:
  assumes "diff_batchWorkerConverter dest imgs = Ok out" and "distinct (map fst imgs)"
  shows "set out = {dest @ ir_Namespace i @ ''/'' @ ir_Component i | n i. map_of imgs n = Some previous \<and> diff_customImageParser n = Ok i}"
    and "map_of imgs n = Some previous \<Longrightarrow> \<exists>i. diff_customImageParser n = Ok i"
proof -
  have flag: "\<not> df_found v \<and> df_from v = ''previous'' \<longleftrightarrow> v = previous" for v :: DiffSchema
    by (cases v) (auto simp: previous_def)
  have "set out = {dest @ ir_Namespace i @ ''/'' @ ir_Component i | n i. (n, previous) \<in> set imgs \<and> diff_customImageParser n = Ok i} \<and>
    (\<forall>n. (n, previous) \<in> set imgs \<longrightarrow> (\<exists>i. diff_customImageParser n = Ok i))"
    using assms(1)
  proof (induction imgs arbitrary: out)
    case (Cons kv imgs)
    obtain k v where kv: "kv = (k, v)" by fastforce
    show ?case
    proof (cases "v = previous")
      case True
      with Cons.prems kv flag[of v] obtain i rest where i: "diff_customImageParser k = Ok i"
        and rest: "diff_batchWorkerConverter dest imgs = Ok rest" "out = (dest @ ir_Namespace i @ ''/'' @ ir_Component i) # rest"
        by (auto simp: ok_bind_eq_Ok ok_map_eq_Ok)
      from Cons.IH[OF rest(1)] rest(2) i kv True show ?thesis by auto
    next
      case False
      with Cons.prems kv flag[of v] have "diff_batchWorkerConverter dest imgs = Ok out" by auto
      from Cons.IH[OF this] kv False show ?thesis by auto
    qed
  qed simp
  then show "set out = {dest @ ir_Namespace i @ ''/'' @ ir_Component i | n i. map_of imgs n = Some previous \<and> diff_customImageParser n = Ok i}"
    and "map_of imgs n = Some previous \<Longrightarrow> \<exists>i. diff_customImageParser n = Ok i"
    using assms(2) by (auto simp: map_of_eq_Some_iff)
qed

lemma calculateDiff_additional:
  assumes "n \<in> im_Name ` set (cfg_AdditionalImages prev)"
  shows "map_of (calculateDiff prev cfg) n = Some previous \<longleftrightarrow> n \<notin> im_Name ` set (cfg_AdditionalImages cfg)"
  using diff_loop_flat[of im_Name "cfg_AdditionalImages prev" "cfg_AdditionalImages cfg"
      "diff_loop op_Catalog diff_packages (cfg_Operators prev) (cfg_Operators cfg)
        (diff_loop rc_Name no_nested (cfg_Channels prev) (cfg_Channels cfg) [])" n] assms
  unfolding calculateDiff_def by (auto split: if_splits)

text \<open>With two catalogs, a package that both configurations have in the first one is reported as
  removed, since the second catalog does not have it.\<close>

lemma package_reported_removed:
  "let pkg = \<lparr>ip_Name = ''q/ns/pkg'', ip_Channels = [], ip_IncludeBundle = \<lparr>ib_MinVersion = [], ib_MaxVersion = [], ib_MinBundle = []\<rparr>\<rparr>;
       op = (\<lambda>c ps. \<lparr>op_IncludeConfig = \<lparr>inc_Packages = ps\<rparr>, op_Catalog = c, op_TargetName = [], op_TargetTag = [], op_Full = False,
                op_SkipDependencies = False, op_OriginalRef = []\<rparr>);
       cfg = zero_config\<lparr>isc_Spec := (isc_Spec zero_config)\<lparr>sp_Mirror := (cfg_Mirror zero_config)\<lparr>mi_Operators := [op ''a'' [pkg], op ''b'' []]\<rparr>\<rparr>\<rparr>
   in map_of (calculateDiff cfg cfg) ''q/ns/pkg'' = Some previous"
  by code_simp

section \<open>Laws of the metadata\<close>

lemma getPreviousISC_add_item:
  "getPreviousISC (add_item now dir dest sch) = Ok (dest, isc_file dir (length (sq_Item (ss_Sequence sch))))"
  by (simp add: getPreviousISC_def add_item_def new_item_def isc_file_def Let_def)

lemma add_item_current: "filter it_Current (sq_Item (ss_Sequence (add_item now dir dest sch))) = [new_item now dir dest sch]"
  by (simp add: add_item_def new_item_def Let_def filter_empty_conv)

lemma isc_name: "CHR ''/'' \<notin> set (''.imagesetconfig-'' @ Itoa n @ ''.yaml'')"
  using Itoa_digits[of "CHR ''/''" n] by (auto simp: is_digit_def)

lemma metadata_paths:
  assumes "dir \<noteq> []"
  shows "path_of (dir @ ''/'' @ metadataFile) = path_of dir @ [''.metadata.toml'']"
    and "path_of (isc_file dir n) = path_of dir @ [''.imagesetconfig-'' @ Itoa n @ ''.yaml'']"
    and "\<not> prefix (path_of (isc_file dir n)) (path_of (dir @ ''/'' @ metadataFile))"
proof -
  show a: "path_of (dir @ ''/'' @ metadataFile) = path_of dir @ [''.metadata.toml'']"
    unfolding metadataFile_def by (rule path_of_snoc[OF assms]) simp_all
  have "isc_file dir n = dir @ ''/'' @ (''.imagesetconfig-'' @ Itoa n @ ''.yaml'')" by (simp add: isc_file_def)
  then show b: "path_of (isc_file dir n) = path_of dir @ [''.imagesetconfig-'' @ Itoa n @ ''.yaml'']"
    using path_of_snoc[OF assms isc_name] by simp
  show "\<not> prefix (path_of (isc_file dir n)) (path_of (dir @ ''/'' @ metadataFile))"
    unfolding a b by simp
qed

lemma DeleteImages_keeps_world: "mc_world (snd (DeleteImages tc cc now opts config m)) = mc_world m"
proof -
  have del: "delete_all imgs t = (Ok (), t)" for imgs and t :: "'a machine"
    by (induction imgs) (simp_all add: DeleteImage_def go_return_def)
  show ?thesis
    by (auto simp: DeleteImages_def go_bind_def go_lift_def go_map_err_def ask_fs_def on_fs_def go_return_def del
        split: prod.splits outcome.splits)
qed

lemma diff_loop_previous:
  "map_of (diff_loop key no_nested prs cur []) n = Some previous \<longleftrightarrow> n \<in> key ` set prs - key ` set cur"
proof (cases "n \<in> key ` set prs \<and> n \<notin> key ` set cur")
  case True
  with diff_loop_flat[of key prs cur "[]" n] show ?thesis by simp
next
  case False
  from diff_loop_flat[of key prs cur "[]" n, unfolded if_not_P[OF False]]
  have "map_of (diff_loop key no_nested prs cur []) n \<in> {Some current, Some both, None}"
    by (cases "n \<in> key ` set cur \<and> prs \<noteq> []") (simp_all, blast)
  then have "map_of (diff_loop key no_nested prs cur []) n \<noteq> Some previous" by auto
  with False show ?thesis by simp
qed

section \<open>Properties\<close>

text \<open>C14: the images DeleteImages selects, for configurations whose previous version has additional
  images only, are exactly the set difference: one entry, under the destination, for every
  additional image of the previous configuration whose name is not in the new one.\<close>

theorem deleted_set_difference:
  assumes "cfg_Channels prev = []" and "cfg_Operators prev = []"
    and "diff_batchWorkerConverter dest (calculateDiff prev cfg) = Ok out"
  shows "set out = {dest @ ir_Namespace i @ ''/'' @ ir_Component i | n i.
           n \<in> im_Name ` set (cfg_AdditionalImages prev) - im_Name ` set (cfg_AdditionalImages cfg) \<and> diff_customImageParser n = Ok i}"
proof -
  have "map_of (calculateDiff prev cfg) n = Some previous \<longleftrightarrow>
      n \<in> im_Name ` set (cfg_AdditionalImages prev) - im_Name ` set (cfg_AdditionalImages cfg)" for n
    unfolding calculateDiff_def assms(1,2) diff_loop.simps by (rule diff_loop_previous)
  with diff_converter_Ok(1)[OF assms(3) distinct_calculateDiff] show ?thesis by simp
qed

lemma metadata_roundtrip_parts:
  assumes "dir \<noteq> []"
    and "tc_encode tc (add_item now dir dest sch) = (txt, None)" and "tc_decode tc txt = Ok (add_item now dir dest sch)"
    and "WriteMetadata tc now opts dir dest sch s = (Ok (), s')"
    and "\<And>p. fs_fault s ''read'' p = None"
    and "\<not> prefix (path_of (dir @ ''/'' @ metadataFile)) (path_of (gl_ConfigPath (co_Global opts)))"
  shows "readMetaData tc dir s' = Ok (add_item now dir dest sch)"
    and "filter it_Current (sq_Item (ss_Sequence (add_item now dir dest sch))) = [new_item now dir dest sch]"
    and "getPreviousISC (add_item now dir dest sch) = Ok (dest, isc_file dir (length (sq_Item (ss_Sequence sch))))"
    and "ReadFile (isc_file dir (length (sq_Item (ss_Sequence sch)))) s' = ReadFile (gl_ConfigPath (co_Global opts)) s"
proof -
  let ?f = "dir @ ''/'' @ metadataFile" and ?n = "length (sq_Item (ss_Sequence sch))"
  have isc: "it_Imagesetconfig (new_item now dir dest sch) = isc_file dir ?n" by (simp add: new_item_def Let_def)
  note w = assms(4)[unfolded WriteMetadata_def Let_def Create_def assms(2) prod.case option.case isc]
  obtain u1 s1 where s1: "WriteFile ?f [] s = (Ok u1, s1)" and w1: "go_bind (WriteFile ?f txt) (\<lambda>_.
      go_bind (\<lambda>s. (ReadFile (gl_ConfigPath (co_Global opts)) s, s)) (WriteFile (isc_file dir ?n))) s1 = (Ok (), s')"
    by (rule go_bind_OkE[OF w]) blast
  obtain u2 s2 where s2: "WriteFile ?f txt s1 = (Ok u2, s2)"
    and w2: "go_bind (\<lambda>s. (ReadFile (gl_ConfigPath (co_Global opts)) s, s)) (WriteFile (isc_file dir ?n)) s2 = (Ok (), s')"
    by (rule go_bind_OkE[OF w1]) blast
  obtain data where data: "ReadFile (gl_ConfigPath (co_Global opts)) s2 = Ok data" and s': "WriteFile (isc_file dir ?n) data s2 = (Ok (), s')"
    by (rule go_bind_OkE[OF w2]) blast
  note s1 = s1[unfolded unit_eq[of u1]] and s2 = s2[unfolded unit_eq[of u2]]
  have fault: "fs_fault s1 ''read'' p = None" "fs_fault s2 ''read'' p = None" for p
    using assms(5) WriteFile_fault[OF s1] WriteFile_fault[OF s2] by simp_all
  have "ReadFile ?f s' = Ok txt"
    using ReadFile_WriteFile_other[OF s' metadata_paths(3)[OF assms(1)]] ReadFile_WriteFile[OF s2 fault(1)] by simp
  with assms(3) show "readMetaData tc dir s' = Ok (add_item now dir dest sch)" by (simp add: readMetaData_def)
  show "ReadFile (isc_file dir ?n) s' = ReadFile (gl_ConfigPath (co_Global opts)) s"
    using ReadFile_WriteFile[OF s' fault(2)] data ReadFile_WriteFile_other[OF s2 assms(6)] ReadFile_WriteFile_other[OF s1 assms(6)] by simp
qed (rule add_item_current getPreviousISC_add_item)+

lemma WriteMetadata_encodes:
  assumes "WriteMetadata tc now opts dir dest sch s = (Ok (), s')"
  obtains out where "tc_encode tc (add_item now dir dest sch) = (out, None)"
  using assms by (auto simp: WriteMetadata_def Let_def go_bind_def split: prod.splits option.splits outcome.splits)

text \<open>C10: writing the metadata of a run and reading it back, for a directory that is named, a file system without
  read faults and a configuration file that is not the metadata file or below it: the sequence read has the
  title and the owner of the one written, every item of the earlier runs, in order and unchanged but none
  of them current, and after them one new item, which is current and has its position as value, the time, the
  destination and the file of the saved configuration; the configuration found for the next
  comparison is that file, and its content is the content of the configuration file.  The law used of the TOML
  library is that it decodes what it has encoded.\<close>

theorem metadata_roundtrip:
  assumes "dir \<noteq> []"
    and "\<And>sch txt. tc_encode tc sch = (txt, None) \<Longrightarrow> tc_decode tc txt = Ok sch"
    and "WriteMetadata tc now opts dir dest sch s = (Ok (), s')"
    and "\<And>p. fs_fault s ''read'' p = None"
    and "\<not> prefix (path_of (dir @ ''/.metadata.toml'')) (path_of (gl_ConfigPath (co_Global opts)))"
    and "earlier = sq_Item (ss_Sequence sch)" and "file = dir @ ''/.imagesetconfig-'' @ Itoa (length earlier) @ ''.yaml''"
  shows "\<exists>sch'. readMetaData tc dir s' = Ok sch' \<and> ss_Title sch' = ss_Title sch \<and> ss_Owner sch' = ss_Owner sch \<and>
    sq_Item (ss_Sequence sch') = map (\<lambda>i. i\<lparr>it_Current := False\<rparr>) earlier @
      [\<lparr>it_Value = int (length earlier), it_Timestamp = now, it_Imagesetconfig = file, it_Current = True, it_Destination = dest\<rparr>] \<and>
    getPreviousISC sch' = Ok (dest, file) \<and> ReadFile file s' = ReadFile (gl_ConfigPath (co_Global opts)) s"
proof -
  obtain out where enc: "tc_encode tc (add_item now dir dest sch) = (out, None)" by (rule WriteMetadata_encodes[OF assms(3)])
  have np: "\<not> prefix (path_of (dir @ ''/'' @ metadataFile)) (path_of (gl_ConfigPath (co_Global opts)))"
    using assms(5) by (simp add: metadataFile_def)
  have "file = isc_file dir (length (sq_Item (ss_Sequence sch)))" using assms(6,7) by (simp add: isc_file_def)
  with metadata_roundtrip_parts[OF assms(1) enc assms(2)[OF enc] assms(3,4) np] assms(6)
  show ?thesis by (intro exI[of _ "add_item now dir dest sch"]) (simp add: add_item_def new_item_def Let_def)
qed

lemma ReadConfig_content:
  "p \<noteq> [] \<Longrightarrow> q \<noteq> [] \<Longrightarrow> ReadFile p s = ReadFile q t \<Longrightarrow> ReadConfig cc p s = ReadConfig cc q t"
  by (simp add: ReadConfig_def ReadFile_clean)

lemma DeleteImages_OkE:
  assumes "DeleteImages tc cc now opts config m = (Ok (), m')"
  obtains metadata prevCfg where "GetAllMetadata tc cc (gl_Dir (co_Global opts)) (mc_fs m) = Ok (metadata, prevCfg)"
    and "WriteMetadata tc now opts (gl_Dir (co_Global opts)) (co_Destination opts) metadata (mc_fs m) = (Ok (), mc_fs m')"
proof -
  have del: "delete_all imgs t = (Ok (), t)" for imgs and t :: "'a machine"
    by (induction imgs) (simp_all add: DeleteImage_def go_return_def)
  from assms show thesis
    by (auto simp: DeleteImages_def go_bind_def go_lift_def go_map_err_def ask_fs_def on_fs_def go_return_def del intro!: that
        split: prod.splits outcome.splits if_splits)
qed

text \<open>C11: a run of DeleteImages that succeeds, for the configuration loaded from the configuration file,
  hands that configuration over to the next run: what the next run reads back as metadata is the sequence
  of the earlier runs with one new, current item, and the previous configuration it compares with is
  the configuration of this run, and a second run with the same configuration
  selects no image and only writes its metadata.  The law
  used of the TOML library is that it decodes what it has encoded.\<close>

theorem DeleteImages_handover:
  assumes run: "DeleteImages tc cc now opts config m = (Ok (), m')"
    and dir: "gl_Dir (co_Global opts) = dir" "dir \<noteq> []"
    and cfg: "ReadConfig cc configPath (mc_fs m) = (config, None)"
    and path: "gl_ConfigPath (co_Global opts) = configPath" "configPath \<noteq> []"
      "\<not> prefix (path_of (dir @ ''/'' @ metadataFile)) (path_of configPath)"
    and toml: "\<And>sch txt. tc_encode tc sch = (txt, None) \<Longrightarrow> tc_decode tc txt = Ok sch"
    and reads: "\<And>p. fs_fault (mc_fs m) ''read'' p = None"
  shows "\<exists>metadata prevCfg. GetAllMetadata tc cc dir (mc_fs m) = Ok (metadata, prevCfg) \<and>
    GetAllMetadata tc cc dir (mc_fs m') = Ok (add_item now dir (co_Destination opts) metadata, config) \<and>
    (\<forall>now'. DeleteImages tc cc now' opts config m' =
       on_fs (WriteMetadata tc now' opts dir (co_Destination opts) (add_item now dir (co_Destination opts) metadata)) m')"
proof -
  obtain metadata prevCfg where old: "GetAllMetadata tc cc dir (mc_fs m) = Ok (metadata, prevCfg)"
    and w: "WriteMetadata tc now opts dir (co_Destination opts) metadata (mc_fs m) = (Ok (), mc_fs m')"
    by (rule DeleteImages_OkE[OF run, unfolded dir(1)])
  obtain toml_text where enc: "tc_encode tc (add_item now dir (co_Destination opts) metadata) = (toml_text, None)"
    by (rule WriteMetadata_encodes[OF w])
  note parts = metadata_roundtrip_parts[OF dir(2) enc toml[OF enc] w reads, unfolded path(1), OF path(3)]
  have "isc_file dir (length (sq_Item (ss_Sequence metadata))) \<noteq> []" by (simp add: isc_file_def)
  from ReadConfig_content[OF this path(2) parts(4)] cfg parts(1,3)
  have new: "GetAllMetadata tc cc dir (mc_fs m') = Ok (add_item now dir (co_Destination opts) metadata, config)"
    by (simp add: GetAllMetadata_def)
  then have "DeleteImages tc cc now' opts config m' =
      on_fs (WriteMetadata tc now' opts dir (co_Destination opts) (add_item now dir (co_Destination opts) metadata)) m'" for now'
    by (simp add: DeleteImages_def CheckDiff_def ask_fs_def dir(1) go_bind_def go_map_err_def)
  with old new show ?thesis by blast
qed

section \<open>Witnesses\<close>

definition demo_additional :: "string list \<Rightarrow> ImageSetConfiguration" where
  "demo_additional names =
     zero_config\<lparr>isc_Spec := (isc_Spec zero_config)\<lparr>sp_Mirror := (cfg_Mirror zero_config)\<lparr>mi_AdditionalImages := map (\<lambda>n. \<lparr>im_Name = n\<rparr>) names\<rparr>\<rparr>\<rparr>"

theorem deleted_set_difference_witness:
  "set [''docker://reg/ns/b''] =
   {''docker://reg/'' @ ir_Namespace i @ ''/'' @ ir_Component i | n i.
     n \<in> im_Name ` set (cfg_AdditionalImages (demo_additional [''q/ns/a'', ''q/ns/b'']))
       - im_Name ` set (cfg_AdditionalImages (demo_additional [''q/ns/a''])) \<and> diff_customImageParser n = Ok i}"
proof (rule deleted_set_difference)
  show "diff_batchWorkerConverter ''docker://reg/'' (calculateDiff (demo_additional [''q/ns/a'', ''q/ns/b'']) (demo_additional [''q/ns/a''])) =
    Ok [''docker://reg/ns/b'']" by code_simp
qed (simp_all add: demo_additional_def zero_config_def)

definition demo_schema :: SequenceSchema where
  "demo_schema = \<lparr>ss_Title = ''t'', ss_Owner = ''o'', ss_Sequence = \<lparr>sq_Item = []\<rparr>\<rparr>"

definition demo_runs :: SequenceSchema where
  "demo_runs = add_item 5 ''w'' ''oci://x'' demo_schema"

definition demo_runs_toml :: toml_codec where
  "demo_runs_toml =
     (let next = add_item 7 ''w'' ''oci://out'' demo_runs in
      \<lparr>tc_decode = (\<lambda>data. Ok (if data = ''2'' then next else demo_runs)),
       tc_encode = (\<lambda>sch. if sch = next then (''2'', None) else ([], Some (errorf ''toml'' [])))\<rparr>)"

definition demo_runs_opts :: CopyOptions where
  "demo_runs_opts = demo_opts\<lparr>co_Global := demo_global\<lparr>gl_ConfigPath := ''isc.yaml'', gl_Dir := ''w''\<rparr>\<rparr>"

definition demo_runs_machine :: "unit machine" where
  "demo_runs_machine =
     \<lparr>mc_fs = \<lparr>fs_nodes = [([''w''], Dir), ([''w'', ''.metadata.toml''], File ''1''), ([''isc.yaml''], File ''fast,stable''),
                         ([''w'', ''.imagesetconfig-0.yaml''], File ''fast'')], fs_fault = (\<lambda>_ _. None)\<rparr>, mc_world = ()\<rparr>"

lemma demo_runs_law: "tc_encode demo_runs_toml sch = (txt, None) \<Longrightarrow> tc_decode demo_runs_toml txt = Ok sch"
  by (auto simp: demo_runs_toml_def Let_def split: if_splits)

theorem metadata_roundtrip_witness:
  "\<exists>sch' s'. WriteMetadata demo_runs_toml 7 demo_runs_opts ''w'' ''oci://out'' demo_runs (mc_fs demo_runs_machine) = (Ok (), s') \<and>
     readMetaData demo_runs_toml ''w'' s' = Ok sch' \<and>
     map it_Timestamp (sq_Item (ss_Sequence sch')) = [5, 7] \<and> map it_Current (sq_Item (ss_Sequence sch')) = [False, True] \<and>
     getPreviousISC sch' = Ok (''oci://out'', ''w/.imagesetconfig-1.yaml'') \<and>
     ReadFile ''w/.imagesetconfig-1.yaml'' s' = Ok ''fast,stable''"
proof -
  let ?s = "mc_fs demo_runs_machine"
  let ?w = "WriteMetadata demo_runs_toml 7 demo_runs_opts ''w'' ''oci://out'' demo_runs ?s"
  have "fst ?w = Ok ()" by code_simp
  then have w: "?w = (Ok (), snd ?w)" by (simp add: prod_eq_iff)
  have nf: "fs_fault ?s ''read'' p = None" for p by (simp add: demo_runs_machine_def)
  have np: "\<not> prefix (path_of (''w'' @ ''/.metadata.toml'')) (path_of (gl_ConfigPath (co_Global demo_runs_opts)))" by code_simp
  have ne: "''w'' \<noteq> []" by simp
  have items: "map it_Timestamp (sq_Item (ss_Sequence demo_runs)) = [5]" "length (sq_Item (ss_Sequence demo_runs)) = 1" by code_simp+
  have saved: "''w'' @ ''/.imagesetconfig-'' @ Itoa 1 @ ''.yaml'' = ''w/.imagesetconfig-1.yaml''" by code_simp
  have cfg: "ReadFile (gl_ConfigPath (co_Global demo_runs_opts)) ?s = Ok ''fast,stable''" by code_simp
  obtain i where i: "sq_Item (ss_Sequence demo_runs) = [i]" "it_Timestamp i = 5" using items by (auto simp: length_Suc_conv)
  have "\<exists>sch'. readMetaData demo_runs_toml ''w'' (snd ?w) = Ok sch' \<and> ss_Title sch' = ss_Title demo_runs \<and> ss_Owner sch' = ss_Owner demo_runs \<and>
      sq_Item (ss_Sequence sch') = map (\<lambda>i. i\<lparr>it_Current := False\<rparr>) [i] @
        [\<lparr>it_Value = int (length [i]), it_Timestamp = 7, it_Imagesetconfig = ''w/.imagesetconfig-1.yaml'', it_Current = True, it_Destination = ''oci://out''\<rparr>] \<and>
      getPreviousISC sch' = Ok (''oci://out'', ''w/.imagesetconfig-1.yaml'') \<and>
      ReadFile ''w/.imagesetconfig-1.yaml'' (snd ?w) = ReadFile (gl_ConfigPath (co_Global demo_runs_opts)) ?s"
    by (rule metadata_roundtrip[OF ne demo_runs_law w nf np]) (simp_all add: i(1) saved[symmetric])
  with w i(2) cfg show ?thesis by (elim exE, intro exI[of _ "snd ?w"] exI) auto
qed

theorem DeleteImages_handover_witness:
  "let config = fst (ReadConfig demo_config_codec ''isc.yaml'' (mc_fs demo_runs_machine));
       m' = snd (DeleteImages demo_runs_toml demo_config_codec 7 demo_runs_opts config demo_runs_machine) in
   \<exists>metadata prevCfg. GetAllMetadata demo_runs_toml demo_config_codec ''w'' (mc_fs demo_runs_machine) = Ok (metadata, prevCfg) \<and>
     GetAllMetadata demo_runs_toml demo_config_codec ''w'' (mc_fs m') = Ok (add_item 7 ''w'' ''oci://out'' metadata, config)"
proof -
  let ?config = "fst (ReadConfig demo_config_codec ''isc.yaml'' (mc_fs demo_runs_machine))"
  let ?run = "DeleteImages demo_runs_toml demo_config_codec 7 demo_runs_opts ?config demo_runs_machine"
  have "fst ?run = Ok ()" by code_simp
  then have run: "?run = (Ok (), snd ?run)" by (simp add: prod_eq_iff)
  have "snd (ReadConfig demo_config_codec ''isc.yaml'' (mc_fs demo_runs_machine)) = None" by code_simp
  then have cfg: "ReadConfig demo_config_codec ''isc.yaml'' (mc_fs demo_runs_machine) = (?config, None)" by (simp add: prod_eq_iff)
  have opts: "gl_Dir (co_Global demo_runs_opts) = ''w''" "gl_ConfigPath (co_Global demo_runs_opts) = ''isc.yaml''"
    "co_Destination demo_runs_opts = ''oci://out''" by (simp_all add: demo_runs_opts_def demo_opts_def)
  have np: "\<not> prefix (path_of (''w'' @ ''/'' @ metadataFile)) (path_of ''isc.yaml'')" by code_simp
  have nf: "fs_fault (mc_fs demo_runs_machine) ''read'' p = None" for p by (simp add: demo_runs_machine_def)
  have ne: "''w'' \<noteq> []" "''isc.yaml'' \<noteq> []" by simp_all
  from DeleteImages_handover[OF run opts(1) ne(1) cfg opts(2) ne(2) np demo_runs_law nf] show ?thesis
    unfolding Let_def opts(3) by blast
qed

end
