(* ===== verification/Logger.thy ===== *)
theory Logger
  imports Go_Prelude
begin

text \<open>
  The logger: \<open>pkg/log/logger.go\<close> over \<open>github.com/microlib/simple\<close>.

  A logger is its level; a call with a formatted message prints a tagged line or nothing.  The other
  theories leave the log output out of their models, since nothing in the program reads it back.
\<close>

datatype log_call = Error | Warn | Info | Debug | Trace

record PluggableLogger =
  lg_Level :: string

definition log_New :: "string \<Rightarrow> PluggableLogger" where
  "log_New level = \<lparr>lg_Level = level\<rparr>"

definition log_Level :: "string \<Rightarrow> PluggableLogger \<Rightarrow> PluggableLogger" where
  "log_Level level c = c\<lparr>lg_Level := level\<rparr>"

text \<open>The levels at which a call prints; an error always does.\<close>

fun log_enabled :: "log_call \<Rightarrow> string \<Rightarrow> bool" where
  "log_enabled Error level = True"
| "log_enabled Warn level = (level = ''warn'' \<or> level = ''debug'' \<or> level = ''info'' \<or> level = ''trace'')"
| "log_enabled Info level = (level = ''info'' \<or> level = ''debug'' \<or> level = ''trace'')"
| "log_enabled Debug level = (level = ''debug'' \<or> level = ''trace'')"
| "log_enabled Trace level = (level = ''trace'')"

fun log_tag :: "log_call \<Rightarrow> string" where
  "log_tag Error = ''ERROR''"
| "log_tag Warn = ''WARN''"
| "log_tag Info = ''INFO''"
| "log_tag Debug = ''DEBUG''"
| "log_tag Trace = ''TRACE''"

definition log_print :: "PluggableLogger \<Rightarrow> log_call \<Rightarrow> string \<Rightarrow> (string \<times> string) list" where
  "log_print c call msg = (if log_enabled call (lg_Level c) then [(log_tag call, msg)] else [])"

text \<open>The calls are ordered: what prints at a level includes everything more severe.\<close>

fun severity :: "log_call \<Rightarrow> nat" where
  "severity Error = 0"
| "severity Warn = 1"
| "severity Info = 2"
| "severity Debug = 3"
| "severity Trace = 4"

lemma log_enabled_mono: "log_enabled call level \<Longrightarrow> severity call' \<le> severity call \<Longrightarrow> log_enabled call' level"
  by (cases call; cases call') auto

lemma log_print_level: "log_print (log_Level level c) call msg = log_print (log_New level) call msg"
  by (simp add: log_print_def log_Level_def log_New_def)

end
