(* ===== verification/Executor.thy ===== *)
theory Executor
  imports Batch Config Diff Logger Release Additional_Collector Release_Collector Operator_Collector
begin

text \<open>
  The command: \<open>pkg/cli/executor.go\<close> and \<open>cmd/mirror/main.go\<close>.

  \<open>NewMirrorCmd\<close> is the options the flags write to and the flags themselves; the global, shared and
  deprecated options are shared by pointers in the code, so a flag updates every copy of them.
  \<open>Executor_Validate\<close>, \<open>Executor_Complete\<close> and \<open>Executor_Run\<close> are the methods of
  \<open>ExecutorSchema\<close>.  The interfaces the executor holds (collectors, batch worker) are the
  functions they run; \<open>Complete\<close> fills them from the models of the components.  The record
  \<open>env\<close> holds what comes from outside: the image library, the decoders, the network, the
  environment, the clock, and \<open>en_worker\<close>, a schedule of the batch worker.
\<close>

section \<open>Options and flags\<close>

definition logsDir :: string where "logsDir = ''logs''"
definition workingDir :: string where "workingDir = ''working-dir''"
definition signaturesDir :: string where "signaturesDir = ''signatures''"

definition new_global :: GlobalOptions where
  "new_global =
     \<lparr>gl_LogLevel = ''info'', gl_TlsVerify = False, gl_PolicyPath = [], gl_InsecurePolicy = True,
      gl_RegistriesDirPath = [], gl_OverrideArch = [], gl_OverrideOS = [], gl_OverrideVariant = [],
      gl_CommandTimeout = 0, gl_RegistriesConfPath = [], gl_TmpDir = [], gl_Dir = ''working-dir'',
      gl_ConfigPath = [], gl_ReleaseFrom = [], gl_OperatorsFrom = [], gl_AdditionalFrom = [],
      gl_Quiet = False, gl_Force = False\<rparr>"

definition new_options :: "(string \<Rightarrow> string) \<Rightarrow> CopyOptions" where
  "new_options getenv =
     (let sharedOpts = snd (SharedImageFlags getenv)
      in \<lparr>co_Global = new_global, co_DeprecatedTLSVerify = None,
          co_SrcImage = snd (ImageFlags new_global sharedOpts (Some None) ''src-'' ''screds''),
          co_DestImage = snd (ImageDestFlags new_global sharedOpts (Some None) ''dest-'' ''dcreds''),
          co_RetryOpts = snd RetryFlags, co_AdditionalTags = [], co_RemoveSignatures = False,
          co_SignByFingerprint = [], co_SignBySigstorePrivateKey = [], co_SignPassphraseFile = [], co_SignIdentity = [],
          co_DigestFile = [], co_Format = [], co_All = False, co_MultiArch = [], co_PreserveDigests = False,
          co_EncryptLayer = [], co_EncryptionKeys = [], co_DecryptionKeys = [], co_Mode = [], co_Dev = False,
          co_Destination = [], co_UUID = [], co_ImageType = []\<rparr>)"

text \<open>A change to an image option of source and destination, and of a value all of them share.\<close>

definition both_images :: "(imageOptions \<Rightarrow> imageOptions) \<Rightarrow> CopyOptions \<Rightarrow> CopyOptions" where
  "both_images f opts =
     opts\<lparr>co_SrcImage := f (co_SrcImage opts),
          co_DestImage := (co_DestImage opts)\<lparr>do_imageOptions := f (do_imageOptions (co_DestImage opts))\<rparr>\<rparr>"

definition set_global :: "GlobalOptions \<Rightarrow> CopyOptions \<Rightarrow> CopyOptions" where
  "set_global g opts = both_images (\<lambda>i. i\<lparr>io_global := g\<rparr>) (opts\<lparr>co_Global := g\<rparr>)"

definition set_shared :: "SharedImageOptions \<Rightarrow> CopyOptions \<Rightarrow> CopyOptions" where
  "set_shared sh opts = both_images (\<lambda>i. i\<lparr>io_shared := sh\<rparr>) opts"

definition set_deprecated :: "DeprecatedTLSVerifyOption \<Rightarrow> CopyOptions \<Rightarrow> CopyOptions" where
  "set_deprecated d opts = both_images (\<lambda>i. i\<lparr>io_deprecatedTLSVerify := Some d\<rparr>) (opts\<lparr>co_DeprecatedTLSVerify := d\<rparr>)"

definition lift_flag :: "('o \<Rightarrow> 'c) \<Rightarrow> ('c \<Rightarrow> 'o \<Rightarrow> 'o) \<Rightarrow> 'c flag \<Rightarrow> 'o flag" where
  "lift_flag get put f =
     \<lparr>fl_name = fl_name f, fl_hidden = fl_hidden f, fl_set = (\<lambda>v o'. ok_map (\<lambda>c. put c o') (fl_set f v (get o')))\<rparr>"

definition global_flags :: "GlobalOptions flag list" where
  "global_flags =
     [string_flag ''config'' (\<lambda>v g. g\<lparr>gl_ConfigPath := v\<rparr>), string_flag ''loglevel'' (\<lambda>v g. g\<lparr>gl_LogLevel := v\<rparr>),
      string_flag ''dir'' (\<lambda>v g. g\<lparr>gl_Dir := v\<rparr>), bool_flag ''quiet'' (\<lambda>v g. g\<lparr>gl_Quiet := v\<rparr>),
      bool_flag ''force'' (\<lambda>v g. g\<lparr>gl_Force := v\<rparr>)]"

definition cmd_flags :: "(string \<Rightarrow> string) \<Rightarrow> CopyOptions flag list" where
  "cmd_flags getenv =
     (let sharedOpts = snd (SharedImageFlags getenv) in
      map (lift_flag co_Global set_global) global_flags @
      map (lift_flag (io_shared \<circ> co_SrcImage) set_shared) (fst (SharedImageFlags getenv)) @
      map (lift_flag co_RetryOpts (\<lambda>r o'. o'\<lparr>co_RetryOpts := r\<rparr>)) (fst RetryFlags) @
      map (lift_flag co_DeprecatedTLSVerify set_deprecated) DeprecatedTLSVerifyFlags @
      map (lift_flag co_SrcImage (\<lambda>i o'. o'\<lparr>co_SrcImage := i\<rparr>)) (fst (ImageFlags new_global sharedOpts (Some None) ''src-'' ''screds'')) @
      map (lift_flag co_DestImage (\<lambda>i o'. o'\<lparr>co_DestImage := i\<rparr>)) (fst (ImageDestFlags new_global sharedOpts (Some None) ''dest-'' ''dcreds'')))"

section \<open>Validate\<close>

definition Executor_Validate :: "config_codec \<Rightarrow> CopyOptions \<Rightarrow> string list \<Rightarrow> fs \<Rightarrow> unit outcome" where
  "Executor_Validate cc opts dest s =
     (if length (gl_ConfigPath (co_Global opts)) = 0 then Err (errorf ''use the --config flag it is mandatory'' [])
      else ok_bind (go_index dest 0) (\<lambda>dest0.
        ok_bind
          (if Contains dest0 dockerProtocol then
             (case ReadConfig cc (gl_ConfigPath (co_Global opts)) s of
                (_, Some err) \<Rightarrow> Err err
              | (cfg, None) \<Rightarrow>
                  if length (pf_Release (cfg_Platform cfg)) = 0
                  then Err (errorf ''ensure the release field is set and has dir:// prefix'' [])
                  else if list_ex (\<lambda>x. \<not> Contains (op_Catalog x) dirProtocol) (cfg_Operators cfg)
                  then Err (errorf ''ensure the catalog field has a dir:// prefix'' [])
                  else if list_ex (\<lambda>x. \<not> Contains (im_Name x) dirProtocol) (cfg_AdditionalImages cfg)
                  then Err (errorf ''ensure the additional name field is set and has dir:// prefix'' [])
                  else Ok ())
           else Ok ()) (\<lambda>_.
          if Contains dest0 ociProtocol \<or> Contains dest0 dirProtocol \<or> Contains dest0 dockerProtocol then Ok ()
          else Err (errorf ''destination must have either oci://, dir:// or docker:// protocol prefixes'' []))))"

section \<open>The executor\<close>

record 'w ExecutorSchema =
  ex_Log :: PluggableLogger
  ex_Config :: ImageSetConfiguration
  ex_Opts :: CopyOptions
  ex_Operator :: "('w machine, CopyImageSchema list) go"
  ex_Release :: "('w machine, CopyImageSchema list) go"
  ex_AdditionalImages :: "('w machine, CopyImageSchema list) go"
  ex_Batch :: "CopyImageSchema list \<Rightarrow> CopyOptions \<Rightarrow> ('w machine, unit) go"

record 'w env =
  en_lib :: "'w imglib"
  en_codecs :: codecs
  en_config :: config_codec
  en_net :: "'w net"
  en_sig :: "'w sigenv"
  en_client :: "client \<times> error option"
  en_fresh :: "client \<times> error option"
  en_frames :: nat
  en_stamp :: "nat \<Rightarrow> string"
  en_worker :: "CopyImageSchema list \<Rightarrow> CopyOptions \<Rightarrow> ('w machine, unit) go"

text \<open>\<open>Cincinnati.GetReleaseReferenceImages\<close> with the client and the configuration it was built with.\<close>

definition release_images :: "'w env \<Rightarrow> CopyOptions \<Rightarrow> ImageSetConfiguration \<Rightarrow> ('w machine, CopyImageSchema list) go" where
  "release_images en opts cfg m =
     (case GetReleaseReferenceImages (en_frames en) (en_net en) (en_sig en) (en_fresh en) False (gl_Dir (co_Global opts))
             \<lparr>rl_client = fst (en_client en), rl_config = cfg, rl_machine = m\<rparr> of
        (r, s) \<Rightarrow> (r, rl_machine s))"

definition mode_options :: "CopyOptions \<Rightarrow> string \<Rightarrow> CopyOptions outcome" where
  "mode_options opts arg =
     ok_map (\<lambda>(mode, dest). set_global ((co_Global opts)\<lparr>gl_Dir := dest\<rparr>) (opts\<lparr>co_Mode := mode, co_Destination := arg\<rparr>))
       (if Contains arg ociProtocol \<or> Contains arg dirProtocol
        then ok_map (\<lambda>rest. (mirrorToDisk, workingDir @ ''/'' @ rest)) (go_index (Split arg ''://'') 1)
        else Ok (diskToMirror, workingDir))"

text \<open>The error of \<open>ReadConfig\<close> is only logged, that of \<open>NewOCPClient\<close> dropped.\<close>

definition Executor_Complete :: "'w env \<Rightarrow> CopyOptions \<Rightarrow> string list \<Rightarrow> fs \<Rightarrow> 'w ExecutorSchema outcome" where
  "Executor_Complete en opts args s =
     (let cfg = fst (ReadConfig (en_config en) (gl_ConfigPath (co_Global opts)) s)
      in ok_bind (go_index args 0) (\<lambda>arg.
         ok_map (\<lambda>opts'.
           \<lparr>ex_Log = log_Level (gl_LogLevel (co_Global opts)) (log_New ''info''), ex_Config = cfg, ex_Opts = opts',
            ex_Operator = OperatorImageCollector (en_lib en) (en_codecs en) (en_stamp en) opts' cfg,
            ex_Release = ReleaseImageCollector (en_lib en) (en_codecs en) (release_images en opts' cfg) opts' cfg,
            ex_AdditionalImages = on_fs (AdditionalImagesCollector opts' cfg),
            ex_Batch = en_worker en\<rparr>)
           (mode_options opts arg)))"

definition mergeImages :: "CopyImageSchema list \<Rightarrow> CopyImageSchema list \<Rightarrow> CopyImageSchema list" where
  "mergeImages base inn = base @ inn"

definition cleanUp :: "('w machine, unit) go" where
  "cleanUp = go_try (on_fs (RemoveAll logsDir)) (\<lambda>_. go_return ())"

text \<open>\<open>if err != nil { cleanUp(); return err }\<close>\<close>

definition or_cleanUp :: "('w machine, 'a) go \<Rightarrow> ('w machine, 'a) go" where
  "or_cleanUp m = go_try m (\<lambda>r. case r of Inl e \<Rightarrow> go_bind cleanUp (\<lambda>_. go_fail e) | Inr a \<Rightarrow> go_return a)"

fun make_dirs :: "string list \<Rightarrow> ('w machine, unit) go" where
  "make_dirs [] = go_return ()"
| "make_dirs (d # ds) = go_bind (on_fs (MkdirAll d)) (\<lambda>_. make_dirs ds)"

definition run_dirs :: "CopyOptions \<Rightarrow> string list" where
  "run_dirs opts =
     logsDir # (if co_Mode opts = mirrorToDisk
                then workingDir # map (\<lambda>d. gl_Dir (co_Global opts) @ ''/'' @ d)
                       [signaturesDir, releaseImageDir, releaseImageExtractDir, operatorImageExtractDir]
                else [])"

definition Executor_Run :: "'w ExecutorSchema \<Rightarrow> ('w machine, unit) go" where
  "Executor_Run ex =
     go_try (on_fs (RemoveAll logsDir)) (\<lambda>_.
     go_bind (make_dirs (run_dirs (ex_Opts ex))) (\<lambda>_.
     go_bind (or_cleanUp (ex_Release ex)) (\<lambda>imgs1.
     go_bind (or_cleanUp (ex_Operator ex)) (\<lambda>imgs2.
     go_bind (or_cleanUp (ex_AdditionalImages ex)) (\<lambda>imgs3.
       or_cleanUp (ex_Batch ex (mergeImages (mergeImages (mergeImages [] imgs1) imgs2) imgs3)
         ((ex_Opts ex)\<lparr>co_ImageType := ''operator''\<rparr>)))))))"

section \<open>The command\<close>

text \<open>The outcome of the process: the exit code, or a panic.\<close>

definition run_command :: "'w env \<Rightarrow> CopyOptions \<Rightarrow> string list \<Rightarrow> ('w machine, nat) go" where
  "run_command en opts args =
     (if length args < 1 then go_return 1
      else go_try (ask_fs (Executor_Validate (en_config en) opts args)) (\<lambda>r. case r of
          Inl _ \<Rightarrow> go_return 1
        | Inr _ \<Rightarrow>
            go_bind (ask_fs (Executor_Complete en opts args)) (\<lambda>ex.
            go_try (Executor_Run ex) (\<lambda>r. case r of Inl _ \<Rightarrow> go_return 1 | Inr _ \<Rightarrow> go_return 0))))"

definition mirror_main :: "'w env \<Rightarrow> (string \<Rightarrow> string) \<Rightarrow> (string \<times> string) list \<Rightarrow> string list \<Rightarrow> ('w machine, nat) go" where
  "mirror_main en getenv flags args =
     (case parse_flags (cmd_flags getenv) flags (new_options getenv) of
        Ok opts \<Rightarrow> run_command en opts args
      | Err _ \<Rightarrow> go_return 1
      | Panic p \<Rightarrow> go_panic p)"

section \<open>Laws\<close>

lemma mode_options_no_err: "mode_options opts arg \<noteq> Err e"
  by (auto simp: mode_options_def go_index_def)

lemma protocol_split:
  assumes "Contains arg ociProtocol \<or> Contains arg dirProtocol"
  shows "length (Split arg ''://'') \<ge> 2"
proof -
  have "Contains arg ''://''"
    using assms
  proof
    assume "Contains arg ociProtocol"
    then obtain a b where "arg = (a @ ''oci'') @ ''://'' @ b" by (auto simp: Contains_iff ociProtocol_def)
    then show ?thesis unfolding Contains_iff by blast
  next
    assume "Contains arg dirProtocol"
    then obtain a b where "arg = (a @ ''dir'') @ ''://'' @ b" by (auto simp: Contains_iff dirProtocol_def)
    then show ?thesis unfolding Contains_iff by blast
  qed
  then show ?thesis by (intro Split_two) simp_all
qed

lemma mode_options_Ok:
  "\<exists>opts'. mode_options opts arg = Ok opts' \<and> co_Destination opts' = arg \<and>
     (if Contains arg ociProtocol \<or> Contains arg dirProtocol
      then co_Mode opts' = mirrorToDisk \<and> gl_Dir (co_Global opts') = workingDir @ ''/'' @ Split arg ''://'' ! 1
      else co_Mode opts' = diskToMirror \<and> gl_Dir (co_Global opts') = workingDir) \<and>
     gl_ConfigPath (co_Global opts') = gl_ConfigPath (co_Global opts)"
  using protocol_split[of arg] by (auto simp: mode_options_def set_global_def both_images_def)

lemma Executor_Validate_Ok:
  "Executor_Validate cc opts (d # ds) s = Ok () \<longleftrightarrow>
     gl_ConfigPath (co_Global opts) \<noteq> [] \<and>
     (Contains d ociProtocol \<or> Contains d dirProtocol \<or> Contains d dockerProtocol) \<and>
     (Contains d dockerProtocol \<longrightarrow>
       (\<exists>cfg. ReadConfig cc (gl_ConfigPath (co_Global opts)) s = (cfg, None) \<and> pf_Release (cfg_Platform cfg) \<noteq> [] \<and>
         (\<forall>x \<in> set (cfg_Operators cfg). Contains (op_Catalog x) dirProtocol) \<and>
         (\<forall>x \<in> set (cfg_AdditionalImages cfg). Contains (im_Name x) dirProtocol)))"
proof (cases "ReadConfig cc (gl_ConfigPath (co_Global opts)) s")
  case (Pair cfg err)
  then show ?thesis
    by (cases err) (auto simp: Executor_Validate_def list_ex_iff)
qed

lemma or_cleanUp_Ok: "or_cleanUp m s = (Ok a, t) \<longleftrightarrow> m s = (Ok a, t)"
proof (cases "m s")
  case (Pair r u)
  have "cleanUp u \<noteq> (Panic p, v)" for p v
    by (auto simp: cleanUp_def go_try_def go_return_def on_fs_def RemoveAll_def split: prod.splits outcome.splits option.splits)
  with Pair show ?thesis
    by (cases r) (auto simp: or_cleanUp_def go_bind_def go_fail_def go_return_def split: prod.splits outcome.splits)
qed

lemma cleanUp_Ok: "cleanUp u = (Ok (), snd (on_fs (RemoveAll logsDir) u))"
  by (auto simp: cleanUp_def go_try_def on_fs_def RemoveAll_def split: prod.splits outcome.splits option.splits)

lemma or_cleanUp_Err: "or_cleanUp m s = (Err e, t) \<longleftrightarrow> (\<exists>u. m s = (Err e, u) \<and> t = snd (on_fs (RemoveAll logsDir) u))"
proof (cases "m s")
  case (Pair r u)
  then show ?thesis by (cases r) (auto simp: or_cleanUp_def go_bind_def cleanUp_Ok)
qed

lemma go_bind_Err_iff:
  "go_bind m f s = (Err e, t) \<longleftrightarrow> m s = (Err e, t) \<or> (\<exists>a s'. m s = (Ok a, s') \<and> f a s' = (Err e, t))"
  by (auto simp: go_bind_def split: prod.splits outcome.splits)

lemma removed_logs:
  assumes "fs_fault (mc_fs u) ''remove'' [''logs''] = None" and "fs_fault (mc_fs u) ''stat'' [''logs''] = None"
  shows "absent logsDir (mc_fs (snd (on_fs (RemoveAll logsDir) u)))"
proof -
  have p: "path_of logsDir = [''logs'']" by code_simp
  obtain s' where s': "RemoveAll logsDir (mc_fs u) = (Ok (), s')"
    using assms(1) p by (simp add: RemoveAll_def logsDir_def)
  have "absent logsDir s'"
  proof (rule RemoveAll_absent[OF s'])
    show "\<not> is_root (path_of logsDir)" unfolding p by (simp add: is_root_def)
    show "\<not> below_file (mc_fs u) (path_of logsDir)" unfolding p by (simp add: below_file_def is_root_def)
  qed (use assms(2) p in simp)
  with s' show ?thesis by (simp add: on_fs_def)
qed

lemma Executor_Run_phases:
  assumes "Executor_Run ex m = (Ok (), m')"
  obtains r m00 m0 imgs1 m1 imgs2 m2 imgs3 m3 where "on_fs (RemoveAll logsDir) m = (r, m00)"
    and "make_dirs (run_dirs (ex_Opts ex)) m00 = (Ok (), m0)"
    and "ex_Release ex m0 = (Ok imgs1, m1)" and "ex_Operator ex m1 = (Ok imgs2, m2)"
    and "ex_AdditionalImages ex m2 = (Ok imgs3, m3)"
    and "ex_Batch ex (imgs1 @ imgs2 @ imgs3) ((ex_Opts ex)\<lparr>co_ImageType := ''operator''\<rparr>) m3 = (Ok (), m')"
proof -
  from assms obtain r m00 where "on_fs (RemoveAll logsDir) m = (r, m00)" and
    "go_bind (make_dirs (run_dirs (ex_Opts ex))) (\<lambda>_.
     go_bind (or_cleanUp (ex_Release ex)) (\<lambda>imgs1.
     go_bind (or_cleanUp (ex_Operator ex)) (\<lambda>imgs2.
     go_bind (or_cleanUp (ex_AdditionalImages ex)) (\<lambda>imgs3.
       or_cleanUp (ex_Batch ex (mergeImages (mergeImages (mergeImages [] imgs1) imgs2) imgs3)
         ((ex_Opts ex)\<lparr>co_ImageType := ''operator''\<rparr>)))))) m00 = (Ok (), m')"
    unfolding Executor_Run_def by (elim go_try_OkE) blast+
  then show thesis
    unfolding go_bind_Ok_iff or_cleanUp_Ok mergeImages_def append_Nil append_assoc using that by auto
qed

lemma Executor_Run_Ok:
  assumes "Executor_Run ex m = (Ok (), m')"
  obtains m0 imgs1 m1 imgs2 m2 imgs3 m3 where "ex_Release ex m0 = (Ok imgs1, m1)" and "ex_Operator ex m1 = (Ok imgs2, m2)"
    and "ex_AdditionalImages ex m2 = (Ok imgs3, m3)"
    and "ex_Batch ex (imgs1 @ imgs2 @ imgs3) ((ex_Opts ex)\<lparr>co_ImageType := ''operator''\<rparr>) m3 = (Ok (), m')"
  using assms that by (rule Executor_Run_phases)

lemma Complete_batch: "Executor_Complete en opts args s = Ok ex \<Longrightarrow> ex_Batch ex = en_worker en"
  by (auto simp: Executor_Complete_def Let_def ok_bind_eq_Ok ok_map_eq_Ok)

lemma run_command_zero:
  assumes "run_command en opts args m = (Ok 0, m')"
  obtains ex where "Executor_Complete en opts args (mc_fs m) = Ok ex" and "Executor_Run ex m = (Ok (), m')"
proof -
  from assms have "Executor_Validate (en_config en) opts args (mc_fs m) = Ok ()"
    by (auto simp: run_command_def ask_fs_def go_return_def go_try_def split: if_splits outcome.splits)
  with assms have "go_bind (ask_fs (Executor_Complete en opts args)) (\<lambda>ex.
      go_try (Executor_Run ex) (\<lambda>r. case r of Inl _ \<Rightarrow> go_return 1 | Inr _ \<Rightarrow> go_return 0)) m = (Ok (0 :: nat), m')"
    by (auto simp: run_command_def ask_fs_def[of "Executor_Validate (en_config en) opts args"] go_return_def simp del: One_nat_def split: if_splits)
  then obtain ex t where ex: "ask_fs (Executor_Complete en opts args) m = (Ok ex, t)"
    and r: "go_try (Executor_Run ex) (\<lambda>r. case r of Inl _ \<Rightarrow> go_return 1 | Inr _ \<Rightarrow> go_return 0) t = (Ok (0 :: nat), m')"
    by (rule go_bind_OkE)
  from r have "Executor_Run ex t = (Ok (), m')"
    by (cases rule: go_try_OkE) (auto simp: go_return_def)
  moreover from ex have "Executor_Complete en opts args (mc_fs m) = Ok ex" "t = m" by (auto simp: ask_fs_def)
  ultimately show thesis using that by simp
qed

section \<open>Properties\<close>

text \<open>The arguments are accepted exactly when a configuration file is named, the destination contains
  one of the protocols oci://, dir://, docker://, and, for docker://, the configuration is read without
  an error, names a release, and all its catalogs and additional images contain dir://.\<close>

lemma Validate_accepts_iff:
  "Executor_Validate cc opts (d # ds) s = Ok () \<longleftrightarrow>
     gl_ConfigPath (co_Global opts) \<noteq> [] \<and>
     (Contains d ''oci://'' \<or> Contains d ''dir://'' \<or> Contains d ''docker://'') \<and>
     (if Contains d ''docker://''
      then \<exists>cfg. ReadConfig cc (gl_ConfigPath (co_Global opts)) s = (cfg, None) \<and> pf_Release (cfg_Platform cfg) \<noteq> [] \<and>
        list_all (\<lambda>x. Contains (op_Catalog x) ''dir://'') (cfg_Operators cfg) \<and>
        list_all (\<lambda>x. Contains (im_Name x) ''dir://'') (cfg_AdditionalImages cfg)
      else True)"
  unfolding Executor_Validate_Ok ociProtocol_def dirProtocol_def dockerProtocol_def list_all_iff if_bool_eq_conj by blast

text \<open>C39: a run to a docker:// destination without a configuration file, or whose configuration cannot be read without an
  error, names no release, or has an operator catalog or an additional image without dir://, exits with 1 and
  has changed nothing: no file was written or removed and no registry was contacted.\<close>

theorem rejected_run_changes_nothing:
  assumes "Contains d ''docker://''" and "ReadConfig (en_config en) (gl_ConfigPath (co_Global opts)) (mc_fs m) = (cfg, err)"
    and "gl_ConfigPath (co_Global opts) = [] \<or> err \<noteq> None \<or> pf_Release (cfg_Platform cfg) = [] \<or>
      (\<exists>op \<in> set (cfg_Operators cfg). \<not> Contains (op_Catalog op) ''dir://'') \<or>
      (\<exists>img \<in> set (cfg_AdditionalImages cfg). \<not> Contains (im_Name img) ''dir://'')"
  shows "run_command en opts (d # ds) m = (Ok 1, m)"
proof -
  have "Executor_Validate (en_config en) opts (d # ds) (mc_fs m) \<noteq> Ok ()"
    using assms by (auto simp: Validate_accepts_iff list_all_iff)
  moreover have "Executor_Validate (en_config en) opts (d # ds) (mc_fs m) \<noteq> Panic p" for p
    by (simp add: Executor_Validate_def go_index_def split: option.split prod.split)
  ultimately obtain e where "Executor_Validate (en_config en) opts (d # ds) (mc_fs m) = Err e"
    by (cases "Executor_Validate (en_config en) opts (d # ds) (mc_fs m)") auto
  then show ?thesis by (simp add: run_command_def ask_fs_def go_try_def)
qed

text \<open>C40: for arguments that Validate accepts the setup completes without a panic, in exactly one of the two
  modes: mirrorToDisk below working-dir for a destination with oci:// or dir://, diskToMirror from
  working-dir otherwise; then the destination has docker:// and the configuration was read without an error.\<close>

theorem Complete_mode:
  assumes "Executor_Validate (en_config en) opts (d # ds) s = Ok ()"
  shows "\<exists>ex. Executor_Complete en opts (d # ds) s = Ok ex \<and> co_Destination (ex_Opts ex) = d \<and>
    (if Contains d ''oci://'' \<or> Contains d ''dir://''
     then co_Mode (ex_Opts ex) = mirrorToDisk \<and> gl_Dir (co_Global (ex_Opts ex)) = ''working-dir/'' @ Split d ''://'' ! 1
     else co_Mode (ex_Opts ex) = diskToMirror \<and> gl_Dir (co_Global (ex_Opts ex)) = ''working-dir'' \<and> Contains d ''docker://'' \<and>
       ReadConfig (en_config en) (gl_ConfigPath (co_Global opts)) s = (ex_Config ex, None))"
proof -
  obtain opts' where o': "mode_options opts d = Ok opts'" "co_Destination opts' = d"
    "if Contains d ociProtocol \<or> Contains d dirProtocol
     then co_Mode opts' = mirrorToDisk \<and> gl_Dir (co_Global opts') = workingDir @ ''/'' @ Split d ''://'' ! 1
     else co_Mode opts' = diskToMirror \<and> gl_Dir (co_Global opts') = workingDir"
    using mode_options_Ok[of opts d] by blast
  let ?cfg = "ReadConfig (en_config en) (gl_ConfigPath (co_Global opts)) s"
  obtain ex where ex: "Executor_Complete en opts (d # ds) s = Ok ex" "ex_Opts ex = opts'" "ex_Config ex = fst ?cfg"
    using o'(1) by (simp add: Executor_Complete_def Let_def)
  have docker: "Contains d ''docker://'' \<and> ?cfg = (fst ?cfg, None)" if "\<not> (Contains d ociProtocol \<or> Contains d dirProtocol)"
    using assms that by (auto simp: Executor_Validate_Ok dockerProtocol_def)
  show ?thesis
  proof (intro exI[of _ ex] conjI)
    show "Executor_Complete en opts (d # ds) s = Ok ex" by (rule ex)
    show "co_Destination (ex_Opts ex) = d" by (simp add: ex o')
  qed (use o'(3) docker in \<open>auto simp: ex workingDir_def ociProtocol_def dirProtocol_def split: if_splits\<close>)
qed

text \<open>C20: a run that fails stops at the first phase that fails and returns its error: creating the
  directories, collecting the releases, the operators, the additional images, copying the batch; the phases
  before it have succeeded, no later one is started, and except after a failure to create the
  directories the logs directory is removed last, so that it is gone unless removing it fails.\<close>

theorem Run_fails_fast:
  assumes "Executor_Run ex m = (Err e, m')"
  shows "\<exists>r m00 m0 u. on_fs (RemoveAll logsDir) m = (r, m00) \<and>
    (make_dirs (run_dirs (ex_Opts ex)) m00 = (Err e, m') \<or>
     make_dirs (run_dirs (ex_Opts ex)) m00 = (Ok (), m0) \<and> m' = snd (on_fs (RemoveAll logsDir) u) \<and>
     (fs_fault (mc_fs u) ''remove'' [''logs''] = None \<and> fs_fault (mc_fs u) ''stat'' [''logs''] = None \<longrightarrow> absent logsDir (mc_fs m')) \<and>
     (ex_Release ex m0 = (Err e, u) \<or>
      (\<exists>imgs1 m1. ex_Release ex m0 = (Ok imgs1, m1) \<and>
        (ex_Operator ex m1 = (Err e, u) \<or>
         (\<exists>imgs2 m2. ex_Operator ex m1 = (Ok imgs2, m2) \<and>
           (ex_AdditionalImages ex m2 = (Err e, u) \<or>
            (\<exists>imgs3 m3. ex_AdditionalImages ex m2 = (Ok imgs3, m3) \<and>
              ex_Batch ex (imgs1 @ imgs2 @ imgs3) ((ex_Opts ex)\<lparr>co_ImageType := ''operator''\<rparr>) m3 = (Err e, u))))))))"
proof -
  obtain r m00 where r: "on_fs (RemoveAll logsDir) m = (r, m00)" by fastforce
  have "\<nexists>p. r = Panic p" using r by (auto simp: on_fs_def RemoveAll_def split: option.splits if_splits)
  then have
    "go_bind (make_dirs (run_dirs (ex_Opts ex))) (\<lambda>_.
     go_bind (or_cleanUp (ex_Release ex)) (\<lambda>imgs1.
     go_bind (or_cleanUp (ex_Operator ex)) (\<lambda>imgs2.
     go_bind (or_cleanUp (ex_AdditionalImages ex)) (\<lambda>imgs3.
       or_cleanUp (ex_Batch ex (mergeImages (mergeImages (mergeImages [] imgs1) imgs2) imgs3)
         ((ex_Opts ex)\<lparr>co_ImageType := ''operator''\<rparr>)))))) m00 = (Err e, m')"
    using assms r unfolding Executor_Run_def by (cases r) simp_all
  note phases = this[unfolded go_bind_Err_iff or_cleanUp_Err or_cleanUp_Ok mergeImages_def append_Nil append_assoc]
  show ?thesis
  proof (cases "make_dirs (run_dirs (ex_Opts ex)) m00 = (Err e, m')")
    case True
    with r show ?thesis by blast
  next
    case False
    with phases obtain m0 u where m0: "make_dirs (run_dirs (ex_Opts ex)) m00 = (Ok (), m0)"
      and m': "m' = snd (on_fs (RemoveAll logsDir) u)"
      and fail: "ex_Release ex m0 = (Err e, u) \<or>
      (\<exists>imgs1 m1. ex_Release ex m0 = (Ok imgs1, m1) \<and>
        (ex_Operator ex m1 = (Err e, u) \<or>
         (\<exists>imgs2 m2. ex_Operator ex m1 = (Ok imgs2, m2) \<and>
           (ex_AdditionalImages ex m2 = (Err e, u) \<or>
            (\<exists>imgs3 m3. ex_AdditionalImages ex m2 = (Ok imgs3, m3) \<and>
              ex_Batch ex (imgs1 @ imgs2 @ imgs3) ((ex_Opts ex)\<lparr>co_ImageType := ''operator''\<rparr>) m3 = (Err e, u))))))"
      by auto
    have "fs_fault (mc_fs u) ''remove'' [''logs''] = None \<and> fs_fault (mc_fs u) ''stat'' [''logs''] = None \<longrightarrow> absent logsDir (mc_fs m')"
      using removed_logs m' by blast
    with r m0 m' fail show ?thesis by - (rule exI[of _ r], rule exI[of _ m00], rule exI[of _ m0], rule exI[of _ u], simp)
  qed
qed

section \<open>Witnesses\<close>

text \<open>An environment in which the configuration file holds the name of one additional image and every copy
  succeeds.\<close>

definition demo_env :: "unit env" where
  "demo_env =
     \<lparr>en_lib = demo_lib, en_codecs = demo_codecs, en_config = demo_config_codec\<lparr>cc_Config := (\<lambda>d. (demo_images [d], None))\<rparr>,
      en_net = demo_net, en_sig = demo_sigenv, en_client = (zero_client ocpClient, None), en_fresh = (zero_client ocpClient, None),
      en_frames = 10, en_stamp = (\<lambda>_. ''000000''),
      en_worker = (\<lambda>imgs opts. worker_seq (copy_image demo_lib opts) create_log imgs)\<rparr>"

definition demo_machine :: "unit machine" where
  "demo_machine = \<lparr>mc_fs = demo_config_fs ''quay.io/ns/app:v1'', mc_world = ()\<rparr>"

definition demo_cmd_opts :: CopyOptions where
  "demo_cmd_opts = (case parse_flags (cmd_flags (\<lambda>_. [])) [(''config'', ''isc.yaml'')] (new_options (\<lambda>_. [])) of Ok o' \<Rightarrow> o')"

theorem rejected_run_changes_nothing_witness:
  "run_command demo_env demo_cmd_opts [''docker://reg''] demo_machine = (Ok 1, demo_machine)"
proof -
  let ?r = "ReadConfig (en_config demo_env) (gl_ConfigPath (co_Global demo_cmd_opts)) (mc_fs demo_machine)"
  have "Contains ''docker://reg'' ''docker://''" "pf_Release (cfg_Platform (fst ?r)) = []" by code_simp+
  then show ?thesis using rejected_run_changes_nothing[of "''docker://reg''" demo_env demo_cmd_opts demo_machine "fst ?r" "snd ?r" "[]"] by simp
qed

theorem Complete_mode_witness:
  "\<exists>ex. Executor_Complete demo_env demo_cmd_opts [''oci://out''] (mc_fs demo_machine) = Ok ex \<and>
     co_Mode (ex_Opts ex) = mirrorToDisk \<and> gl_Dir (co_Global (ex_Opts ex)) = ''working-dir/'' @ Split ''oci://out'' ''://'' ! 1"
proof -
  have v: "Executor_Validate (en_config demo_env) demo_cmd_opts [''oci://out''] (mc_fs demo_machine) = Ok ()" by code_simp
  have c: "Contains ''oci://out'' ''oci://''" by code_simp
  from Complete_mode[OF v] c show ?thesis by auto
qed

lemma demo_run: "fst (run_command demo_env demo_cmd_opts [''oci://out''] demo_machine) = Ok 0"
  by code_simp

lemma demo_env_schedule:
  "\<exists>log. Worker (en_lib demo_env) imgs o' m (fst (en_worker demo_env imgs o' m)) (snd (en_worker demo_env imgs o' m)) log"
  by (simp add: demo_env_def Worker_def worker_seq_schedule)

text \<open>A configuration with an additional image that is no reference.\<close>

definition demo_bad_machine :: "unit machine" where
  "demo_bad_machine = \<lparr>mc_fs = demo_config_fs ''bad'', mc_world = ()\<rparr>"

theorem Run_fails_fast_witness:
  "\<exists>ex e m' u. Executor_Complete demo_env demo_cmd_opts [''oci://out''] (mc_fs demo_bad_machine) = Ok ex \<and>
     Executor_Run ex demo_bad_machine = (Err e, m') \<and> m' = snd (on_fs (RemoveAll logsDir) u)"
proof -
  let ?c = "Executor_Complete demo_env demo_cmd_opts [''oci://out''] (mc_fs demo_bad_machine)"
  obtain ex where ex: "?c = Ok ex"
    using mode_options_Ok[of demo_cmd_opts "''oci://out''"] by (auto simp: Executor_Complete_def Let_def)
  have "(case ?c of Ok ex \<Rightarrow> is_err (fst (Executor_Run ex demo_bad_machine)) \<and>
      fst (make_dirs (run_dirs (ex_Opts ex)) (snd (on_fs (RemoveAll logsDir) demo_bad_machine))) = Ok ())" by code_simp
  with ex have err: "is_err (fst (Executor_Run ex demo_bad_machine))"
    and dirs: "fst (make_dirs (run_dirs (ex_Opts ex)) (snd (on_fs (RemoveAll logsDir) demo_bad_machine))) = Ok ()" by simp_all
  obtain e m' where run: "Executor_Run ex demo_bad_machine = (Err e, m')"
    using err by (cases "Executor_Run ex demo_bad_machine"; cases "fst (Executor_Run ex demo_bad_machine)") auto
  from Run_fails_fast[OF run] dirs ex run show ?thesis by auto
qed

end
