(* ===== verification/Image_Cache.thy ===== *)
theory Image_Cache
  imports Go_FS
begin

text \<open>
  The contract between the collectors and the file system: what exists stays.

  \<open>preserves R m\<close> says that the computation \<open>m\<close> only moves along the relation \<open>R\<close> on states, whatever it
  returns.  The locale \<open>two_state\<close> asks of \<open>R\<close> that it is reflexive and transitive and gives
  the rules for the sequencing operations of the code; the interpretations \<open>kf\<close> (file system) and
  \<open>km\<close> (machine) are for the relation \<open>keeps\<close>: a path that does not report "not found" does not report it
  later.  \<open>emits ks s s'\<close> is the promise of a collector: from \<open>s\<close> to \<open>s'\<close> it creates the
  directories \<open>ks\<close>, each once and none that was there; promises compose (\<open>emits_append\<close>).
\<close>

section \<open>Relations between the states before and after\<close>

definition preserves :: "('s \<Rightarrow> 's \<Rightarrow> bool) \<Rightarrow> ('s, 'a) go \<Rightarrow> bool" where
  "preserves R m = (\<forall>s. R s (snd (m s)))"

lemma preservesI: "(\<And>s r s'. m s = (r, s') \<Longrightarrow> R s s') \<Longrightarrow> preserves R m"
  unfolding preserves_def by (metis prod.collapse)

lemma preservesD: "preserves R m \<Longrightarrow> m s = (r, s') \<Longrightarrow> R s s'"
  unfolding preserves_def by (metis snd_conv)

named_theorems preserve

locale two_state =
  fixes R :: "'s \<Rightarrow> 's \<Rightarrow> bool"
  assumes refl: "R s s" and trans: "R s t \<Longrightarrow> R t u \<Longrightarrow> R s u"
begin

lemma lift_rule: "preserves R (go_lift r)"
  by (simp add: preserves_def refl)

lemma return_rule: "preserves R (go_return a)"
  by (simp add: preserves_def refl)

lemma fail_rule: "preserves R (go_fail e)"
  by (simp add: preserves_def refl)

lemma panic_rule: "preserves R (go_panic p)"
  by (simp add: preserves_def refl)

lemma ask_rule: "preserves R (\<lambda>s. (q s, s))"
  by (simp add: preserves_def refl)

lemma bind_rule:
  assumes "preserves R m" and "\<And>a. preserves R (f a)"
  shows "preserves R (go_bind m f)"
proof (rule preservesI)
  fix s r s'
  assume b: "go_bind m f s = (r, s')"
  obtain q t where m: "m s = (q, t)" by fastforce
  then have "R s t" by (rule preservesD[OF assms(1)])
  with b m preservesD[OF assms(2)] show "R s s'" by (cases q) (auto intro: trans)
qed

lemma try_rule:
  assumes "preserves R m" and "\<And>a. preserves R (f a)"
  shows "preserves R (go_try m f)"
proof (rule preservesI)
  fix s r s'
  assume b: "go_try m f s = (r, s')"
  obtain q t where m: "m s = (q, t)" by fastforce
  then have "R s t" by (rule preservesD[OF assms(1)])
  with b m preservesD[OF assms(2)] show "R s s'" by (cases q) (auto intro: trans)
qed

lemma map_err_rule: "preserves R m \<Longrightarrow> preserves R (go_map_err f m)"
  unfolding preserves_def go_map_err_def by (simp add: split_beta)

lemma if_rule: "preserves R m \<Longrightarrow> preserves R n \<Longrightarrow> preserves R (if b then m else n)"
  by simp

lemma state_if_rule: "preserves R m \<Longrightarrow> preserves R n \<Longrightarrow> preserves R (\<lambda>s. if b s then m s else n s)"
  by (simp add: preserves_def)

lemma option_rule: "preserves R n \<Longrightarrow> (\<And>a. preserves R (f a)) \<Longrightarrow> preserves R (case x of None \<Rightarrow> n | Some a \<Rightarrow> f a)"
  by (simp split: option.split)

lemma sum_rule: "(\<And>e. preserves R (g e)) \<Longrightarrow> (\<And>a. preserves R (f a)) \<Longrightarrow> preserves R (case x of Inl e \<Rightarrow> g e | Inr a \<Rightarrow> f a)"
  by (simp split: sum.split)

lemma prod_rule: "(\<And>a b. preserves R (f a b)) \<Longrightarrow> preserves R (case x of (a, b) \<Rightarrow> f a b)"
  by (simp split: prod.split)

lemmas rules = lift_rule return_rule fail_rule panic_rule ask_rule bind_rule try_rule map_err_rule if_rule state_if_rule
  option_rule sum_rule prod_rule

end

section \<open>What exists stays\<close>

definition keeps :: "fs \<Rightarrow> fs \<Rightarrow> bool" where
  "keeps s s' = (\<forall>name. \<not> absent name s \<longrightarrow> \<not> absent name s')"

definition keeps_machine :: "'w machine \<Rightarrow> 'w machine \<Rightarrow> bool" where
  "keeps_machine m m' = keeps (mc_fs m) (mc_fs m')"

interpretation kf: two_state keeps
  by unfold_locales (auto simp: keeps_def)

interpretation km: two_state keeps_machine
  by unfold_locales (auto simp: keeps_machine_def keeps_def)

declare kf.rules [preserve] km.rules [preserve]

lemma keeps_refl [simp]: "keeps s s"
  by (rule kf.refl)

lemma grows_keeps: "grows s s' \<Longrightarrow> keeps s s'"
  unfolding keeps_def using absent_grows by blast

lemma put_file_keeps: "keeps s (put_node p (File c) s)"
  unfolding keeps_def
proof (intro allI impI)
  fix name
  let ?q = "path_of name" and ?s = "put_node p (File c) s"
  assume present: "\<not> absent name s"
  show "\<not> absent name ?s"
  proof (cases "prefix p ?q \<and> \<not> is_root p")
    case True
    then have f: "node_at ?s p = Some (File c)" by simp
    show ?thesis
    proof (cases "?q = p")
      case False
      with True have l: "length p < length ?q" and t: "take (length p) ?q = p"
        by (auto simp: prefix_def)
      then have "below_file ?s ?q" using f True
        by (auto simp: below_file_def list_ex_iff intro!: bexI[of _ "length p"])
      with present show ?thesis by (auto simp: absent_iff)
    qed (use f present in \<open>auto simp: absent_iff\<close>)
  next
    case False
    then have "lookup ?s ?q = lookup s ?q"
    proof (cases "is_root p")
      case True
      then have "node_at ?s r = node_at s r" for r by (cases "is_root r") auto
      then show ?thesis by (simp add: lookup_def below_file_def)
    qed (use False lookup_put_other in auto)
    with present show ?thesis by (simp add: absent_def Stat_def fs_guard_def split: option.splits if_splits)
  qed
qed

lemma MkdirAll_preserves [preserve]: "preserves keeps (MkdirAll name)"
  by (rule preservesI) (metis MkdirAll_grows grows_keeps)

lemma WriteFile_preserves [preserve]: "preserves keeps (WriteFile name c)"
  by (rule preservesI) (auto simp: WriteFile_def put_file_keeps split: outcome.splits)

lemma Create_preserves [preserve]: "preserves keeps (Create name)"
  unfolding Create_def by (rule WriteFile_preserves)

lemma on_fs_preserves [preserve]: "preserves keeps m \<Longrightarrow> preserves keeps_machine (on_fs m)"
  by (auto simp: preserves_def keeps_machine_def on_fs_def split: prod.splits) (metis snd_conv)

lemma on_world_preserves [preserve]: "preserves keeps_machine (on_world m)"
  by (auto simp: preserves_def keeps_machine_def on_world_def split: prod.splits)

lemma ask_fs_preserves [preserve]: "preserves keeps_machine (ask_fs q)"
  unfolding ask_fs_def by (rule km.ask_rule)

section \<open>The promise of a collector\<close>

definition emits :: "string list \<Rightarrow> fs \<Rightarrow> fs \<Rightarrow> bool" where
  "emits ks s s' = (keeps s s' \<and> distinct ks \<and> list_all (\<lambda>k. absent k s \<and> \<not> absent k s') ks)"

lemma emits_Nil [simp]: "emits [] s s' = keeps s s'"
  by (simp add: emits_def)

lemma emits_append: "emits as s t \<Longrightarrow> emits bs t u \<Longrightarrow> emits (as @ bs) s u"
  by (auto simp: emits_def list_all_iff keeps_def)

lemma emits_later: "keeps r s \<Longrightarrow> emits ks s t \<Longrightarrow> emits ks r t"
  by (auto simp: emits_def list_all_iff keeps_def)

lemma emits_disjoint:
  assumes "emits as s t" and "keeps t u" and "emits bs u v"
  shows "set as \<inter> set bs = {}"
  using assms by (auto simp: emits_def list_all_iff keeps_def)

lemma collect_new_preserves [preserve]: "preserves keeps (collect_new absent MkdirAll key xs)"
proof (induction xs)
  case (Cons x xs)
  have "collect_new absent MkdirAll key (x # xs) = go_bind (go_lift (key x)) (\<lambda>k s.
      if absent k s then go_bind (MkdirAll k) (\<lambda>_. go_bind (collect_new absent MkdirAll key xs) (\<lambda>ys. go_return ((k, x) # ys))) s
      else collect_new absent MkdirAll key xs s)"
    by (auto simp: fun_eq_iff)
  then show ?case by (simp only:) (intro preserve Cons)
qed (simp add: kf.return_rule del: go_prim_defs)

lemma collect_new_emits:
  assumes "collect_new absent MkdirAll key xs s = (Ok ys, s')"
  shows "emits (map fst ys) s s'"
  using preservesD[OF collect_new_preserves assms] fsc.collect_distinct[OF assms] fsc.collect_emitted[OF assms]
  by (force simp: emits_def list_all_iff)

end
