(* ===== verification/Cached_Collection.thy ===== *)
theory Cached_Collection
  imports Executor Image_Cache
begin

text \<open>
  The three collectors and the promise of \<open>Image_Cache\<close>: in mirrorToDisk mode every image they return
  belongs to a directory that they created, that did not exist before, and that no other image
  they return belongs to.  The image library is asked not to remove what exists (\<open>lib_keeps\<close>); for the
  network and the signature service nothing is needed, since they do not touch the file system.
\<close>

section \<open>Copying keeps what exists\<close>

definition lib_keeps :: "'w imglib \<Rightarrow> bool" where
  "lib_keeps lib = (preserves keeps_machine (il_reexec lib) \<and>
     (\<forall>pc dest src st. preserves keeps_machine (il_copy lib pc dest src st)) \<and>
     (\<forall>d t. preserves keeps_machine (il_wait lib d t)))"

lemma lib_keepsD [preserve]:
  assumes "lib_keeps lib"
  shows "preserves keeps_machine (il_reexec lib)" and "preserves keeps_machine (il_copy lib pc dest src st)"
    and "preserves keeps_machine (il_wait lib d t)"
  using assms by (simp_all add: lib_keeps_def)

lemma retry_loop_preserves [preserve]:
  assumes "preserves keeps_machine operation" and "\<And>d. preserves keeps_machine (wait d)"
  shows "preserves keeps_machine (retry_loop retryable wait opts operation left attempt)"
proof (induction left arbitrary: attempt)
  case (Suc left)
  show ?case unfolding retry_loop.simps by (intro preserve assms Suc)
qed (simp only: retry_loop.simps assms)

lemma with_policy_preserves [preserve]: "preserves keeps_machine m \<Longrightarrow> preserves keeps_machine (with_policy lib pc m)"
  unfolding preserves_def with_policy_def by (simp add: split_beta split: option.split outcome.split)

lemma Mirror_Run_preserves [preserve]:
  assumes "lib_keeps lib"
  shows "preserves keeps_machine (Mirror_Run lib src dest ''copy'' opts)"
  unfolding Mirror_Run_def mirror_copy_def ReexecIfNecessaryForImages_def maybeReexec_def IfNecessary_def copy_once_def
  by (simp del: go_prim_defs, intro preserve lib_keepsD assms impI conjI)

section \<open>The release payload\<close>

lemma untar_loop_preserves [preserve]: "preserves keeps (untar_loop p cfg hs e)"
proof (induction hs)
  case Nil
  show ?case by (simp del: go_prim_defs, intro preserve)
next
  case (Cons h hs)
  show ?case
    unfolding untar_loop.simps untar_entry_def
    by (cases "te_Type h") (auto simp del: go_prim_defs intro!: preserve Cons)
qed

lemma ExtractLayersOCI_preserves [preserve]: "preserves keeps (ExtractLayersOCI cd from to label oci)"
proof -
  have "preserves keeps (extract_layers cd from to label blobs)" for blobs
    by (induction blobs) (simp_all del: go_prim_defs add: untar_def preserve)
  then show ?thesis unfolding ExtractLayersOCI_def
    by (cases oci) (simp_all del: go_prim_defs add: preserve)
qed


lemma release_payload_preserves [preserve]: "preserves keeps (release_payload cd dir cacheDir)"
  unfolding release_payload_def by (intro preserve)

lemma copy_release_preserves [preserve]:
  assumes "lib_keeps lib"
  shows "preserves keeps_machine (copy_release lib opts dir source)"
  unfolding copy_release_def by (intro preserve assms)

section \<open>Release images\<close>

text \<open>The cache directory of an image: release images and additional images are stored in it, a related image of an
  operator in a path below the directory of its bundle and namespace.\<close>

definition stored_in :: "string \<Rightarrow> string \<Rightarrow> CopyImageSchema \<Rightarrow> bool" where
  "stored_in transport k c \<longleftrightarrow> ci_Destination c = transport @ '':'' @ k"

definition related_in :: "string \<Rightarrow> CopyImageSchema \<Rightarrow> bool" where
  "related_in k c \<longleftrightarrow> (\<exists>image irs dir bundle name. ci_Source c = ''docker://'' @ image \<and> op_customImageParser image = Ok irs \<and>
     k = dir @ ''/'' @ bundle @ ''/'' @ ir_Namespace irs \<and> ci_Destination c = ''dir:'' @ k @ ''/'' @ name)"

text \<open>\<open>ks\<close> are the cache directories of the images of the three collectors, in their order.\<close>

definition cache_dirs :: "CopyOptions \<Rightarrow> string list \<Rightarrow> CopyImageSchema list \<Rightarrow> CopyImageSchema list \<Rightarrow> CopyImageSchema list \<Rightarrow> bool" where
  "cache_dirs opts ks imgs1 imgs2 imgs3 \<longleftrightarrow> (\<exists>ks1 ks2 ks3. ks = ks1 @ ks2 @ ks3 \<and> list_all2 (stored_in ''dir'') ks1 imgs1 \<and>
     list_all2 related_in ks2 imgs2 \<and> list_all2 (stored_in (Split (co_Destination opts) ''://'' ! 0)) ks3 imgs3)"

lemma batcWorkerConverter_emits:
  assumes "batcWorkerConverter dir images [] s = (Ok out, s')"
  shows "\<exists>ks. emits ks s s' \<and> list_all2 (stored_in ''dir'') ks out"
proof -
  obtain ys where ys: "collect_new absent MkdirAll (rel_key dir) images s = (Ok ys, s')" and out: "out = map (rel_schema dir \<circ> snd) ys"
    by (rule batcWorkerConverter_Ok[OF assms])
  have "k = dir @ ''/images/'' @ ri_Name x" if "(k, x) \<in> set ys" for k x
    using fsc.collect_emitted[OF ys that] by (simp add: rel_key_def)
  then have "list_all2 (stored_in ''dir'') (map fst ys) out"
    by (auto simp: out list_all2_map1 list_all2_map2 list_all2_same rel_schema_def stored_in_def dirProtocolTrimmed_def)
  with collect_new_emits[OF ys] show ?thesis by blast
qed

lemma on_fs_Ok: "on_fs m s = (Ok a, s') \<longleftrightarrow> (\<exists>f. m (mc_fs s) = (Ok a, f) \<and> s' = s\<lparr>mc_fs := f\<rparr>)"
  by (auto simp: on_fs_def split: prod.splits)

lemma go_map_err_Ok: "go_map_err f m s = (Ok a, s') \<longleftrightarrow> m s = (Ok a, s')"
  by (cases "m s"; cases "fst (m s)") (auto simp: go_map_err_def)

lemma collect_release_emits:
  assumes "lib_keeps lib" and "collect_release lib cd opts value m = (Ok out, m')"
  shows "\<exists>ks. emits ks (mc_fs m) (mc_fs m') \<and> list_all2 (stored_in ''dir'') ks out"
proof -
  obtain dir cacheDir source imgs m1 m2 where "copy_release lib opts dir source m = (Ok (), m1)"
    and "go_map_err rel_errMsg (on_fs (release_payload cd dir cacheDir)) m1 = (Ok imgs, m2)"
    and "go_map_err rel_errMsg (on_fs (batcWorkerConverter dir imgs [])) m2 = (Ok out, m')"
    using assms(2) unfolding collect_release_def Let_def by (elim go_bind_OkE) auto
  then have c: "copy_release lib opts dir source m = (Ok (), m1)" and p: "on_fs (release_payload cd dir cacheDir) m1 = (Ok imgs, m2)"
    and 3: "batcWorkerConverter dir imgs [] (mc_fs m2) = (Ok out, mc_fs m')" by (auto simp: go_map_err_Ok on_fs_Ok)
  have 1: "keeps_machine m m1" by (rule preservesD[OF copy_release_preserves[OF assms(1)] c])
  have 2: "keeps_machine m1 m2" by (rule preservesD[OF on_fs_preserves[OF release_payload_preserves] p])
  obtain ks where ks: "emits ks (mc_fs m2) (mc_fs m')" "list_all2 (stored_in ''dir'') ks out" using batcWorkerConverter_emits[OF 3] by blast
  have "keeps (mc_fs m) (mc_fs m2)" using km.trans[OF 1 2] by (simp add: keeps_machine_def)
  with ks emits_later show ?thesis by blast
qed

lemma collect_releases_emits:
  assumes "lib_keeps lib" and "collect_releases lib cd opts releases acc m = (Ok out, m')"
  shows "\<exists>ks new. out = acc @ new \<and> emits ks (mc_fs m) (mc_fs m') \<and> list_all2 (stored_in ''dir'') ks new"
  using assms(2)
proof (induction releases arbitrary: acc m)
  case Nil
  then show ?case by auto
next
  case (Cons rel releases)
  obtain tmp m1 where c: "collect_release lib cd opts rel m = (Ok tmp, m1)"
    and r: "collect_releases lib cd opts releases (acc @ tmp) m1 = (Ok out, m')"
    using Cons.prems unfolding collect_releases.simps by (rule go_bind_OkE)
  obtain ks where ks: "emits ks (mc_fs m) (mc_fs m1)" "list_all2 (stored_in ''dir'') ks tmp"
    using collect_release_emits[OF assms(1) c] by blast
  obtain ks' new where "out = (acc @ tmp) @ new" "emits ks' (mc_fs m1) (mc_fs m')" "list_all2 (stored_in ''dir'') ks' new"
    using Cons.IH[OF r] by blast
  with ks show ?case
    by (intro exI[of _ "ks @ ks'"] exI[of _ "tmp @ new"]) (auto intro: emits_append list_all2_appendI)
qed

lemma ReleaseImageCollector_emits:
  assumes "lib_keeps lib" and "preserves keeps_machine getReleases" and "co_Mode opts = mirrorToDisk"
    and "ReleaseImageCollector lib cd getReleases opts config m = (Ok out, m')"
  shows "\<exists>ks. emits ks (mc_fs m) (mc_fs m') \<and> list_all2 (stored_in ''dir'') ks out"
proof -
  from assms(3,4) obtain releases m1 m2 r where "getReleases m = (Ok releases, m1)" "on_fs (Create rel_logFile) m1 = (r, m2)"
    and c: "collect_releases lib cd opts releases [] m2 = (Ok out, m')"
    unfolding ReleaseImageCollector_def by (auto elim!: go_bind_OkE go_try_OkE)
  then have "keeps_machine m m1" "keeps_machine m1 m2"
    using preservesD[OF assms(2)] preservesD[OF on_fs_preserves[OF Create_preserves]] by auto
  then have "keeps (mc_fs m) (mc_fs m2)" using km.trans unfolding keeps_machine_def by blast
  with collect_releases_emits[OF assms(1) c] emits_later show ?thesis by fastforce
qed

section \<open>Operator images\<close>

lemma catalog_layout_preserves [preserve]: "preserves keeps (catalog_layout cd dir cacheDir catalog)"
  unfolding catalog_layout_def Let_def by (intro preserve)

lemma collect_catalogs_preserves [preserve]:
  assumes "lib_keeps lib"
  shows "preserves keeps_machine (collect_catalogs lib cd opts compare ops acc)"
proof (induction ops arbitrary: acc)
  case (Cons op ops)
  show ?case unfolding collect_catalogs.simps collect_catalog_def copy_catalog_def Let_def by (intro preserve assms Cons)
qed (simp only: collect_catalogs.simps km.return_rule)

lemma batchWorkerConverter_emits:
  assumes "batchWorkerConverter stamp dir images [] s = (Ok out, s')"
  shows "\<exists>ks. emits ks s s' \<and> list_all2 related_in ks out"
proof -
  obtain q t where q: "collect_new absent MkdirAll (op_key dir) (bundle_images images) s = (q, t)" by fastforce
  with assms obtain ys where ys: "collect_new absent MkdirAll (op_key dir) (bundle_images images) s = (Ok ys, s')"
    and out: "out = emitted_from stamp dir 0 (map snd ys)"
    by (auto simp: batchWorkerConverter_collect ok_map_eq_Ok)
  have "related_in (fst (ys ! i)) (out ! i)" if "i < length ys" for i
  proof -
    obtain k b img where y: "ys ! i = (k, b, img)" by (cases "ys ! i") auto
    with that have "(k, b, img) \<in> set ys" by (metis nth_mem)
    from fsc.collect_emitted[OF ys this] obtain irs where irs: "op_customImageParser (ri_Image img) = Ok irs" "k = component_dir dir b irs"
      by (auto simp: op_key_def ok_map_eq_Ok)
    have "out ! i = op_schema (stamp i) dir b irs img" using that y irs by (simp add: out emitted_from_def nth_enumerate_eq)
    then show ?thesis using y irs unfolding related_in_def
      by (intro exI[of _ "ri_Image img"] exI[of _ irs] exI[of _ dir] exI[of _ b] exI[of _ "if length (ri_Name img) = 0 then stamp i else ri_Name img"])
        (simp add: op_schema_def component_dir_def Let_def dirProtocolTrimmed_def dockerProtocol_def)
  qed
  then have "list_all2 related_in (map fst ys) out" by (simp add: list_all2_conv_all_nth out)
  with collect_new_emits[OF ys] show ?thesis by blast
qed

lemma OperatorImageCollector_emits:
  assumes "lib_keeps lib" and "co_Mode opts = mirrorToDisk" and "OperatorImageCollector lib cd stamp opts config m = (Ok out, m')"
  shows "\<exists>ks. emits ks (mc_fs m) (mc_fs m') \<and> list_all2 related_in ks out"
proof -
  from assms(2,3) obtain r m1 dir imgs m2 where l: "on_fs (Create op_logsFile) m = (r, m1)"
    and c: "collect_catalogs lib cd opts (compare_map (cfg_Operators config)) (cfg_Operators config) ([], []) m1 = (Ok (dir, imgs), m2)"
    and b: "on_fs (batchWorkerConverter stamp dir imgs []) m2 = (Ok out, m')"
    unfolding OperatorImageCollector_def Let_def by (auto elim!: go_bind_OkE go_try_OkE)
  have "keeps_machine m m1" by (rule preservesD[OF on_fs_preserves[OF Create_preserves] l])
  moreover have "keeps_machine m1 m2" by (rule preservesD[OF collect_catalogs_preserves[OF assms(1)] c])
  ultimately have "keeps (mc_fs m) (mc_fs m2)" using km.trans unfolding keeps_machine_def by blast
  moreover have "batchWorkerConverter stamp dir imgs [] (mc_fs m2) = (Ok out, mc_fs m')" using b by (auto simp: on_fs_Ok)
  ultimately show ?thesis using batchWorkerConverter_emits emits_later by blast
qed

section \<open>Additional images\<close>

lemma AdditionalImagesCollector_emits:
  assumes "co_Mode opts = mirrorToDisk" and "AdditionalImagesCollector opts config s = (Ok out, s')"
  shows "\<exists>ks. emits ks s s' \<and> list_all2 (stored_in (Split (co_Destination opts) ''://'' ! 0)) ks out"
proof (cases "out = []")
  case True
  obtain q t where q: "collect_new absent MkdirAll (add_key opts) (cfg_AdditionalImages config) s = (q, t)" by fastforce
  moreover have "add_new_images opts (cfg_AdditionalImages config) [] s = (Ok out, s')"
    using assms unfolding AdditionalImagesCollector_def by (auto elim!: go_bind_OkE)
  ultimately have "s' = t" using add_new_images_collect by blast
  with preservesD[OF collect_new_preserves q] True show ?thesis by (intro exI[of _ "[]"]) simp
next
  case False
  obtain ys where ys: "collect_new absent MkdirAll (add_key opts) (cfg_AdditionalImages config) s = (Ok ys, s')"
    and out: "out = map (\<lambda>(k, i). add_schema opts k i) ys" by (rule add_collected[OF assms False])
  have "list_all2 (stored_in (Split (co_Destination opts) ''://'' ! 0)) (map fst ys) out"
    by (auto simp: out list_all2_map1 list_all2_map2 list_all2_same add_schema_def stored_in_def)
  with collect_new_emits[OF ys] show ?thesis by blast
qed

section \<open>The releases of the update service\<close>

text \<open>The update service and the signature service change the world, the signatures are written to files.\<close>

definition keeps_release :: "'w release_state \<Rightarrow> 'w release_state \<Rightarrow> bool" where
  "keeps_release s s' = keeps_machine (rl_machine s) (rl_machine s')"

interpretation kr: two_state keeps_release
  by unfold_locales (auto simp: keeps_release_def intro: km.refl km.trans)

declare kr.rules [preserve]

lemma with_client_preserves [preserve]: "preserves keeps_release (with_client m)"
  by (auto simp: preserves_def with_client_def keeps_release_def keeps_machine_def split: prod.splits)

lemma with_own_client_preserves [preserve]: "preserves keeps_release (with_own_client c m)"
  by (auto simp: preserves_def with_own_client_def keeps_release_def keeps_machine_def split: prod.splits)

lemma on_machine_preserves [preserve]: "preserves keeps_machine m \<Longrightarrow> preserves keeps_release (on_machine m)"
  by (simp add: preserves_def on_machine_def keeps_release_def split_beta)

lemma channels_preserve [preserve]: "preserves keeps_release get_channels" "preserves keeps_release (put_channels vs)"
  by (simp_all add: preserves_def get_channels_def put_channels_def Let_def keeps_release_def km.refl)

lemma sign_image_preserves [preserve]: "preserves keeps_machine (sign_image env dir img)"
  unfolding sign_image_def signature_data_def read_cache_def fetch_signature_def by (intro preserve)

lemma GenerateReleaseSignatures_preserves [preserve]: "preserves keeps_machine (GenerateReleaseSignatures env dir imgs)"
  by (induction imgs) (simp_all only: GenerateReleaseSignatures.simps preserve)

lemma process_archs_preserves [preserve]: "preserves keeps_release (process_archs frames net fresh fail archs)"
proof (induction archs)
  case (Cons arch archs)
  show ?case unfolding process_archs.simps process_arch_def cross_channels_def by (intro preserve Cons)
qed (simp only: process_archs.simps kr.return_rule)

lemma release_images_preserves [preserve]: "preserves keeps_machine (release_images en opts cfg)"
proof (rule preservesI)
  fix m r m'
  assume r: "release_images en opts cfg m = (r, m')"
  let ?s = "\<lparr>rl_client = fst (en_client en), rl_config = cfg, rl_machine = m\<rparr>"
  let ?g = "GetReleaseReferenceImages (en_frames en) (en_net en) (en_sig en) (en_fresh en) False (gl_Dir (co_Global opts))"
  have "keeps_release ?s (snd (?g ?s))"
  proof -
    have "preserves keeps_release (go_bind (process_archs (en_frames en) (en_net en) (en_fresh en) False archs) (\<lambda>(errs, allImages).
        go_try (on_machine (GenerateReleaseSignatures (en_sig en) dir allImages)) (\<lambda>r.
          case r of Inl e \<Rightarrow> go_return [] | Inr imgs \<Rightarrow> go_return imgs)))" for archs dir
      by (intro preserve)
    then show ?thesis unfolding GetReleaseReferenceImages_def preserves_def by blast
  qed
  with r show "keeps_machine m m'" by (auto simp: release_images_def keeps_release_def split: prod.splits)
qed

section \<open>Releases that are on disk\<close>

definition release_dir :: "CopyOptions \<Rightarrow> CopyImageSchema \<Rightarrow> string" where
  "release_dir opts release = Join [gl_Dir (co_Global opts), releaseImageDir, ReplaceAll (last (Split (ci_Source release) ''/'')) '':'' ''/''] ''/''"

text \<open>The part of \<open>collect_release\<close> after the copy.\<close>

definition read_release :: "codecs \<Rightarrow> CopyOptions \<Rightarrow> CopyImageSchema \<Rightarrow> (fs, CopyImageSchema list) go" where
  "read_release cd opts release =
     (let cacheDir = Join [gl_Dir (co_Global opts), releaseImageExtractDir, ReplaceAll (last (Split (ci_Source release) ''/'')) '':'' ''/''] ''/''
      in go_bind (go_map_err rel_errMsg (release_payload cd (release_dir opts release) cacheDir)) (\<lambda>imgs.
           go_map_err rel_errMsg (batcWorkerConverter (release_dir opts release) imgs [])))"

lemma go_bind_on_fs: "go_bind (on_fs m) (\<lambda>a. on_fs (f a)) = on_fs (go_bind m f)"
  by (rule ext) (auto simp: go_bind_def on_fs_def split: prod.splits outcome.splits)

lemma go_map_err_on_fs: "go_map_err g (on_fs m) = on_fs (go_map_err g m)"
  by (rule ext) (auto simp: go_map_err_def on_fs_def split: prod.splits)

lemma collect_release_read:
  "collect_release lib cd opts release =
     go_bind (copy_release lib opts (release_dir opts release) (ci_Source release)) (\<lambda>_. on_fs (read_release cd opts release))"
  unfolding collect_release_def image_index_dir_Ok read_release_def release_dir_def Let_def go_map_err_on_fs go_bind_on_fs
  by (rule ext) (simp add: go_bind_def)

lemma batcWorkerConverter_preserves [preserve]: "preserves keeps (batcWorkerConverter dir imgs acc)"
proof (rule preservesI)
  fix s r s'
  assume b: "batcWorkerConverter dir imgs acc s = (r, s')"
  obtain q t where q: "collect_new absent MkdirAll (rel_key dir) imgs s = (q, t)" by fastforce
  with b have "s' = t" by (simp add: batcWorkerConverter_collect)
  with preservesD[OF collect_new_preserves q] show "keeps s s'" by simp
qed

lemma read_release_preserves [preserve]: "preserves keeps_machine (on_fs (read_release cd opts release))"
  unfolding read_release_def Let_def by (intro preserve)

lemma collect_release_preserves [preserve]:
  "lib_keeps lib \<Longrightarrow> preserves keeps_machine (collect_release lib cd opts release)"
  unfolding collect_release_read by (intro preserve)

lemma on_fs_world: "mc_world (snd (on_fs m s)) = mc_world s"
  by (simp add: on_fs_def split: prod.split)

text \<open>With all directories there, the images are read without the image library and without a change of the world.\<close>

lemma collect_release_present:
  assumes "\<not> absent (release_dir opts release) (mc_fs m)"
  shows "collect_release lib cd opts release m = on_fs (read_release cd opts release) m"
  using assms by (simp add: collect_release_read copy_release_def go_bind_def)

lemma collect_releases_present:
  assumes "list_all (\<lambda>release. \<not> absent (release_dir opts release) (mc_fs m)) releases"
  shows "mc_world (snd (collect_releases lib cd opts releases acc m)) = mc_world m"
  using assms
proof (induction releases arbitrary: acc m)
  case (Cons release releases)
  obtain r m1 where r: "on_fs (read_release cd opts release) m = (r, m1)" by fastforce
  then have k: "keeps (mc_fs m) (mc_fs m1)" and w: "mc_world m1 = mc_world m"
    using preservesD[OF read_release_preserves r] on_fs_world[of "read_release cd opts release" m] by (simp_all add: keeps_machine_def)
  have "list_all (\<lambda>release. \<not> absent (release_dir opts release) (mc_fs m1)) releases"
    using Cons.prems k by (auto simp: list_all_iff keeps_def)
  from Cons.IH[OF this] w r collect_release_present[of opts release m lib cd] Cons.prems show ?case by (cases r) simp_all
qed simp

lemma copy_release_present: "copy_release lib opts dir source m = (Ok (), m') \<Longrightarrow> lib_keeps lib \<Longrightarrow> \<not> absent dir (mc_fs m')"
proof (cases "absent dir (mc_fs m)")
  case True
  assume c: "copy_release lib opts dir source m = (Ok (), m')" and l: "lib_keeps lib"
  from c True obtain m1 where d: "on_fs (MkdirAll dir) m = (Ok (), m1)"
    and r: "Mirror_Run lib (dockerProtocol @ source) (ociProtocolTrimmed @ dir) ''copy'' opts m1 = (Ok (), m')"
    by (auto simp: copy_release_def go_bind_Ok_iff go_map_err_Ok)
  have "\<not> absent dir (mc_fs m1)" using d fsc.create_present by (auto simp: on_fs_Ok)
  with preservesD[OF Mirror_Run_preserves[OF l] r] show ?thesis by (simp add: keeps_machine_def keeps_def)
qed (simp add: copy_release_def)

lemma collect_releases_makes_present:
  assumes "lib_keeps lib" and "collect_releases lib cd opts releases acc m = (Ok out, m')"
  shows "keeps (mc_fs m) (mc_fs m') \<and> list_all (\<lambda>release. \<not> absent (release_dir opts release) (mc_fs m')) releases"
  using assms(2)
proof (induction releases arbitrary: acc m)
  case (Cons release releases)
  obtain tmp m1 where c: "collect_release lib cd opts release m = (Ok tmp, m1)"
    and r: "collect_releases lib cd opts releases (acc @ tmp) m1 = (Ok out, m')"
    using Cons.prems unfolding collect_releases.simps by (rule go_bind_OkE)
  obtain m0 where "copy_release lib opts (release_dir opts release) (ci_Source release) m = (Ok (), m0)" and "on_fs (read_release cd opts release) m0 = (Ok tmp, m1)"
    using c unfolding collect_release_read by (auto elim!: go_bind_OkE)
  then have "\<not> absent (release_dir opts release) (mc_fs m1)"
    using copy_release_present[OF _ assms(1)] preservesD[OF read_release_preserves] by (fastforce simp: keeps_machine_def keeps_def)
  moreover have "keeps (mc_fs m) (mc_fs m1)" using preservesD[OF collect_release_preserves[OF assms(1)] c] by (simp add: keeps_machine_def)
  ultimately show ?case using Cons.IH[OF r] by (auto simp: keeps_def)
qed simp

section \<open>One run of the collectors\<close>

lemma Complete_collectors:
  assumes "Executor_Complete en opts args s = Ok ex"
  shows "ex_Release ex = ReleaseImageCollector (en_lib en) (en_codecs en) (release_images en (ex_Opts ex) (ex_Config ex)) (ex_Opts ex) (ex_Config ex)"
    and "ex_Operator ex = OperatorImageCollector (en_lib en) (en_codecs en) (en_stamp en) (ex_Opts ex) (ex_Config ex)"
    and "ex_AdditionalImages ex = on_fs (AdditionalImagesCollector (ex_Opts ex) (ex_Config ex))"
  using assms by (auto simp: Executor_Complete_def Let_def ok_bind_eq_Ok ok_map_eq_Ok)

lemma stored_in_disjoint:
  assumes "list_all2 (stored_in t) ks imgs" and "list_all2 (stored_in t) ks' imgs'" and "set ks \<inter> set ks' = {}"
  shows "ci_Destination ` set imgs \<inter> ci_Destination ` set imgs' = {}"
proof -
  have "ci_Destination ` set imgs = (\<lambda>k. t @ '':'' @ k) ` set ks" if "list_all2 (stored_in t) ks imgs" for ks imgs
    using that by (induction rule: list_all2_induct) (auto simp: stored_in_def)
  with assms show ?thesis by auto
qed

lemma collectors_emit:
  assumes "Executor_Complete en opts args s = Ok ex" and "lib_keeps (en_lib en)" and "co_Mode (ex_Opts ex) = mirrorToDisk"
    and "ex_Release ex m0 = (Ok imgs1, m1)" and "ex_Operator ex m1 = (Ok imgs2, m2)" and "ex_AdditionalImages ex m2 = (Ok imgs3, m3)"
  shows "\<exists>ks. emits ks (mc_fs m0) (mc_fs m3) \<and> cache_dirs (ex_Opts ex) ks imgs1 imgs2 imgs3"
proof -
  obtain k1 where k1: "emits k1 (mc_fs m0) (mc_fs m1)" "list_all2 (stored_in ''dir'') k1 imgs1"
    using ReleaseImageCollector_emits[OF assms(2) release_images_preserves assms(3)] assms(4) Complete_collectors(1)[OF assms(1)] by metis
  obtain k2 where k2: "emits k2 (mc_fs m1) (mc_fs m2)" "list_all2 related_in k2 imgs2"
    using OperatorImageCollector_emits[OF assms(2,3)] assms(5) Complete_collectors(2)[OF assms(1)] by metis
  have "AdditionalImagesCollector (ex_Opts ex) (ex_Config ex) (mc_fs m2) = (Ok imgs3, mc_fs m3)"
    using assms(6) Complete_collectors(3)[OF assms(1)] by (auto simp: on_fs_Ok)
  from AdditionalImagesCollector_emits[OF assms(3) this] obtain k3 where
    k3: "emits k3 (mc_fs m2) (mc_fs m3)" "list_all2 (stored_in (Split (co_Destination (ex_Opts ex)) ''://'' ! 0)) k3 imgs3" by blast
  from k1 k2 k3 show ?thesis
    by (intro exI[of _ "k1 @ k2 @ k3"]) (auto simp: cache_dirs_def intro: emits_append)
qed

section \<open>Properties\<close>

text \<open>C2: in a run of the command in mirrorToDisk mode that exits with 0, every image handed to the
  batch worker, from whichever collector, has a cache directory of its own: the directories are distinct, each was
  absent when the collectors started and exists when the worker starts.  The destination of a release image or an
  additional image is that directory, the destination of a related image of an operator is a path below
  it, and the directory that of its bundle and namespace.  What is used of the image library is that copying an image removes
  nothing that exists.\<close>

theorem run_distinct_directories:
  assumes "lib_keeps (en_lib en)" and "Contains d ''oci://'' \<or> Contains d ''dir://''"
    and "run_command en opts (d # ds) m = (Ok 0, m')"
  shows "\<exists>ex r m00 m0 imgs1 m1 imgs2 m2 imgs3 m3 ks. Executor_Complete en opts (d # ds) (mc_fs m) = Ok ex \<and>
    on_fs (RemoveAll logsDir) m = (r, m00) \<and> make_dirs (run_dirs (ex_Opts ex)) m00 = (Ok (), m0) \<and>
    ex_Release ex m0 = (Ok imgs1, m1) \<and> ex_Operator ex m1 = (Ok imgs2, m2) \<and> ex_AdditionalImages ex m2 = (Ok imgs3, m3) \<and>
    en_worker en (imgs1 @ imgs2 @ imgs3) ((ex_Opts ex)\<lparr>co_ImageType := ''operator''\<rparr>) m3 = (Ok (), m') \<and>
    distinct ks \<and> cache_dirs (ex_Opts ex) ks imgs1 imgs2 imgs3 \<and>
    list_all (\<lambda>k. absent k (mc_fs m0) \<and> \<not> absent k (mc_fs m3)) ks"
proof -
  obtain ex where ex: "Executor_Complete en opts (d # ds) (mc_fs m) = Ok ex" and run: "Executor_Run ex m = (Ok (), m')"
    using assms(3) by (rule run_command_zero)
  have mode: "co_Mode (ex_Opts ex) = mirrorToDisk"
    using ex mode_options_Ok[of opts d] assms(2)
    by (auto simp: Executor_Complete_def Let_def ok_map_eq_Ok ociProtocol_def dirProtocol_def)
  obtain r m00 m0 imgs1 m1 imgs2 m2 imgs3 m3 where start: "on_fs (RemoveAll logsDir) m = (r, m00)"
      "make_dirs (run_dirs (ex_Opts ex)) m00 = (Ok (), m0)"
      and c: "ex_Release ex m0 = (Ok imgs1, m1)" "ex_Operator ex m1 = (Ok imgs2, m2)" "ex_AdditionalImages ex m2 = (Ok imgs3, m3)"
      and "ex_Batch ex (imgs1 @ imgs2 @ imgs3) ((ex_Opts ex)\<lparr>co_ImageType := ''operator''\<rparr>) m3 = (Ok (), m')"
    using run by (rule Executor_Run_phases)
  then have b: "en_worker en (imgs1 @ imgs2 @ imgs3) ((ex_Opts ex)\<lparr>co_ImageType := ''operator''\<rparr>) m3 = (Ok (), m')"
    by (simp add: Complete_batch[OF ex])
  obtain ks where "emits ks (mc_fs m0) (mc_fs m3)" and dirs: "cache_dirs (ex_Opts ex) ks imgs1 imgs2 imgs3"
    using collectors_emit[OF ex assms(1) mode c] by blast
  then have e: "distinct ks" "list_all (\<lambda>k. absent k (mc_fs m0) \<and> \<not> absent k (mc_fs m3)) ks" by (simp_all add: emits_def)
  note facts = ex start c b e(1) dirs e(2)
  show ?thesis by (intro exI conjI) (rule facts)+
qed

text \<open>C18: an image whose cache directory exists is not returned again: when the collectors run twice in
  mirrorToDisk mode, with whatever configuration and destination, and nothing is removed in between, every image of
  the second run has a cache directory that did not exist when the second run started, and so none of the
  directories of the first run, which all exist then; in particular no release image of the first run is
  returned again with the same destination, and no additional image when both runs have the same transport.
  What is used of the image library is that copying an image removes nothing that exists.\<close>

theorem second_run_disjoint:
  assumes "lib_keeps (en_lib en)"
    and "Executor_Complete en opts args s = Ok ex" and "co_Mode (ex_Opts ex) = mirrorToDisk"
    and "ex_Release ex m0 = (Ok imgs1, m1)" and "ex_Operator ex m1 = (Ok imgs2, m2)" and "ex_AdditionalImages ex m2 = (Ok imgs3, m3)"
    and "keeps_machine m3 n0"
    and "Executor_Complete en opts' args' s' = Ok ex'" and "co_Mode (ex_Opts ex') = mirrorToDisk"
    and "ex_Release ex' n0 = (Ok imgs1', n1)" and "ex_Operator ex' n1 = (Ok imgs2', n2)" and "ex_AdditionalImages ex' n2 = (Ok imgs3', n3)"
  shows "(\<exists>ks ks'. cache_dirs (ex_Opts ex) ks imgs1 imgs2 imgs3 \<and> cache_dirs (ex_Opts ex') ks' imgs1' imgs2' imgs3' \<and>
      distinct (ks @ ks') \<and> list_all (\<lambda>k. \<not> absent k (mc_fs n0)) ks \<and> list_all (\<lambda>k. absent k (mc_fs n0) \<and> \<not> absent k (mc_fs n3)) ks') \<and>
    ci_Destination ` set imgs1 \<inter> ci_Destination ` set imgs1' = {} \<and>
    (Split (co_Destination (ex_Opts ex)) ''://'' ! 0 = Split (co_Destination (ex_Opts ex')) ''://'' ! 0 \<longrightarrow>
      ci_Destination ` set imgs3 \<inter> ci_Destination ` set imgs3' = {})"
proof -
  obtain ks where ks: "emits ks (mc_fs m0) (mc_fs m3)" "cache_dirs (ex_Opts ex) ks imgs1 imgs2 imgs3"
    using collectors_emit[OF assms(2,1,3,4,5,6)] by blast
  obtain ks' where ks': "emits ks' (mc_fs n0) (mc_fs n3)" "cache_dirs (ex_Opts ex') ks' imgs1' imgs2' imgs3'"
    using collectors_emit[OF assms(8,1,9,10,11,12)] by blast
  have kept: "keeps (mc_fs m3) (mc_fs n0)" using assms(7) by (simp add: keeps_machine_def)
  then have there: "list_all (\<lambda>k. \<not> absent k (mc_fs n0)) ks" using ks(1) by (auto simp: emits_def keeps_def list_all_iff)
  have new: "distinct (ks @ ks')" "list_all (\<lambda>k. absent k (mc_fs n0) \<and> \<not> absent k (mc_fs n3)) ks'"
    using emits_disjoint[OF ks(1) kept ks'(1)] ks(1) ks'(1) by (auto simp: emits_def)
  obtain k1 k2 k3 where k: "ks = k1 @ k2 @ k3" "list_all2 (stored_in ''dir'') k1 imgs1"
    "list_all2 (stored_in (Split (co_Destination (ex_Opts ex)) ''://'' ! 0)) k3 imgs3" using ks(2) by (auto simp: cache_dirs_def)
  obtain k1' k2' k3' where k': "ks' = k1' @ k2' @ k3'" "list_all2 (stored_in ''dir'') k1' imgs1'"
    "list_all2 (stored_in (Split (co_Destination (ex_Opts ex')) ''://'' ! 0)) k3' imgs3'" using ks'(2) by (auto simp: cache_dirs_def)
  have d: "set k1 \<inter> set k1' = {}" "set k3 \<inter> set k3' = {}" using new(1) k(1) k'(1) by auto
  show ?thesis
    using ks(2) ks'(2) there new stored_in_disjoint[OF k(2) k'(2) d(1)] stored_in_disjoint[OF k(3) _ d(2)] k'(3) by auto
qed

text \<open>C19: a release image is copied once: after a run of the release collector in mirrorToDisk mode that
  succeeded, a later run for which the update service names no other releases, with nothing removed in between,
  leaves the world (registries and network) as the selection of the releases left it, whether it
  succeeds or not: it reads what is on disk and does not copy a release again.\<close>

theorem release_copied_once:
  assumes "lib_keeps lib" and "preserves keeps_machine getReleases" and "co_Mode opts = mirrorToDisk"
    and "getReleases m = (Ok releases, m1)" and "ReleaseImageCollector lib cd getReleases opts config m = (Ok out, m')"
    and "keeps_machine m' n"
    and "getReleases n = (Ok releases', n1)" and "set releases' \<subseteq> set releases"
  shows "mc_world (snd (ReleaseImageCollector lib cd getReleases opts config n)) = mc_world n1"
proof -
  obtain r m2 where "on_fs (Create rel_logFile) m1 = (r, m2)" and c: "collect_releases lib cd opts releases [] m2 = (Ok out, m')"
    using assms(3,4,5) unfolding ReleaseImageCollector_def by (auto elim!: go_bind_OkE go_try_OkE)
  have present: "list_all (\<lambda>release. \<not> absent (release_dir opts release) (mc_fs m')) releases"
    using collect_releases_makes_present[OF assms(1) c] by blast
  obtain r' n2 where l: "on_fs (Create rel_logFile) n1 = (r', n2)" by fastforce
  have "keeps_machine n n1" by (rule preservesD[OF assms(2,7)])
  moreover have "keeps_machine n1 n2" by (rule preservesD[OF on_fs_preserves[OF Create_preserves] l])
  ultimately have "keeps_machine m' n2" using assms(6) km.trans by blast
  with present assms(8) have "list_all (\<lambda>release. \<not> absent (release_dir opts release) (mc_fs n2)) releases'"
    by (auto simp: list_all_iff keeps_machine_def keeps_def)
  from collect_releases_present[OF this] have w: "mc_world (snd (collect_releases lib cd opts releases' [] n2)) = mc_world n2" .
  have n2: "mc_world n2 = mc_world n1" using on_fs_world[of "Create rel_logFile" n1] l by simp
  have r': "\<nexists>p. r' = Panic p" using l by (auto simp: on_fs_def Create_def split: prod.splits)
  obtain q n3 where q: "collect_releases lib cd opts releases' [] n2 = (q, n3)" by fastforce
  have "go_try (on_fs (Create rel_logFile)) (\<lambda>_. collect_releases lib cd opts releases' []) n1 = (q, n3)"
    using l q r' by (cases r') simp_all
  then have "ReleaseImageCollector lib cd getReleases opts config n = (q, n3)"
    unfolding ReleaseImageCollector_def using assms(3,7) by (cases q) (simp_all add: go_bind_def)
  with w n2 q show ?thesis by simp
qed

section \<open>Witnesses\<close>

lemma demo_lib_keeps: "lib_keeps (en_lib demo_env)"
  by (simp add: lib_keeps_def demo_env_def demo_lib_def km.return_rule del: go_prim_defs)

theorem run_distinct_directories_witness:
  "\<exists>ex imgs1 imgs2 imgs3 m3 ks. Executor_Complete demo_env demo_cmd_opts [''oci://out''] (mc_fs demo_machine) = Ok ex \<and>
     fst (en_worker demo_env (imgs1 @ imgs2 @ imgs3) ((ex_Opts ex)\<lparr>co_ImageType := ''operator''\<rparr>) m3) = Ok () \<and>
     distinct ks \<and> cache_dirs (ex_Opts ex) ks imgs1 imgs2 imgs3"
proof -
  let ?m' = "snd (run_command demo_env demo_cmd_opts [''oci://out''] demo_machine)"
  have run: "run_command demo_env demo_cmd_opts [''oci://out''] demo_machine = (Ok 0, ?m')" by (simp add: prod_eq_iff demo_run)
  have c: "Contains ''oci://out'' ''oci://'' \<or> Contains ''oci://out'' ''dir://''" by code_simp
  obtain ex imgs1 imgs2 imgs3 m3 ks where "Executor_Complete demo_env demo_cmd_opts [''oci://out''] (mc_fs demo_machine) = Ok ex"
    "en_worker demo_env (imgs1 @ imgs2 @ imgs3) ((ex_Opts ex)\<lparr>co_ImageType := ''operator''\<rparr>) m3 = (Ok (), ?m')"
    "distinct ks" "cache_dirs (ex_Opts ex) ks imgs1 imgs2 imgs3"
    using run_distinct_directories[OF demo_lib_keeps c run] by (elim exE conjE) (rule that)
  then show ?thesis
    by (intro exI[of _ ex] exI[of _ imgs1] exI[of _ imgs2] exI[of _ imgs3] exI[of _ m3] exI[of _ ks]) simp
qed

definition demo_ex :: "unit ExecutorSchema" where
  "demo_ex = (case Executor_Complete demo_env demo_cmd_opts [''oci://out''] (mc_fs demo_machine) of Ok ex \<Rightarrow> ex)"

definition demo_collected :: "unit machine \<Rightarrow> CopyImageSchema list outcome \<times> CopyImageSchema list outcome \<times> CopyImageSchema list outcome \<times> unit machine" where
  "demo_collected m0 =
     (let (r1, m1) = ex_Release demo_ex m0; (r2, m2) = ex_Operator demo_ex m1; (r3, m3) = ex_AdditionalImages demo_ex m2
      in (r1, r2, r3, m3))"

lemma demo_collected_phases:
  assumes "demo_collected m0 = (Ok imgs1, Ok imgs2, Ok imgs3, m3)"
  obtains m1 m2 where "ex_Release demo_ex m0 = (Ok imgs1, m1)" "ex_Operator demo_ex m1 = (Ok imgs2, m2)"
    "ex_AdditionalImages demo_ex m2 = (Ok imgs3, m3)"
  using assms by (auto simp: demo_collected_def Let_def split: prod.splits)

lemma demo_ex_Complete: "Executor_Complete demo_env demo_cmd_opts [''oci://out''] (mc_fs demo_machine) = Ok demo_ex"
  using mode_options_Ok[of demo_cmd_opts "''oci://out''"] by (auto simp: demo_ex_def Executor_Complete_def Let_def)

theorem second_run_disjoint_witness:
  "\<exists>ks ks'. fst (snd (snd (demo_collected demo_machine))) =
       Ok [\<lparr>ci_Source = ''docker://quay.io/ns/app:v1'', ci_Destination = ''oci:working-dir/out/additional-images/ns/app''\<rparr>] \<and>
     cache_dirs (ex_Opts demo_ex) ks [] []
       [\<lparr>ci_Source = ''docker://quay.io/ns/app:v1'', ci_Destination = ''oci:working-dir/out/additional-images/ns/app''\<rparr>] \<and>
     cache_dirs (ex_Opts demo_ex) ks' [] [] [] \<and> distinct (ks @ ks')"
proof -
  let ?img = "\<lparr>ci_Source = ''docker://quay.io/ns/app:v1'', ci_Destination = ''oci:working-dir/out/additional-images/ns/app''\<rparr>"
  let ?m3 = "snd (snd (snd (demo_collected demo_machine)))" and ?n3 = "snd (snd (snd (demo_collected (snd (snd (snd (demo_collected demo_machine)))))))"
  have first: "fst (demo_collected demo_machine) = Ok []" "fst (snd (demo_collected demo_machine)) = Ok []"
    "fst (snd (snd (demo_collected demo_machine))) = Ok [?img]" by code_simp+
  then have 1: "demo_collected demo_machine = (Ok [], Ok [], Ok [?img], ?m3)" by (simp add: prod_eq_iff)
  have "fst (demo_collected ?m3) = Ok []" "fst (snd (demo_collected ?m3)) = Ok []" "fst (snd (snd (demo_collected ?m3))) = Ok []"
    by code_simp+
  then have 2: "demo_collected ?m3 = (Ok [], Ok [], Ok [], ?n3)" by (simp add: prod_eq_iff)
  obtain m1 m2 where c: "ex_Release demo_ex demo_machine = (Ok [], m1)" "ex_Operator demo_ex m1 = (Ok [], m2)"
    "ex_AdditionalImages demo_ex m2 = (Ok [?img], ?m3)" by (rule demo_collected_phases[OF 1])
  obtain n1 n2 where c': "ex_Release demo_ex ?m3 = (Ok [], n1)" "ex_Operator demo_ex n1 = (Ok [], n2)"
    "ex_AdditionalImages demo_ex n2 = (Ok [], ?n3)" by (rule demo_collected_phases[OF 2])
  have mode: "co_Mode (ex_Opts demo_ex) = mirrorToDisk" by code_simp
  from second_run_disjoint[OF demo_lib_keeps demo_ex_Complete mode c km.refl demo_ex_Complete mode c'] first(3) show ?thesis by blast
qed


text \<open>A library that writes a layout and counts its copies in the world.\<close>

definition demo_copy :: "string \<Rightarrow> (nat machine, string) go" where
  "demo_copy dest =
     (let dir = drop 4 dest in
      go_bind (on_world (\<lambda>n. (Ok (), Suc n))) (\<lambda>_.
      go_bind (on_fs (MkdirAll (dir @ ''/blobs/sha256''))) (\<lambda>_.
      go_bind (on_fs (WriteFile (dir @ ''/index.json'') ''i'')) (\<lambda>_.
      go_bind (on_fs (WriteFile (dir @ ''/blobs/sha256/aa'') ''m'')) (\<lambda>_. go_return ''manifest'')))))"

definition demo_counting_lib :: "nat imglib" where
  "demo_counting_lib =
     \<lparr>il_transport = il_transport demo_lib, il_capabilities = Ok [], il_reexec = go_return (),
      il_policies = il_policies demo_lib, il_newPolicyContext = il_newPolicyContext demo_lib, il_destroyPolicy = (\<lambda>_. None),
      il_parseImageName = il_parseImageName demo_lib, il_readPassphrase = (\<lambda>_. Ok []), il_parseNamed = (\<lambda>n. Ok n),
      il_copy = (\<lambda>_ dest _ _. demo_copy dest), il_delete = (\<lambda>_ _. go_return ()),
      il_digest = (\<lambda>m. Ok m), il_retryable = (\<lambda>_. False), il_wait = (\<lambda>_ _. go_return True)\<rparr>"

definition demo_layout_codecs :: codecs where
  "demo_layout_codecs =
     (let om = \<lparr>om_MediaType = [], om_Digest = ''sha256:aa'', om_Size = 1\<rparr> in
      demo_codecs\<lparr>cd_oci := (\<lambda>_. Ok (Some \<lparr>oci_SchemaVersion = 2, oci_MediaType = [], oci_Manifests = [om], oci_Config = om, oci_Layers = []\<rparr>))\<rparr>)"

definition demo_payload_machine :: "nat machine" where
  "demo_payload_machine =
     \<lparr>mc_fs = \<lparr>fs_nodes = [([''work''], Dir), ([''work'', ''hold-release''], Dir), ([''work'', ''hold-release'', ''r''], Dir),
        ([''work'', ''hold-release'', ''r'', ''v''], Dir), ([''work'', ''hold-release'', ''r'', ''v'', ''release-manifests''], Dir),
        ([''work'', ''hold-release'', ''r'', ''v'', ''release-manifests'', ''image-references''], File [])],
        fs_fault = (\<lambda>_ _. None)\<rparr>, mc_world = 0\<rparr>"

definition demo_releases :: "(nat machine, CopyImageSchema list) go" where
  "demo_releases = go_return [copy_source ''quay.io/r:v'']"

definition demo_first :: "CopyImageSchema list outcome \<times> nat machine" where
  "demo_first = ReleaseImageCollector demo_counting_lib demo_layout_codecs demo_releases demo_m2d zero_config demo_payload_machine"

theorem release_copied_once_witness:
  "fst demo_first = Ok [\<lparr>ci_Source = ''docker://quay.io/ocp/release@sha256:11'', ci_Destination = ''dir:work/release-images/r/v/images/cli''\<rparr>] \<and>
   mc_world (snd demo_first) = 1 \<and>
   mc_world (snd (ReleaseImageCollector demo_counting_lib demo_layout_codecs demo_releases demo_m2d zero_config (snd demo_first))) = 1"
proof -
  let ?out = "[\<lparr>ci_Source = ''docker://quay.io/ocp/release@sha256:11'', ci_Destination = ''dir:work/release-images/r/v/images/cli''\<rparr>]"
  have lib: "lib_keeps demo_counting_lib"
    unfolding lib_keeps_def demo_counting_lib_def by (simp add: demo_copy_def Let_def preserve del: go_prim_defs)
  have rel: "preserves keeps_machine demo_releases" unfolding demo_releases_def by (intro preserve)
  have mode: "co_Mode demo_m2d = mirrorToDisk" by code_simp
  have out: "fst demo_first = Ok ?out" and one: "mc_world (snd demo_first) = 1" by code_simp+
  then have run: "ReleaseImageCollector demo_counting_lib demo_layout_codecs demo_releases demo_m2d zero_config demo_payload_machine =
      (Ok ?out, snd demo_first)" by (simp add: prod_eq_iff demo_first_def)
  have g: "demo_releases m = (Ok [copy_source ''quay.io/r:v''], m)" for m by (simp add: demo_releases_def)
  from release_copied_once[OF lib rel mode g run km.refl g] out one show ?thesis by simp
qed

end
