(* ===== verification/Spec2Isabelle.thy ===== *)
theory Spec2Isabelle
  imports Go_Prelude Testutils Semver Api_V1alpha2 Api_V1alpha3 Shortest_Path Cincinnati Go_FS Release Manifest Mirror_Options Mirror_Copy Batch Collector_Common Additional_Collector Release_Collector Operator_Collector Config Diff Logger Executor Image_Cache Cached_Collection
begin

text \<open>
  Verification of golang-fb-mirror, a command that mirrors OpenShift release images, operator catalogs
  and additional images from registries to disk (mirrorToDisk) and from disk to a registry
  (diskToMirror).

  The program.  \<open>cmd/mirror\<close> builds the command of \<open>pkg/cli\<close>.  The executor validates the
  arguments, reads the image set configuration (\<open>pkg/config\<close>, types in \<open>pkg/api\<close>), chooses the mode,
  and runs three collectors one after the other: releases (\<open>pkg/release\<close>, which asks the Cincinnati
  service for upgrade graphs and verifies signatures), operators (\<open>pkg/operator\<close>) and additional
  images (\<open>pkg/additional\<close>).  The collectors read OCI layouts and catalogs through
  \<open>pkg/manifest\<close> and use directories as a cache of what was copied.  The images they return go to the
  batch worker (\<open>pkg/batch\<close>), which copies eight at a time through \<open>pkg/mirror\<close>, a wrapper
  of containers/image.  \<open>pkg/diff\<close> compares with the previous run.

  How it is modelled.  A call that may fail returns an \<open>outcome\<close>: a value, an error or a panic.  A call
  with effects is a function of its state (\<open>go\<close>); the state of the command is a \<open>machine\<close>: the
  file system of \<open>Go_FS\<close> and the rest of the world, of an arbitrary type.  Go maps are association
  lists, integers have the width of the source where it matters (versions are 64-bit words), slices
  are lists with the panics of indexing written out.  Goroutines are a step relation.

  The theories:
  \<^item> \<open>Go_Prelude\<close>: outcomes, the state monad, strings, maps, sorting by a three-way comparison (locale
    \<open>three_way\<close>).
  \<^item> \<open>Go_FS\<close>: paths, files, faults of the operating system, Walk; the locales \<open>dir_cache\<close> and
    \<open>dir_cache_cover\<close> state what a cache of directories promises, and the loop of the collectors is
    proved from them once; \<open>fsc\<close> interprets them for Stat and MkdirAll.
  \<^item> \<open>Semver\<close>: blang/semver as the program uses it.  \<open>Api_V1alpha2\<close>, \<open>Api_V1alpha3\<close>: the API
    types with their codecs and checks.
  \<^item> \<open>Shortest_Path\<close>, \<open>Cincinnati\<close>: \<open>core-cincinnati.go\<close> and \<open>client.go\<close>; the images of an
    upgrade lie on a shortest path of the graph, the calculation over several minor versions ends, the
    bounds of a channel are its minimum and maximum.
  \<^item> \<open>Release\<close>: \<open>cincinnati.go\<close> and \<open>find.go\<close>; the images selected lie in the configured range and
    are named in signed content, configured versions are kept.
  \<^item> \<open>Manifest\<close>: \<open>oci-manifest.go\<close>; which bundles are selected by default channel, by range and in
    full (locale \<open>catalog_step\<close>), how catalog files are split, where layers are extracted.
  \<^item> \<open>Mirror_Options\<close>, \<open>Mirror_Copy\<close>: \<open>options.go\<close>, \<open>mirror.go\<close>, \<open>unshare_linux.go\<close> and
    the retry loop; which credentials and TLS settings a context carries, which settings a copy has, how
    often it is tried.
  \<^item> \<open>Batch\<close>: \<open>worker.go\<close>; every schedule ends, does not block, copies every image once or reports
    the failure; the sequential program is one of the schedules.
  \<^item> \<open>Collector_Common\<close>, \<open>Release_Collector\<close>, \<open>Operator_Collector\<close>,
    \<open>Additional_Collector\<close>: the three collectors; what they return is new, distinct, covers the
    configuration, and is empty on a second run; what they find on disk, and that it is what was stored.
  \<^item> \<open>Config\<close>: \<open>pkg/config\<close>; a configuration that is read is well formed, duplicates are reported.
  \<^item> \<open>Diff\<close>: \<open>pkg/diff\<close>; the difference of the additional images is the set difference, the
    metadata of a run is read back as written, and the next run compares with the configuration of this one.
  \<^item> \<open>Logger\<close>: \<open>pkg/log\<close>.  \<open>Executor\<close>: \<open>pkg/cli\<close> and \<open>cmd/mirror\<close>; which
    arguments are accepted and which mode they select, and that a run stops at the first failure and cleans up.
  \<^item> \<open>Image_Cache\<close>, \<open>Cached_Collection\<close>: the contract that what exists stays (locale \<open>two_state\<close>,
    interpreted for the file system, the machine and the state of the release selection) and the promise of
    a collector, \<open>emits\<close>; every image of a run has a cache directory of its own, across the three collectors
    and across runs.
  \<^item> \<open>Testutils\<close>: \<open>internal/testutils\<close>, over a file system of its own that has symbolic links; the copy of
    a directory has every node of the original, and the registry of the copy announces the manifests as the
    original does.
  \<^item> This theory: a successful run has copied every collected image exactly once.

  Parameters.  Code outside the repository's own packages is an argument of the definitions: the image
  library (\<open>imglib\<close>), the network (\<open>net\<close>, \<open>sigenv\<close>), the decoders (\<open>codecs\<close>,
  \<open>config_codec\<close>, \<open>toml_codec\<close>), the environment, the clock.  The vendored semver, retry, logger and
  group/version code is small and modelled.  What a theorem needs of a parameter is a hypothesis of the
  theorem: that TOML is decoded as it was encoded, that \<open>en_worker\<close> is a schedule of the worker, that copying an image removes nothing that
  exists (\<open>lib_keeps\<close>).

  Fuel.  \<open>calculate\<close> in \<open>Cincinnati\<close> recurses over minor versions that come from the network;
  its argument \<open>frames\<close> bounds the stack, running out of it is a panic, and a theorem gives the
  number of frames that is always enough.  The walk over directories in \<open>Testutils\<close>, which would not
  end when it copies a directory into itself, is bounded in the same way, and the depth of the tree plus
  one is enough.  All other loops are structural or have a measure.

  Not modelled: log output (apart from the theory \<open>Logger\<close> itself); the content of images and the
  registry protocol; symbolic links (apart from \<open>Testutils\<close>), permission bits and concurrent changes of the file system by other
  programs; the difference between nil and empty slices; the constructors that only fill the fields of a
  struct, the help texts, and the embedded public key; of the
  test helpers, the file server behind the handler and the HTTP server.
\<close>

section \<open>The whole command\<close>

text \<open>C1: a run of the command that exits with 0, for every schedule of the batch worker: the three
  collectors have succeeded one after the other, release images before operator images before additional
  images, and every image they returned has been copied exactly once without an error, in this order in
  batches of eight.\<close>

theorem run_copies_every_image:
  assumes "\<And>imgs o' m. \<exists>log. Worker (en_lib en) imgs o' m (fst (en_worker en imgs o' m)) (snd (en_worker en imgs o' m)) log"
    and "run_command en opts args m = (Ok 0, m')"
  shows "\<exists>ex m0 imgs1 m1 imgs2 m2 imgs3 m3 log ls.
    Executor_Complete en opts args (mc_fs m) = Ok ex \<and>
    ex_Release ex m0 = (Ok imgs1, m1) \<and> ex_Operator ex m1 = (Ok imgs2, m2) \<and> ex_AdditionalImages ex m2 = (Ok imgs3, m3) \<and>
    Worker (en_lib en) (imgs1 @ imgs2 @ imgs3) ((ex_Opts ex)\<lparr>co_ImageType := ''operator''\<rparr>) m3 (Ok ()) m' log \<and>
    log = concat ls \<and> list_all2 (\<lambda>l imgs. mset (map fst l) = mset imgs) ls (chunks (imgs1 @ imgs2 @ imgs3)) \<and>
    list_all (\<lambda>(_, e). e = None) log"
proof -
  obtain ex where ex: "Executor_Complete en opts args (mc_fs m) = Ok ex" and run: "Executor_Run ex m = (Ok (), m')"
    using assms(2) by (rule run_command_zero)
  obtain m0 imgs1 m1 imgs2 m2 imgs3 m3 where c: "ex_Release ex m0 = (Ok imgs1, m1)" "ex_Operator ex m1 = (Ok imgs2, m2)"
      "ex_AdditionalImages ex m2 = (Ok imgs3, m3)"
      and b: "ex_Batch ex (imgs1 @ imgs2 @ imgs3) ((ex_Opts ex)\<lparr>co_ImageType := ''operator''\<rparr>) m3 = (Ok (), m')"
    using run by (rule Executor_Run_Ok)
  obtain log where w: "Worker (en_lib en) (imgs1 @ imgs2 @ imgs3) ((ex_Opts ex)\<lparr>co_ImageType := ''operator''\<rparr>) m3 (Ok ()) m' log"
    using assms(1)[of "imgs1 @ imgs2 @ imgs3" "(ex_Opts ex)\<lparr>co_ImageType := ''operator''\<rparr>" m3] b Complete_batch[OF ex] by auto
  from worker_ok[OF w[unfolded Worker_def] refl] obtain ls where ls: "log = concat ls"
      "list_all2 copied ls (chunks (imgs1 @ imgs2 @ imgs3))" and ok: "list_all (\<lambda>(_, e). e = None) log"
    unfolding failed_log_iff by blast
  have "list_all2 (\<lambda>l imgs. mset (map fst l) = mset imgs) ls (chunks (imgs1 @ imgs2 @ imgs3))"
    by (rule list_all2_mono[OF ls(2)]) (simp add: copied_def)
  note facts = ex c w ls(1) this ok
  show ?thesis by (intro exI conjI) (rule facts)+
qed

theorem run_copies_every_image_witness:
  "\<exists>ex imgs o' m3 m' log. Executor_Complete demo_env demo_cmd_opts [''oci://out''] (mc_fs demo_machine) = Ok ex \<and>
     Worker (en_lib demo_env) imgs o' m3 (Ok ()) m' log \<and> list_all (\<lambda>(_, e). e = None) log"
proof -
  let ?m' = "snd (run_command demo_env demo_cmd_opts [''oci://out''] demo_machine)"
  have run: "run_command demo_env demo_cmd_opts [''oci://out''] demo_machine = (Ok 0, ?m')" by (simp add: prod_eq_iff demo_run)
  show ?thesis using run_copies_every_image[OF demo_env_schedule run]
    by (elim exE conjE) (intro exI conjI, assumption+)
qed

end
